theory Spec2Isabelle
  imports Complex_Main
begin

section \<open>JavaScript numbers\<close>

text \<open>
  The library computes with IEEE-754 doubles. Finite doubles are idealised as real
  numbers, except where a statement depends on the rounding of a result: there the
  operation is followed by the rounding of the section after this one. Overflow is not
  modelled. The special values that
  the source can reach by dividing by zero or by leaving the domain of a function are
  modelled exactly: \<open>NaN\<close>, the two infinities and the negative zero (\<open>Fin 0\<close> is the
  positive zero, \<open>NZero\<close> the negative one).
\<close>

datatype jsnum = Fin real | NZero | PInf | NInf | NaN

fun is_zero :: "jsnum \<Rightarrow> bool" where
  "is_zero (Fin x) = (x = 0)"
| "is_zero NZero = True"
| "is_zero _ = False"

fun is_inf :: "jsnum \<Rightarrow> bool" where
  "is_inf PInf = True"
| "is_inf NInf = True"
| "is_inf _ = False"

text \<open>The sign bit (irrelevant for \<open>NaN\<close>).\<close>

fun signbit :: "jsnum \<Rightarrow> bool" where
  "signbit (Fin x) = (x < 0)"
| "signbit NZero = True"
| "signbit PInf = False"
| "signbit NInf = True"
| "signbit NaN = False"

definition zero_of :: "bool \<Rightarrow> jsnum" where
  "zero_of neg = (if neg then NZero else Fin 0)"

definition inf_of :: "bool \<Rightarrow> jsnum" where
  "inf_of neg = (if neg then NInf else PInf)"

text \<open>The finite value of a number, where it has one (both zeros have value 0).\<close>

fun finite_val :: "jsnum \<Rightarrow> real option" where
  "finite_val (Fin x) = Some x"
| "finite_val NZero = Some 0"
| "finite_val _ = None"

text \<open>Unary minus.\<close>

fun jneg :: "jsnum \<Rightarrow> jsnum" where
  "jneg (Fin x) = (if x = 0 then NZero else Fin (- x))"
| "jneg NZero = Fin 0"
| "jneg PInf = NInf"
| "jneg NInf = PInf"
| "jneg NaN = NaN"

text \<open>\<open>a + b\<close>: opposite infinities give \<open>NaN\<close>; a zero sum is \<open>-0\<close> only for \<open>-0 + -0\<close>.\<close>

fun jadd :: "jsnum \<Rightarrow> jsnum \<Rightarrow> jsnum" where
  "jadd NaN b = NaN"
| "jadd a NaN = NaN"
| "jadd PInf NInf = NaN"
| "jadd NInf PInf = NaN"
| "jadd PInf b = PInf"
| "jadd a PInf = PInf"
| "jadd NInf b = NInf"
| "jadd a NInf = NInf"
| "jadd NZero NZero = NZero"
| "jadd NZero (Fin y) = Fin y"
| "jadd (Fin x) NZero = Fin x"
| "jadd (Fin x) (Fin y) = Fin (x + y)"

definition jsub :: "jsnum \<Rightarrow> jsnum \<Rightarrow> jsnum" where
  "jsub a b = jadd a (jneg b)"

text \<open>\<open>a * b\<close>: infinity times zero is \<open>NaN\<close>; the sign of a zero or infinite product is
  the exclusive or of the signs.\<close>

definition jmul :: "jsnum \<Rightarrow> jsnum \<Rightarrow> jsnum" where
  "jmul a b =
     (if a = NaN \<or> b = NaN then NaN
      else if (is_inf a \<and> is_zero b) \<or> (is_zero a \<and> is_inf b) then NaN
      else if is_inf a \<or> is_inf b then inf_of (signbit a \<noteq> signbit b)
      else if is_zero a \<or> is_zero b then zero_of (signbit a \<noteq> signbit b)
      else (case (a, b) of (Fin x, Fin y) \<Rightarrow> Fin (x * y) | _ \<Rightarrow> NaN))"

text \<open>\<open>a / b\<close>: \<open>0/0\<close> and \<open>Infinity/Infinity\<close> are \<open>NaN\<close>; a nonzero number divided by
  a zero is an infinity.\<close>

definition jdiv :: "jsnum \<Rightarrow> jsnum \<Rightarrow> jsnum" where
  "jdiv a b =
     (if a = NaN \<or> b = NaN then NaN
      else if (is_inf a \<and> is_inf b) \<or> (is_zero a \<and> is_zero b) then NaN
      else if is_inf a \<or> is_zero b then inf_of (signbit a \<noteq> signbit b)
      else if is_inf b \<or> is_zero a then zero_of (signbit a \<noteq> signbit b)
      else (case (a, b) of (Fin x, Fin y) \<Rightarrow> Fin (x / y) | _ \<Rightarrow> NaN))"

text \<open>The comparisons \<open>a < b\<close> and \<open>a > b\<close>: false when an operand is \<open>NaN\<close>; the two
  zeros are equal.\<close>

fun jlt :: "jsnum \<Rightarrow> jsnum \<Rightarrow> bool" where
  "jlt NaN b = False"
| "jlt a NaN = False"
| "jlt PInf b = False"
| "jlt a NInf = False"
| "jlt NInf b = True"
| "jlt a PInf = True"
| "jlt a b = (the (finite_val a) < the (finite_val b))"

definition jgt :: "jsnum \<Rightarrow> jsnum \<Rightarrow> bool" where
  "jgt a b = jlt b a"

text \<open>\<open>Math.abs\<close>, \<open>Math.sqrt\<close>, \<open>Math.pow(x, 2)\<close> and \<open>Math.min\<close>.\<close>

fun Math_abs :: "jsnum \<Rightarrow> jsnum" where
  "Math_abs (Fin x) = Fin \<bar>x\<bar>"
| "Math_abs NZero = Fin 0"
| "Math_abs PInf = PInf"
| "Math_abs NInf = PInf"
| "Math_abs NaN = NaN"

fun Math_sqrt :: "jsnum \<Rightarrow> jsnum" where
  "Math_sqrt (Fin x) = (if x < 0 then NaN else Fin (sqrt x))"
| "Math_sqrt NZero = NZero"
| "Math_sqrt PInf = PInf"
| "Math_sqrt NInf = NaN"
| "Math_sqrt NaN = NaN"

definition Math_pow2 :: "jsnum \<Rightarrow> jsnum" where
  "Math_pow2 a = jmul a a"

definition Math_min :: "jsnum \<Rightarrow> jsnum \<Rightarrow> jsnum" where
  "Math_min a b =
     (if a = NaN \<or> b = NaN then NaN
      else if is_zero a \<and> is_zero b then zero_of (signbit a \<or> signbit b)
      else if jlt b a then b else a)"

text \<open>The trigonometric functions: not a number at an infinity.\<close>

fun Math_cos :: "jsnum \<Rightarrow> jsnum" where
  "Math_cos (Fin x) = Fin (cos x)"
| "Math_cos NZero = Fin 1"
| "Math_cos _ = NaN"

fun Math_sin :: "jsnum \<Rightarrow> jsnum" where
  "Math_sin (Fin x) = Fin (sin x)"
| "Math_sin NZero = NZero"
| "Math_sin _ = NaN"

fun Math_atan :: "jsnum \<Rightarrow> jsnum" where
  "Math_atan (Fin x) = Fin (arctan x)"
| "Math_atan NZero = NZero"
| "Math_atan PInf = Fin (pi / 2)"
| "Math_atan NInf = Fin (- (pi / 2))"
| "Math_atan NaN = NaN"

text \<open>\<open>Math.asin\<close>: \<open>NaN\<close> outside \<open>[-1, 1]\<close>.\<close>

fun Math_asin :: "jsnum \<Rightarrow> jsnum" where
  "Math_asin (Fin x) = (if x < - 1 \<or> 1 < x then NaN else Fin (arcsin x))"
| "Math_asin NZero = NZero"
| "Math_asin _ = NaN"

text \<open>\<open>Math.atan2(y, x)\<close> with its special cases: the sign of a zero \<open>y\<close> selects
  between \<open>0\<close> and \<open>pi\<close> (or their negatives).\<close>

definition signed :: "bool \<Rightarrow> real \<Rightarrow> jsnum" where
  "signed neg v = (if neg then jneg (Fin v) else Fin v)"

definition Math_atan2 :: "jsnum \<Rightarrow> jsnum \<Rightarrow> jsnum" where
  "Math_atan2 y x =
     (if y = NaN \<or> x = NaN then NaN
      else if is_zero y then (if signbit x then signed (signbit y) pi else signed (signbit y) 0)
      else if is_zero x then signed (signbit y) (pi / 2)
      else if is_inf y then
        (if x = PInf then signed (signbit y) (pi / 4)
         else if x = NInf then signed (signbit y) (3 * pi / 4)
         else signed (signbit y) (pi / 2))
      else if x = PInf then signed (signbit y) 0
      else if x = NInf then signed (signbit y) pi
      else (case (y, x) of
              (Fin b, Fin a) \<Rightarrow>
                (if 0 < a then Fin (arctan (b / a))
                 else if 0 < b then Fin (arctan (b / a) + pi)
                 else Fin (arctan (b / a) - pi))
            | _ \<Rightarrow> NaN))"

section \<open>Rounding to a double\<close>

text \<open>
  A JavaScript number is an IEEE 754 double. Where a claim depends on the rounding of an
  arithmetic result, the operation is modelled as the exact operation on the reals
  followed by \<open>fl\<close>, the rounding to the nearest double, ties to the even significand.
  \<open>binade x\<close> is the exponent of the power of two at or below \<open>\<bar>x\<bar>\<close>, not below that of
  the subnormal numbers; \<open>ulp x\<close> is the distance between neighbouring doubles there, 52
  binary places further down. Overflow is not part of \<open>fl\<close>: it is applied only to
  magnitudes far below the largest double. The two zeros are not distinguished.
\<close>

definition binade :: "real \<Rightarrow> int" where
  "binade x = max \<lfloor>log 2 \<bar>x\<bar>\<rfloor> (- 1022)"

definition ulp :: "real \<Rightarrow> real" where
  "ulp x = 2 powi (binade x - 52)"

definition round_even :: "real \<Rightarrow> int" where
  "round_even t =
     (let f = \<lfloor>t\<rfloor>; d = t - of_int f
      in if d < 1 / 2 then f else if 1 / 2 < d then f + 1 else if even f then f else f + 1)"

definition fl :: "real \<Rightarrow> real" where
  "fl x = (if x = 0 then 0 else ulp x * of_int (round_even (x / ulp x)))"

section \<open>geolib: constants and spherical functions\<close>

definition halfpi :: real where
  "halfpi = pi / 2"

definition tau :: real where
  "tau = 2 * pi"

definition radians :: "real \<Rightarrow> real" where
  "radians x = x * (pi / 180)"

definition degrees :: "real \<Rightarrow> real" where
  "degrees x = x * (180 / pi)"

text \<open>A coordinate is the array \<open>[lng, lat]\<close> in degrees.\<close>

type_synonym coordinate = "real \<times> real"

text \<open>
  \<open>voyc.calc\<theta>\<close>: the central angle between two coordinates by the haversine formula.
  The claim about it is one of exact equality of doubles, so every operation is rounded:
  \<open>Math_PI\<close> is the double \<open>Math.PI\<close>, \<open>radians_fl\<close> is \<open>voyc.radians\<close> with its two rounded
  operations, and \<open>Math.sin\<close>, \<open>Math.cos\<close>, \<open>Math.sqrt\<close> and \<open>Math.atan2\<close> are taken to
  return the double nearest to the exact result. The product of four factors is
  evaluated from the left, as the source is parsed. The result is \<open>None\<close> where the
  source has \<open>NaN\<close>, the square root of a negative number.
\<close>

definition Math_PI :: real where
  "Math_PI = fl pi"

definition radians_fl :: "real \<Rightarrow> real" where
  "radians_fl x = fl (x * fl (Math_PI / 180))"

definition calcTheta_hav :: "coordinate \<Rightarrow> coordinate \<Rightarrow> real" where
  "calcTheta_hav coA coB =
     (let lamA = radians_fl (fst coA); phiA = radians_fl (snd coA);
          lamB = radians_fl (fst coB); phiB = radians_fl (snd coB);
          dlam = fl (lamB - lamA); dphi = fl (phiB - phiA);
          sphi = fl (sin (fl (dphi / 2)));
          slam = fl (sin (fl (dlam / 2)))
      in fl (fl (sphi * sphi) +
             fl (fl (fl (slam * slam) * fl (cos phiA)) * fl (cos phiB))))"

definition calcTheta :: "coordinate \<Rightarrow> coordinate \<Rightarrow> real option" where
  "calcTheta coA coB =
     (let hav = calcTheta_hav coA coB;
          om = fl (1 - hav)
      in if hav < 0 \<or> om < 0 then None
         else map_option (\<lambda>t. fl (2 * fl t))
                (finite_val (Math_atan2 (Fin (fl (sqrt hav))) (Fin (fl (sqrt om))))))"

section \<open>trig.js: planar helper functions\<close>

text \<open>A point is the array \<open>[x, y]\<close>. The intermediate results of these functions can
  be infinite or \<open>NaN\<close> (they divide by coordinate differences), so they compute with
  \<open>jsnum\<close>.\<close>

type_synonym jpoint = "jsnum \<times> jsnum"

definition length_AB :: "jpoint \<Rightarrow> jpoint \<Rightarrow> jsnum" where
  "length_AB A B =
     (let xA = fst A; yA = snd A; xB = fst B; yB = snd B
      in Math_sqrt (jadd (Math_pow2 (jsub yB yA)) (Math_pow2 (jsub xB xA))))"

definition slope :: "jpoint \<Rightarrow> jpoint \<Rightarrow> jsnum" where
  "slope A B =
     (let xA = fst A; yA = snd A; xB = fst B; yB = snd B
      in jdiv (jsub yB yA) (jsub xB xA))"

definition slopePerpendicular :: "jsnum \<Rightarrow> jsnum" where
  "slopePerpendicular m = jdiv (Fin (- 1)) m"

text \<open>A line is the array \<open>[a, b, c, m, i]\<close>: normal form \<open>ax + by + c = 0\<close> and
  slope-intercept form \<open>y = mx + i\<close>.\<close>

type_synonym jline = "jsnum \<times> jsnum \<times> jsnum \<times> jsnum \<times> jsnum"

definition lineGivenTwoPoints :: "jpoint \<Rightarrow> jpoint \<Rightarrow> jline" where
  "lineGivenTwoPoints A B =
     (let xA = fst A; yA = snd A; xB = fst B; yB = snd B;
          a = jsub yA yB;
          b = jsub xB xA;
          c = jsub (jmul xA yB) (jmul xB yA);
          m = jdiv (jneg a) b;
          i = jdiv (jneg c) b
      in (a, b, c, m, i))"

definition lineGivenSlopeAndOnePoint :: "jsnum \<Rightarrow> jpoint \<Rightarrow> jline" where
  "lineGivenSlopeAndOnePoint m A =
     (let xA = fst A; yA = snd A;
          i = jadd (jmul (jneg m) xA) yA;
          xB = Fin 0;
          yB = i;
          a = jsub yA yB;
          b = jsub xB xA;
          c = jsub (jmul xA yB) (jmul xB yA)
      in (a, b, c, m, i))"

text \<open>\<open>voyc.intersection\<close>: the point on line \<open>AB\<close> where the perpendicular through
  \<open>C\<close> meets it.\<close>

definition intersection :: "jpoint \<Rightarrow> jpoint \<Rightarrow> jpoint \<Rightarrow> jpoint" where
  "intersection A B C =
     (case lineGivenTwoPoints A B of (a1, b1, c1, m1, i1) \<Rightarrow>
        (let mp = slopePerpendicular m1
         in case lineGivenSlopeAndOnePoint mp C of (a2, b2, c2, m2, i2) \<Rightarrow>
           (let x = jdiv (jsub (jmul b1 c2) (jmul b2 c1)) (jsub (jmul a1 b2) (jmul a2 b1));
                y = jdiv (jsub (jmul a2 c1) (jmul a1 c2)) (jsub (jmul a1 b2) (jmul a2 b1))
            in (x, y))))"

text \<open>\<open>voyc.distancePointToLine\<close> returns its \<open>d1\<close>; the second formula \<open>d2\<close> of the
  source is computed and dropped.\<close>

definition distancePointToLine :: "jpoint \<Rightarrow> jpoint \<Rightarrow> jpoint \<Rightarrow> jsnum" where
  "distancePointToLine E A B =
     (let xE = fst E; yE = snd E
      in case lineGivenTwoPoints A B of (a, b, c, m, i) \<Rightarrow>
           jdiv (Math_abs (jadd (jadd (jmul a xE) (jmul b yE)) c))
                (Math_sqrt (jadd (jmul a a) (jmul b b))))"

definition pointInRect :: "jpoint \<Rightarrow> jpoint \<Rightarrow> jpoint \<Rightarrow> bool" where
  "pointInRect C A B =
     (let l = fst A; t = snd A; r = fst B; b = snd B
      in jgt (fst C) l \<and> jlt (fst C) r \<and> jlt (snd C) t \<and> jgt (snd C) b)"

text \<open>\<open>voyc.distancePointToLineSeg\<close>. The locals \<open>m\<close> and \<open>mp\<close> of the source are
  computed and never read; they are left out.\<close>

definition distancePointToLineSeg :: "jpoint \<Rightarrow> jpoint \<Rightarrow> jpoint \<Rightarrow> jsnum" where
  "distancePointToLineSeg E A B =
     (let d = distancePointToLine E A B;
          D = intersection A B E;
          isInside = pointInRect D A B
      in if isInside then d
         else (let dae = length_AB A E; dbe = length_AB B E in Math_min dae dbe))"

text \<open>A point with finite coordinates.\<close>

definition jpt :: "real \<Rightarrow> real \<Rightarrow> jpoint" where
  "jpt x y = (Fin x, Fin y)"

section \<open>Projection.asin\<close>

text \<open>\<open>voyc.Projection.prototype.asin\<close>: the arcsine constrained to plus or minus half
  pi.\<close>

definition asin :: "jsnum \<Rightarrow> jsnum" where
  "asin x = (if jgt x (Fin 1) then Fin halfpi
             else if jlt x (Fin (- 1)) then Fin (- halfpi)
             else Math_asin x)"

section \<open>geoiterator.js: the data walked by the iterator\<close>

text \<open>
  A geometry is a GeoJSON object: its \<open>type\<close> tag with the \<open>coordinates\<close> payload of
  that type. A polygon is a non-empty array of rings; the iterator reads only
  \<open>polygon[0]\<close>, here the first argument of \<open>Rings\<close>. The attributes that only the
  subclasses for scale rank, time and colour read (\<open>scalerank\<close>, \<open>b\<close>, \<open>e\<close>, \<open>c\<close>,
  \<open>name\<close>) are left out.
\<close>

type_synonym ring = "coordinate list"

datatype polygon = Rings ring "ring list"

datatype geometry =
    Point coordinate
  | MultiPoint "coordinate list"
  | LineString "coordinate list"
  | MultiLineString "coordinate list list"
  | Polygon polygon
  | MultiPolygon "polygon list"

record collection =
  name :: string
  geometries :: "geometry list"

text \<open>The third argument of \<open>doPoint\<close>: the strings \<open>'point'\<close>, \<open>'poly'\<close>, \<open>'line'\<close>.\<close>

datatype within_arg = WPoint | WPoly | WLine

section \<open>geoiterator.js: the values hooks return\<close>

text \<open>
  A hook returns \<open>true\<close> (continue), \<open>false\<close> (stop), \<open>0\<close> (skip) or nothing
  (\<open>undefined\<close>); \<open>iterateGeometry\<close> itself starts its result at \<open>null\<close>. Of these only
  \<open>true\<close> is truthy.
\<close>

datatype jsval = JTrue | JFalse | JZero | JUndefined | JNull

fun truthy :: "jsval \<Rightarrow> bool" where
  "truthy JTrue = True"
| "truthy _ = False"

text \<open>A thrown exception ends every pending call. \<open>NestingBound\<close> is not an exception
  of the source: it marks that a model of a re-entrant hook ran out of its bound on the
  nesting depth.\<close>

datatype error = TypeError | NestingBound

definition bindE :: "'e + 'a \<Rightarrow> ('a \<Rightarrow> 'e + 'b) \<Rightarrow> 'e + 'b" where
  "bindE m f = (case m of Inl e \<Rightarrow> Inl e | Inr a \<Rightarrow> f a)"

section \<open>geoiterator.js: class GeoIterator\<close>

text \<open>
  The fields the base class owns: \<open>ret\<close> and \<open>forcePoint\<close> are set by the constructor,
  the other four by the traversal (\<open>None\<close> is JavaScript's \<open>undefined\<close> or \<open>false\<close>). A
  subclass extends the record with its own fields.
\<close>

record geoiterator =
  ret :: jsval
  forcePoint :: bool
  collection :: "collection option"
  geometry :: "geometry option"
  polygon :: "polygon option"
  line :: "ring option"

definition GeoIterator :: geoiterator where
  "GeoIterator = \<lparr> ret = JFalse, forcePoint = False, collection = None,
                    geometry = None, polygon = None, line = None \<rparr>"

text \<open>
  The overridable methods of an iterator object over the state \<open>'s\<close>. A hook reads and
  updates the object and returns a value, or throws. \<open>'p\<close> is the type of the additional
  arguments that \<open>iterateCollection\<close> hands to \<open>collectionStart\<close>.
\<close>

record ('s, 'p) hooks =
  collectionStart :: "collection \<Rightarrow> 'p \<Rightarrow> 's \<Rightarrow> error + (jsval \<times> 's)"
  collectionEnd :: "collection \<Rightarrow> 's \<Rightarrow> error + 's"
  geometryStart :: "geometry \<Rightarrow> 's \<Rightarrow> error + (jsval \<times> 's)"
  geometryEnd :: "geometry \<Rightarrow> 's \<Rightarrow> error + 's"
  polygonStart :: "ring \<Rightarrow> 's \<Rightarrow> error + (jsval \<times> 's)"
  polygonEnd :: "ring \<Rightarrow> 's \<Rightarrow> error + 's"
  lineStart :: "ring \<Rightarrow> 's \<Rightarrow> error + (jsval \<times> 's)"
  lineEnd :: "ring \<Rightarrow> 's \<Rightarrow> error + 's"
  doPoint :: "coordinate \<Rightarrow> within_arg \<Rightarrow> int \<Rightarrow> 's \<Rightarrow> error + (jsval \<times> 's)"

text \<open>
  The loop \<open>while (boo && ++i<len) boo = f(xs[i], i)\<close>, which occurs five times. The
  list holds the elements after position \<open>i\<close>; \<open>i\<close> is the counter before its increment
  (\<open>-1\<close> at the start) and \<open>boo\<close> the current flag.
\<close>

fun whileBoo ::
  "('x \<Rightarrow> int \<Rightarrow> 's \<Rightarrow> error + (jsval \<times> 's)) \<Rightarrow> 'x list \<Rightarrow> int \<Rightarrow> jsval \<Rightarrow> 's \<Rightarrow> error + (jsval \<times> 's)"
where
  "whileBoo f [] i boo s = Inr (boo, s)"
| "whileBoo f (x # xs) i boo s =
     (if truthy boo then
        (case f x (i + 1) s of
           Inl e \<Rightarrow> Inl e
         | Inr (boo', s') \<Rightarrow> whileBoo f xs (i + 1) boo' s')
      else Inr (boo, s))"

definition iteratePolygon ::
  "('a geoiterator_scheme, 'p) hooks \<Rightarrow> polygon \<Rightarrow> 'a geoiterator_scheme \<Rightarrow>
     error + (jsval \<times> 'a geoiterator_scheme)"
where
  "iteratePolygon h pg s =
     (let s1 = s\<lparr>polygon := Some pg\<rparr>;
          poly = (case pg of Rings r others \<Rightarrow> r)
      in bindE (polygonStart h poly s1) (\<lambda>(st, s2).
         bindE (if truthy st
                then whileBoo (\<lambda>c i. doPoint h c WPoly i) poly (- 1) JTrue s2
                else Inr (JTrue, s2)) (\<lambda>(boo, s3).
         bindE (polygonEnd h poly s3) (\<lambda>s4. Inr (boo, s4)))))"

text \<open>In \<open>iterateLine\<close> the flag \<open>boo\<close> is declared inside the \<open>if\<close>: when \<open>lineStart\<close>
  returns a falsy value it is still \<open>undefined\<close> at the \<open>return\<close>.\<close>

definition iterateLine ::
  "('a geoiterator_scheme, 'p) hooks \<Rightarrow> ring \<Rightarrow> 'a geoiterator_scheme \<Rightarrow>
     error + (jsval \<times> 'a geoiterator_scheme)"
where
  "iterateLine h ls s =
     (let s1 = s\<lparr>line := Some ls\<rparr>
      in bindE (lineStart h ls s1) (\<lambda>(st, s2).
         bindE (if truthy st
                then whileBoo (\<lambda>c i. doPoint h c WLine i) ls (- 1) JTrue s2
                else Inr (JUndefined, s2)) (\<lambda>(boo, s3).
         bindE (lineEnd h ls s3) (\<lambda>s4. Inr (boo, s4)))))"

text \<open>The \<open>switch\<close> statement of \<open>iterateGeometry\<close>, entered with \<open>boo = true\<close>.\<close>

definition iterateGeometry_switch ::
  "('a geoiterator_scheme, 'p) hooks \<Rightarrow> geometry \<Rightarrow> 'a geoiterator_scheme \<Rightarrow>
     error + (jsval \<times> 'a geoiterator_scheme)"
where
  "iterateGeometry_switch h g s =
     (case g of
        MultiPolygon ps \<Rightarrow> whileBoo (\<lambda>p i. iteratePolygon h p) ps (- 1) JTrue s
      | Polygon p \<Rightarrow> iteratePolygon h p s
      | MultiLineString ls \<Rightarrow> whileBoo (\<lambda>l i. iterateLine h l) ls (- 1) JTrue s
      | LineString l \<Rightarrow> iterateLine h l s
      | MultiPoint cs \<Rightarrow> whileBoo (\<lambda>c i. doPoint h c WPoint i) cs (- 1) JTrue s
      | Point c \<Rightarrow> doPoint h c WPoint (- 1) s)"

definition iterateGeometry ::
  "('a geoiterator_scheme, 'p) hooks \<Rightarrow> geometry \<Rightarrow> 'a geoiterator_scheme \<Rightarrow>
     error + (jsval \<times> 'a geoiterator_scheme)"
where
  "iterateGeometry h g s =
     (let s1 = s\<lparr>geometry := Some g, polygon := None, line := None\<rparr>
      in bindE (geometryStart h g s1) (\<lambda>(geostat, s2).
           if geostat = JZero then Inr (JTrue, s2)
           else if geostat = JFalse then Inr (JFalse, s2)
           else if geostat = JTrue then
             bindE (iterateGeometry_switch h g s2) (\<lambda>(boo, s3).
             bindE (geometryEnd h g s3) (\<lambda>s4. Inr (boo, s4)))
           else Inr (JNull, s2)))"

definition iterateCollection ::
  "('a geoiterator_scheme, 'p) hooks \<Rightarrow> collection \<Rightarrow> 'p \<Rightarrow> 'a geoiterator_scheme \<Rightarrow>
     error + (jsval \<times> 'a geoiterator_scheme)"
where
  "iterateCollection h c add s =
     (let s1 = s\<lparr>ret := JFalse, collection := Some c\<rparr>
      in bindE (collectionStart h c add s1) (\<lambda>(st, s2).
           if truthy st then
             bindE (whileBoo (\<lambda>g i. iterateGeometry h g) (geometries c) (- 1) JTrue s2) (\<lambda>(boo, s3).
             bindE (collectionEnd h c s3) (\<lambda>s4. Inr (ret s4, s4)))
           else Inr (ret s2, s2)))"

text \<open>The methods of \<open>GeoIterator.prototype\<close>. \<open>collectionStart\<close> has an empty body and
  so returns \<open>undefined\<close>; the other three start hooks and \<open>doPoint\<close> return \<open>true\<close>.\<close>

definition GeoIterator_prototype :: "('a geoiterator_scheme, 'p) hooks" where
  "GeoIterator_prototype =
     \<lparr> collectionStart = (\<lambda>c add s. Inr (JUndefined, s)),
       collectionEnd = (\<lambda>c s. Inr s),
       geometryStart = (\<lambda>g s. Inr (JTrue, s)),
       geometryEnd = (\<lambda>g s. Inr s),
       polygonStart = (\<lambda>r s. Inr (JTrue, s)),
       polygonEnd = (\<lambda>r s. Inr s),
       lineStart = (\<lambda>r s. Inr (JTrue, s)),
       lineEnd = (\<lambda>r s. Inr s),
       doPoint = (\<lambda>c w ndx s. Inr (JTrue, s)) \<rparr>"

text \<open>
  \<open>GeoIteratorCount\<close>: the subclass that counts what it visits. Its \<open>collectionStart\<close>
  zeroes the counters and, like the one it overrides, returns nothing (the fields
  \<open>saveCollection\<close> and \<open>param1\<close> to \<open>param3\<close> it also stores are never read and are left
  out). The logging \<open>collectionEnd\<close> changes no field. The counter \<open>this.geometries\<close> is
  \<open>geometry_count\<close> here.
\<close>

record geoiteratorcount = geoiterator +
  points :: nat
  lines :: nat
  polygons :: nat
  geometry_count :: nat

definition GeoIteratorCount_prototype :: "(geoiteratorcount, 'p) hooks" where
  "GeoIteratorCount_prototype =
     \<lparr> collectionStart = (\<lambda>c add s.
         Inr (JUndefined, s\<lparr>points := 0, lines := 0, polygons := 0, geometry_count := 0\<rparr>)),
       collectionEnd = (\<lambda>c s. Inr s),
       geometryStart = (\<lambda>g s. Inr (JTrue, s\<lparr>geometry_count := geometry_count s + 1\<rparr>)),
       geometryEnd = (\<lambda>g s. Inr s),
       polygonStart = (\<lambda>r s. Inr (JTrue, s\<lparr>polygons := polygons s + 1\<rparr>)),
       polygonEnd = (\<lambda>r s. Inr s),
       lineStart = (\<lambda>r s. Inr (JTrue, s\<lparr>lines := lines s + 1\<rparr>)),
       lineEnd = (\<lambda>r s. Inr s),
       doPoint = (\<lambda>c w ndx s. Inr (JTrue, s\<lparr>points := points s + 1\<rparr>)) \<rparr>"

section \<open>trig.js: class Projection\<close>

text \<open>
  The projection computes with real numbers. Where the source can produce a value that
  is not a finite number, the model says so: a pixel coordinate that \<open>project\<close> leaves
  \<open>undefined\<close> is \<open>None\<close>, and \<open>invert\<close> returns \<open>None\<close> when a component of its result
  is not a finite number (a zero scale factor, an \<open>undefined\<close> input or an arcsine
  outside its domain). The real arc tangent \<open>atan2\<close> does not distinguish the two
  zeros.
\<close>

definition atan2 :: "real \<Rightarrow> real \<Rightarrow> real" where
  "atan2 y x =
     (if 0 < x then arctan (y / x)
      else if x < 0 then (if 0 \<le> y then arctan (y / x) + pi else arctan (y / x) - pi)
      else if 0 < y then pi / 2
      else if y < 0 then - (pi / 2)
      else 0)"

text \<open>Modelled from the spec: \<open>voyc.clamp\<close> is called by \<open>project\<close> and is not in the
  source files. The spec says that the cylindrical path "clamps latitude to" the
  interval between minus and plus 85.05113 degrees: the value limited to \<open>[lo, hi]\<close>.\<close>

definition clamp :: "real \<Rightarrow> real \<Rightarrow> real \<Rightarrow> real" where
  "clamp x lo hi = max lo (min hi x)"

text \<open>\<open>voyc.mercatorStretch\<close> and \<open>voyc.mercatorShrink\<close>. The logarithm is HOL's; it is
  JavaScript's where the tangent is positive, which holds for every clamped latitude.\<close>

definition mercatorStretch :: "real \<Rightarrow> real" where
  "mercatorStretch latm =
     (let phim = radians latm; phi = ln (tan (pi / 4 + phim / 2)) in degrees phi)"

definition mercatorShrink :: "real \<Rightarrow> real" where
  "mercatorShrink lat =
     (let phi = radians lat; phim = (2 * arctan (exp phi)) - (pi / 2) in degrees phim)"

text \<open>The remainder operator \<open>%\<close> on finite numbers with a nonzero divisor: the result
  has the sign of the dividend.\<close>

definition js_rem :: "real \<Rightarrow> real \<Rightarrow> real" where
  "js_rem x y =
     (let q = x / y in x - y * (if 0 \<le> q then of_int \<lfloor>q\<rfloor> else of_int \<lceil>q\<rceil>))"

text \<open>An entry of the table \<open>voyc.mixer\<close>.\<close>

record mixer =
  orthographic :: bool
  cylindrical :: bool
  stitch :: bool
  viewport :: bool
  mercator :: bool
  soupcan :: bool

definition mixer_row :: "bool \<Rightarrow> bool \<Rightarrow> bool \<Rightarrow> bool \<Rightarrow> bool \<Rightarrow> bool \<Rightarrow> mixer" where
  "mixer_row o' c' st' v' m' sc' =
     \<lparr> orthographic = o', cylindrical = c', stitch = st', viewport = v',
       mercator = m', soupcan = sc' \<rparr>"

definition voyc_mixer :: "nat \<Rightarrow> mixer option" where
  "voyc_mixer n =
     (if n = 0 then Some (mixer_row True False False False False False)
      else if n = 1 then Some (mixer_row True False False False False False)
      else if n = 2 then Some (mixer_row True True False True False True)
      else if n = 3 then Some (mixer_row True True False True False True)
      else if n = 4 then Some (mixer_row False True False True False True)
      else if n = 5 then Some (mixer_row False True False True False True)
      else if n = 6 then Some (mixer_row False True True True True False)
      else if n = 7 then Some (mixer_row False True True True True False)
      else if n = 8 then Some (mixer_row False True True True True False)
      else None)"

text \<open>
  The fields of a configured projection. The Greek names of the source are spelled out:
  \<open>delta_lambda\<close>, \<open>delta_phi\<close>, \<open>delta_gamma\<close> are the three rotation angles in
  radians, \<open>delta_x\<close> and \<open>delta_y\<close> the translation. \<open>cx\<close> and \<open>mx\<close> are the clip extent
  and the map extent \<open>[[w,n],[e,s]]\<close>. \<open>mf\<close> and \<open>sf\<close> are set by \<open>setMix\<close> through
  \<open>voyc.interpolate\<close>, which is not in the source files; they are fields with any value
  here.
\<close>

record projection =
  co :: "real \<times> real"
  pt :: "real \<times> real"
  zoom :: real
  delta_lambda :: real
  delta_phi :: real
  delta_gamma :: real
  cos_delta_phi :: real
  sin_delta_phi :: real
  cos_delta_gamma :: real
  sin_delta_gamma :: real
  delta_x :: real
  delta_y :: real
  wd :: real
  ht :: real
  k :: real
  pxlPerDgr :: real
  uscale :: real
  cr :: real
  cx :: "(real \<times> real) \<times> (real \<times> real)"
  mx :: "(real \<times> real) \<times> (real \<times> real)"
  latClamp :: real
  mix :: real
  mixer :: mixer
  mf :: real
  sf :: real

text \<open>\<open>clipAngle(90)\<close>, the value of \<open>cr\<close> that the constructor sets.\<close>

definition clipAngle :: "real \<Rightarrow> real" where
  "clipAngle angle = (let clipRadians = radians angle in cos clipRadians)"

definition isVisibleExtent :: "projection \<Rightarrow> real \<Rightarrow> real \<Rightarrow> bool" where
  "isVisibleExtent P x y =
     (x \<ge> fst (fst (cx P)) \<and> x \<le> fst (snd (cx P)) \<and>
      y \<ge> snd (fst (cx P)) \<and> y \<le> snd (snd (cx P)))"

definition isPointVisible :: "projection \<Rightarrow> real \<Rightarrow> real \<Rightarrow> bool" where
  "isPointVisible P lam phi = (cos lam * cos phi > cr P)"

definition isPointInCircle :: "projection \<Rightarrow> real \<Rightarrow> real \<Rightarrow> bool" where
  "isPointInCircle P x y =
     (let xc = wd P / 2; yc = ht P / 2; r = k P
      in (x - xc)\<^sup>2 + (y - yc)\<^sup>2 \<le> r\<^sup>2)"

text \<open>A pixel is the array \<open>[x, y, visible]\<close> that \<open>project\<close> returns.\<close>

type_synonym pixel = "real option \<times> real option \<times> bool"

text \<open>The cylindrical block of \<open>project\<close>: the point \<open>(xc, yc)\<close>.\<close>

definition project_cylindrical :: "projection \<Rightarrow> coordinate \<Rightarrow> real \<times> real" where
  "project_cylindrical P c =
     (let lng = fst c;
          lat = 0 - snd c;
          lat = (if mercator (mixer P) then
                   (let lat = clamp lat (0 - latClamp P) (latClamp P);
                        latm = mercatorStretch lat
                    in lat + ((latm - lat) * mf P))
                 else lat);
          lng = lng - fst (co P);
          lat = lat - snd (co P);
          lng = (if soupcan (mixer P) then degrees (sin (radians lng)) else lng);
          xc = lng * pxlPerDgr P;
          yc = lat * pxlPerDgr P;
          xc = xc + fst (pt P);
          yc = yc + snd (pt P)
      in (xc, yc))"

text \<open>The rotation at the start of the orthographic block: the rotated longitude and
  the argument of the guarded arcsine that gives the rotated latitude.\<close>

definition project_rotate :: "projection \<Rightarrow> coordinate \<Rightarrow> real \<times> real" where
  "project_rotate P c =
     (let lam = radians (fst c);
          phi = radians (snd c);
          lam = lam + delta_lambda P;
          lam = (if lam > pi then lam - tau else if lam < - pi then lam + tau else lam);
          cosphi = cos phi;
          x = cos lam * cosphi;
          y = sin lam * cosphi;
          z = sin phi;
          kk = z * cos_delta_phi P + x * sin_delta_phi P;
          lam = atan2 (y * cos_delta_gamma P - kk * sin_delta_gamma P)
                      (x * cos_delta_phi P - z * sin_delta_phi P)
      in (lam, kk * cos_delta_gamma P + y * sin_delta_gamma P))"

text \<open>The orthographic block of \<open>project\<close>: the flag \<open>visible\<close> and, for a visible
  point, \<open>(xo, yo)\<close>. A latitude that is \<open>NaN\<close> fails the comparison of
  \<open>isPointVisible\<close>.\<close>

definition project_orthographic :: "projection \<Rightarrow> coordinate \<Rightarrow> bool \<times> (real \<times> real) option" where
  "project_orthographic P c =
     (case project_rotate P c of (lam, sinphi) \<Rightarrow>
        (case finite_val (asin (Fin sinphi)) of
           None \<Rightarrow> (False, None)
         | Some phi \<Rightarrow>
             (let visible = isPointVisible P lam phi
              in if visible then
                   (let coslam = cos lam;
                        cosphi = cos phi;
                        k1 = 1;
                        work2x = k1 * cosphi * sin lam;
                        work2y = k1 * sin phi;
                        work3x = work2x * k P + delta_x P;
                        work3y = delta_y P - work2y * k P
                    in (visible, Some (work3x, work3y)))
                 else (visible, None))))"

definition project :: "projection \<Rightarrow> coordinate \<Rightarrow> pixel" where
  "project P c =
     (let visible = True;
          cyl = (if cylindrical (mixer P) then Some (project_cylindrical P c) else None);
          (visible, orth) = (if orthographic (mixer P) then project_orthographic P c
                             else (visible, None));
          xy = orth;
          xy = (if cylindrical (mixer P) then cyl else xy)
      in (map_option fst xy, map_option snd xy, visible))"

text \<open>The cylindrical block of \<open>invert\<close>.\<close>

definition invert_cylindrical :: "projection \<Rightarrow> real \<Rightarrow> real \<Rightarrow> (real \<times> real \<times> bool) option" where
  "invert_cylindrical P pt0 pt1 =
     (let visible = isVisibleExtent P pt0 pt1;
          x = pt0 - fst (pt P);
          y = pt1 - snd (pt P)
      in if pxlPerDgr P = 0 then None
         else
           (let lng = x / pxlPerDgr P;
                lat = y / pxlPerDgr P;
                lng = lng + fst (co P);
                lat = lat + snd (co P);
                lat = mercatorShrink lat;
                lat = 0 - lat;
                lng = (if lng > 180 then - 180 + js_rem lng 180 else lng);
                lng = (if lng < - 180 then 180 + js_rem lng 180 else lng)
            in Some (lng, lat, visible)))"

text \<open>The orthographic block of \<open>invert\<close>. The first arcsine is the guarded one, the
  second is \<open>Math.asin\<close> itself, the third the guarded one again.\<close>

definition invert_orthographic :: "projection \<Rightarrow> real \<Rightarrow> real \<Rightarrow> (real \<times> real \<times> bool) option" where
  "invert_orthographic P pt0 pt1 =
     (let visible = isPointInCircle P pt0 pt1
      in if k P = 0 then None
         else
           (let x = (pt0 - delta_x P) / k P;
                y = (delta_y P - pt1) / k P;
                rho = sqrt (x * x + y * y)
            in case finite_val (asin (Fin rho)) of
                 None \<Rightarrow> None
               | Some c \<Rightarrow>
                   (let sinc = sin c;
                        cosc = cos c;
                        lam = atan2 (x * sinc) (rho * cosc)
                    in case finite_val (Math_asin (Fin (if rho = 0 then rho else y * sinc / rho))) of
                         None \<Rightarrow> None
                       | Some phi \<Rightarrow>
                           (let cosphi = cos phi;
                                xx = cos lam * cosphi;
                                yy = sin lam * cosphi;
                                zz = sin phi;
                                kk = zz * cos_delta_gamma P - yy * sin_delta_gamma P;
                                lam = atan2 (yy * cos_delta_gamma P + zz * sin_delta_gamma P)
                                            (xx * cos_delta_phi P + kk * sin_delta_phi P)
                            in case finite_val (asin (Fin (kk * cos_delta_phi P - xx * sin_delta_phi P))) of
                                 None \<Rightarrow> None
                               | Some phi \<Rightarrow>
                                   (let lam = lam - delta_lambda P;
                                        lam = (if lam > pi then lam - tau
                                               else if lam < - pi then lam + tau else lam);
                                        lng = degrees lam;
                                        lat = degrees phi
                                    in Some (lng, lat, visible))))))"

definition invert :: "projection \<Rightarrow> pixel \<Rightarrow> (real \<times> real \<times> bool) option" where
  "invert P p =
     (case p of
        (Some pt0, Some pt1, v) \<Rightarrow>
          (let r = None;
               r = (if cylindrical (mixer P) then invert_cylindrical P pt0 pt1 else r);
               r = (if orthographic (mixer P) then invert_orthographic P pt0 pt1 else r)
           in r)
      | _ \<Rightarrow> None)"

section \<open>geoiterator.js: class GeoIteratorClip\<close>

text \<open>
  The rendering sink \<open>ctx\<close> is an object outside the library. It is modelled by the
  size of its canvas and the list of the calls made on it, in order. A numeric argument
  is a \<open>jsnum\<close>; an \<open>undefined\<close> argument is recorded as \<open>NaN\<close>, which is what the sink
  converts it to.
\<close>

datatype cmd =
    ClearRect jsnum jsnum jsnum jsnum
  | BeginPath
  | MoveTo jsnum jsnum
  | LineTo jsnum jsnum
  | ArcTo jsnum jsnum jsnum jsnum jsnum
  | Arc jsnum jsnum jsnum jsnum jsnum bool
  | SetFillStyle "string option"
  | SetStrokeStyle "string option"
  | SetLineWidth "real option"
  | SetLineDash "real list"
  | Fill
  | Stroke

record context2d =
  canvas_width :: real
  canvas_height :: real
  calls :: "cmd list"

text \<open>A palette entry; an absent or falsy property is \<open>None\<close>.\<close>

record palette_entry =
  pat :: "string option"
  fill :: "string option"
  stroke :: "string option"
  pen :: "real option"
  dash :: "real list option"
  ptRadius :: "real option"

text \<open>
  The fields of a \<open>GeoIteratorClip\<close> object from \<open>collectionStart\<close> on, which assigns
  \<open>projection\<close>, \<open>ctx\<close>, \<open>palette\<close> and \<open>pass\<close>. The class never assigns \<open>paletteNdx\<close> (a
  subclass does), and the ring fields are assigned first by \<open>polygonStart\<close>: until then
  they are \<open>undefined\<close>, here \<open>None\<close> for a counter or a point and \<open>False\<close> for a flag.
  A counter that is \<open>undefined\<close> becomes \<open>NaN\<close> when incremented, which is \<open>None\<close> too.
\<close>

record geoiteratorclip = geoiterator +
  projection :: projection
  ctx :: context2d
  palette :: "palette_entry list"
  paletteNdx :: "nat option"
  pass :: int
  pointCount :: "nat option"
  visiblePointCount :: "nat option"
  firstVisiblePointInRing :: "pixel option"
  lastVisiblePointInRing :: "pixel option"
  lastVisiblePointBeforeGap :: "pixel option"
  firstVisiblePointAfterGap :: "pixel option"
  isGapAtStart :: bool
  isGapAtEnd :: bool
  previousPt :: "pixel option"

text \<open>A counter is truthy when it is a number other than zero; \<open>++\<close> leaves \<open>NaN\<close>.\<close>

fun truthy_count :: "nat option \<Rightarrow> bool" where
  "truthy_count None = False"
| "truthy_count (Some n) = (n \<noteq> 0)"

fun incr :: "nat option \<Rightarrow> nat option" where
  "incr None = None"
| "incr (Some n) = Some (n + 1)"

text \<open>An \<open>undefined\<close> number in arithmetic or as an argument of the sink.\<close>

fun num :: "real option \<Rightarrow> jsnum" where
  "num None = NaN"
| "num (Some x) = Fin x"

text \<open>\<open>p[0]\<close> and \<open>p[1]\<close> of a field that holds a point or \<open>false\<close>.\<close>

fun at0 :: "pixel option \<Rightarrow> jsnum" where
  "at0 None = NaN"
| "at0 (Some (x, y, v)) = num x"

fun at1 :: "pixel option \<Rightarrow> jsnum" where
  "at1 None = NaN"
| "at1 (Some (x, y, v)) = num y"

definition emit :: "cmd list \<Rightarrow> 'a geoiteratorclip_scheme \<Rightarrow> 'a geoiteratorclip_scheme" where
  "emit cs s = s\<lparr>ctx := (ctx s)\<lparr>calls := calls (ctx s) @ cs\<rparr>\<rparr>"

text \<open>\<open>extendToCircumference\<close> returns the object \<open>{\<theta>, pt}\<close>, \<open>findTangent\<close> a point.\<close>

definition extendToCircumference :: "jpoint \<Rightarrow> jpoint \<Rightarrow> jsnum \<Rightarrow> jsnum \<times> jpoint" where
  "extendToCircumference p ctr r =
     (let x1 = jsub (fst p) (fst ctr);
          y1 = jsub (snd p) (snd ctr);
          tantheta = jdiv y1 x1;
          theta = Math_atan tantheta;
          theta = (if jlt x1 (Fin 0) then jadd theta (Fin pi) else theta);
          x = jmul (Math_cos theta) r;
          y = jmul (Math_sin theta) r;
          x2 = jadd x (fst ctr);
          y2 = jadd y (snd ctr)
      in (theta, (x2, y2)))"

definition findTangent :: "jsnum \<times> jpoint \<Rightarrow> jsnum \<times> jpoint \<Rightarrow> jpoint \<Rightarrow> jsnum \<Rightarrow> jpoint" where
  "findTangent ob oc ctr r =
     (let dtheta = jsub (fst oc) (fst ob);
          theta3 = jadd (fst ob) (jdiv dtheta (Fin 2));
          r3 = jdiv r (Math_cos (jdiv dtheta (Fin 2)));
          x1 = jadd (fst ctr) (jmul r3 (Math_cos theta3));
          y1 = jadd (snd ctr) (jmul r3 (Math_sin theta3))
      in (x1, y1))"

text \<open>\<open>arcGap\<close>: the two calls it makes on the sink, a line to the first extended point
  and an arc to the second.\<close>

definition arcGap :: "pixel option \<Rightarrow> pixel option \<Rightarrow> real \<times> real \<Rightarrow> real \<Rightarrow> cmd list" where
  "arcGap a d ctr r =
     (let c = (Fin (fst ctr), Fin (snd ctr));
          ob = extendToCircumference (at0 a, at1 a) c (Fin r);
          oc = extendToCircumference (at0 d, at1 d) c (Fin r);
          e = findTangent ob oc c (Fin r)
      in [LineTo (fst (snd ob)) (snd (snd ob)),
          ArcTo (fst e) (snd e) (fst (snd oc)) (snd (snd oc)) (Fin r)])"

text \<open>\<open>drawPoint\<close> reads \<open>this.palette[this.paletteNdx]\<close>; reading \<open>ptRadius\<close> of an
  entry that does not exist throws.\<close>

definition drawPoint ::
  "pixel \<Rightarrow> within_arg \<Rightarrow> int \<Rightarrow> 'a geoiteratorclip_scheme \<Rightarrow> error + 'a geoiteratorclip_scheme"
where
  "drawPoint p w ndx s =
     (case paletteNdx s of
        None \<Rightarrow> Inl TypeError
      | Some n \<Rightarrow>
          if n < length (palette s) then
            (let e = palette s ! n;
                 x = at0 (Some p); y = at1 (Some p); r = num (ptRadius e)
             in Inr (emit [MoveTo (jsub (jadd x r) (Fin 1)) (jsub (jadd y r) (Fin 1)),
                           Arc x y r (Fin 0) (Fin (2 * pi)) False] s))
          else Inl TypeError)"

definition clip_polygonStart ::
  "ring \<Rightarrow> 'a geoiteratorclip_scheme \<Rightarrow> error + (jsval \<times> 'a geoiteratorclip_scheme)"
where
  "clip_polygonStart r s =
     Inr (JTrue, s\<lparr> pointCount := Some 0,
                    visiblePointCount := Some 0,
                    firstVisiblePointInRing := None,
                    lastVisiblePointInRing := None,
                    lastVisiblePointBeforeGap := None,
                    firstVisiblePointAfterGap := None,
                    isGapAtStart := False,
                    isGapAtEnd := False,
                    previousPt := None \<rparr>)"

definition clip_lineStart ::
  "ring \<Rightarrow> 'a geoiteratorclip_scheme \<Rightarrow> error + (jsval \<times> 'a geoiteratorclip_scheme)"
where
  "clip_lineStart r s = bindE (clip_polygonStart r s) (\<lambda>(b, s1). Inr (JTrue, s1))"

definition clip_polygonEnd ::
  "ring \<Rightarrow> 'a geoiteratorclip_scheme \<Rightarrow> error + 'a geoiteratorclip_scheme"
where
  "clip_polygonEnd r s =
     (let s1 = (if previousPt s = None then s\<lparr>isGapAtEnd := True\<rparr> else s)
      in if truthy_count (visiblePointCount s1) \<and> (isGapAtStart s1 \<or> isGapAtEnd s1) then
           Inr (emit (arcGap (lastVisiblePointInRing s1) (firstVisiblePointInRing s1)
                        (pt (projection s1)) (k (projection s1)) @
                      [LineTo (at0 (firstVisiblePointInRing s1)) (at1 (firstVisiblePointInRing s1))])
                  s1)
         else Inr s1)"

definition clip_doPoint ::
  "coordinate \<Rightarrow> within_arg \<Rightarrow> int \<Rightarrow> 'a geoiteratorclip_scheme \<Rightarrow>
     error + (jsval \<times> 'a geoiteratorclip_scheme)"
where
  "clip_doPoint c w ndx s =
     (let p = project (projection s) c
      in if snd (snd p) then
           (let s1 =
                  (if firstVisiblePointInRing s = None then s\<lparr>firstVisiblePointInRing := Some p\<rparr>
                   else if lastVisiblePointBeforeGap s \<noteq> None then
                     (let s' = s\<lparr>firstVisiblePointAfterGap := Some p\<rparr>;
                          s' = (if w = WPoly then
                                  emit (arcGap (lastVisiblePointBeforeGap s')
                                          (firstVisiblePointAfterGap s')
                                          (pt (projection s')) (k (projection s'))) s'
                                else if w = WLine then s'\<lparr>visiblePointCount := Some 0\<rparr>
                                else s')
                      in s'\<lparr>lastVisiblePointBeforeGap := None\<rparr>)
                   else s)
            in bindE (if w = WPoint \<or> forcePoint s1 then drawPoint p w ndx s1
                      else if truthy_count (visiblePointCount s1)
                           then Inr (emit [LineTo (at0 (Some p)) (at1 (Some p))] s1)
                           else Inr (emit [MoveTo (at0 (Some p)) (at1 (Some p))] s1)) (\<lambda>s2.
               Inr (JTrue, s2\<lparr> visiblePointCount := incr (visiblePointCount s2),
                               lastVisiblePointInRing := Some p,
                               previousPt := Some p,
                               pointCount := incr (pointCount s2) \<rparr>)))
         else
           (let s1 = (if \<not> truthy_count (pointCount s) then s\<lparr>isGapAtStart := True\<rparr> else s);
                s2 = (if lastVisiblePointBeforeGap s1 = None \<and> previousPt s1 \<noteq> None
                      then s1\<lparr>lastVisiblePointBeforeGap := previousPt s1\<rparr> else s1)
            in Inr (JTrue, s2\<lparr>pointCount := incr (pointCount s2)\<rparr>)))"

definition clip_geometryStart ::
  "geometry \<Rightarrow> 'a geoiteratorclip_scheme \<Rightarrow> error + (jsval \<times> 'a geoiteratorclip_scheme)"
where
  "clip_geometryStart g s = Inr (JTrue, s\<lparr>pass := pass s + 1\<rparr>)"

text \<open>\<open>this.projection.pt[0] += d\<close>, a rounded sum; \<open>pt[0] -= d\<close> is the rounded sum with
  \<open>-d\<close>.\<close>

definition shift_pt0 :: "real \<Rightarrow> 'a geoiteratorclip_scheme \<Rightarrow> 'a geoiteratorclip_scheme" where
  "shift_pt0 d s =
     s\<lparr>projection :=
         (projection s)\<lparr>pt := (fl (fst (pt (projection s)) + d), snd (pt (projection s)))\<rparr>\<rparr>"

text \<open>
  \<open>geometryEnd\<close> calls \<open>this.iterateGeometry\<close>, the traversal that called it. The
  argument \<open>again\<close> stands for that method; the results of the two calls are dropped.
\<close>

definition clip_geometryEnd ::
  "(geometry \<Rightarrow> 'a geoiteratorclip_scheme \<Rightarrow> error + (jsval \<times> 'a geoiteratorclip_scheme)) \<Rightarrow>
   geometry \<Rightarrow> 'a geoiteratorclip_scheme \<Rightarrow> error + 'a geoiteratorclip_scheme"
where
  "clip_geometryEnd again g s =
     bindE (if pass s = 1 \<and> stitch (mixer (projection s)) then
              (let width = fl (fst (snd (mx (projection s))) - fst (fst (mx (projection s))))
               in bindE (again g (shift_pt0 width s)) (\<lambda>(b1, s1).
                  bindE (again g (shift_pt0 (- fl (2 * width)) s1)) (\<lambda>(b2, s2).
                  Inr (shift_pt0 width s2))))
            else Inr s) (\<lambda>s3.
     Inr (s3\<lparr>pass := pass s3 - 1\<rparr>))"

text \<open>\<open>draw\<close> and the two collection hooks. The additional arguments of
  \<open>iterateCollection\<close> are the projection, the sink and the palette.\<close>

definition draw :: "nat \<Rightarrow> 'a geoiteratorclip_scheme \<Rightarrow> error + 'a geoiteratorclip_scheme" where
  "draw paletteIndex s =
     (if paletteIndex < length (palette s) then
        (let e = palette s ! paletteIndex
         in Inr (emit ([SetFillStyle (if pat e \<noteq> None then pat e else fill e),
                        SetStrokeStyle (stroke e),
                        SetLineWidth (pen e)] @
                       (case dash e of None \<Rightarrow> [] | Some ds \<Rightarrow> [SetLineDash ds]) @
                       (if fill e \<noteq> None then [Fill] else []) @
                       (if stroke e \<noteq> None then [Stroke] else [])) s))
      else Inl TypeError)"

type_synonym clip_args = "projection \<times> context2d \<times> palette_entry list"

definition clip_collectionStart ::
  "collection \<Rightarrow> clip_args \<Rightarrow> 'a geoiteratorclip_scheme \<Rightarrow>
     error + (jsval \<times> 'a geoiteratorclip_scheme)"
where
  "clip_collectionStart c add s =
     (case add of (proj, sink, pal) \<Rightarrow>
        (let s1 = s\<lparr>projection := proj, ctx := sink, palette := pal, pass := 0\<rparr>
         in Inr (JTrue,
                 emit [ClearRect (Fin 0) (Fin 0) (Fin (canvas_width (ctx s1)))
                         (Fin (canvas_height (ctx s1))),
                       BeginPath] s1)))"

definition clip_collectionEnd ::
  "collection \<Rightarrow> 'a geoiteratorclip_scheme \<Rightarrow> error + 'a geoiteratorclip_scheme"
where
  "clip_collectionEnd c s = draw 0 s"

text \<open>
  The method table of a \<open>GeoIteratorClip\<close> object: the inherited \<open>lineEnd\<close> and the
  overriding hooks. \<open>this.iterateGeometry\<close> inside \<open>geometryEnd\<close> is the traversal over
  the same table, so the table is defined by recursion on a bound \<open>n\<close> of the nesting
  depth of \<open>iterateGeometry\<close> calls: at depth \<open>0\<close> a further call yields \<open>NestingBound\<close>.
\<close>

definition clip_methods ::
  "(geometry \<Rightarrow> geoiteratorclip \<Rightarrow> error + (jsval \<times> geoiteratorclip)) \<Rightarrow>
   (geoiteratorclip, clip_args) hooks"
where
  "clip_methods again =
     \<lparr> collectionStart = clip_collectionStart,
       collectionEnd = clip_collectionEnd,
       geometryStart = clip_geometryStart,
       geometryEnd = clip_geometryEnd again,
       polygonStart = clip_polygonStart,
       polygonEnd = clip_polygonEnd,
       lineStart = clip_lineStart,
       lineEnd = lineEnd (GeoIterator_prototype :: (geoiteratorclip, clip_args) hooks),
       doPoint = clip_doPoint \<rparr>"

primrec GeoIteratorClip_prototype :: "nat \<Rightarrow> (geoiteratorclip, clip_args) hooks" where
  "GeoIteratorClip_prototype 0 = clip_methods (\<lambda>g s. Inl NestingBound)"
| "GeoIteratorClip_prototype (Suc n) =
     clip_methods (iterateGeometry (GeoIteratorClip_prototype n))"

section \<open>Example data\<close>

text \<open>A configured projection for the examples: a viewport of 360 by 360 pixels at
  zoom 0 without rotation, so that the globe has radius \<open>180 / pi\<close> and one degree is one
  pixel; the extents are the viewport.\<close>

definition example_projection :: "mixer \<Rightarrow> projection" where
  "example_projection m =
     \<lparr> co = (0, 0), pt = (180, 180), zoom = 0,
       delta_lambda = 0, delta_phi = 0, delta_gamma = 0,
       cos_delta_phi = 1, sin_delta_phi = 0, cos_delta_gamma = 1, sin_delta_gamma = 0,
       delta_x = 180, delta_y = 180, wd = 360, ht = 360,
       k = 180 / pi, pxlPerDgr = 1, uscale = 0, cr = clipAngle 90,
       cx = ((0, 0), (360, 360)), mx = ((0, 0), (360, 360)),
       latClamp = 85.05113, mix = 0, mixer = m, mf = 1, sf = 1 \<rparr>"

text \<open>
  A probe for the traversal: an iterator whose \<open>doPoint\<close> records the coordinate it is
  given and answers with \<open>dp\<close> of it, whose \<open>geometryStart\<close>, \<open>polygonStart\<close> and
  \<open>lineStart\<close> answer with the fixed values \<open>gs\<close>, \<open>ps\<close> and \<open>ls\<close>, and whose
  \<open>collectionStart\<close> returns \<open>true\<close>.
\<close>

record probe = geoiterator +
  seen :: "coordinate list"

definition probe_methods ::
  "jsval \<Rightarrow> jsval \<Rightarrow> jsval \<Rightarrow> (coordinate \<Rightarrow> jsval) \<Rightarrow> (probe, unit) hooks"
where
  "probe_methods gs ps ls dp =
     \<lparr> collectionStart = (\<lambda>c add s. Inr (JTrue, s)),
       collectionEnd = (\<lambda>c s. Inr s),
       geometryStart = (\<lambda>g s. Inr (gs, s)),
       geometryEnd = (\<lambda>g s. Inr s),
       polygonStart = (\<lambda>r s. Inr (ps, s)),
       polygonEnd = (\<lambda>r s. Inr s),
       lineStart = (\<lambda>r s. Inr (ls, s)),
       lineEnd = (\<lambda>r s. Inr s),
       doPoint = (\<lambda>c w ndx s. Inr (dp c, s\<lparr>seen := seen s @ [c]\<rparr>)) \<rparr>"

definition probe0 :: probe where
  "probe0 = geoiterator.extend GeoIterator \<lparr>seen = []\<rparr>"

text \<open>A line of three coordinates followed by a sibling geometry.\<close>

definition probe_line :: collection where
  "probe_line =
     \<lparr>name = ''c'', geometries = [LineString [(0, 0), (1, 1), (2, 2)], Point (5, 5)]\<rparr>"


text \<open>The clipping iterator before a traversal, with an empty palette and a canvas of
  360 by 360 pixels, and two projections: the globe (mixer preset 0) and the stitched
  mercator map (mixer presets 6 to 8).\<close>

definition example_clip :: "projection \<Rightarrow> geoiteratorclip" where
  "example_clip P =
     \<lparr> ret = JFalse, forcePoint = False, collection = None, geometry = None,
       polygon = None, line = None,
       projection = P,
       ctx = \<lparr>canvas_width = 360, canvas_height = 360, calls = []\<rparr>,
       palette = [], paletteNdx = None, pass = 0,
       pointCount = None, visiblePointCount = None,
       firstVisiblePointInRing = None, lastVisiblePointInRing = None,
       lastVisiblePointBeforeGap = None, firstVisiblePointAfterGap = None,
       isGapAtStart = False, isGapAtEnd = False, previousPt = None \<rparr>"

definition globe :: projection where
  "globe = example_projection (mixer_row True False False False False False)"

definition stitched :: projection where
  "stitched = example_projection (mixer_row False True True True True False)"

text \<open>The map under preset 4: cylindrical only, with \<open>soupcan\<close>.\<close>

definition soupcan_map :: projection where
  "soupcan_map = example_projection (mixer_row False True False True False True)"

text \<open>The stitched map in a window 1366 pixels wide, with a map extent whose width is
  the double next above 768.\<close>

definition drifting :: projection where
  "drifting = stitched\<lparr>pt := (683, 384), mx := ((0, 0), (768 + 2 powi (- 43), 768))\<rparr>"

section \<open>Notions for the statements about clipping\<close>

text \<open>A coordinate is visible when \<open>project\<close> returns a point whose third component is
  true. \<open>visible_pixels\<close> are the projected points of the visible coordinates of a ring,
  in order.\<close>

definition visible_at :: "projection \<Rightarrow> coordinate \<Rightarrow> bool" where
  "visible_at P c = snd (snd (project P c))"

definition visible_pixels :: "projection \<Rightarrow> coordinate list \<Rightarrow> pixel list" where
  "visible_pixels P cs = map (project P) (filter (visible_at P) cs)"

text \<open>The calls \<open>ctx.lineTo(pt[0],pt[1])\<close> and \<open>ctx.moveTo(pt[0],pt[1])\<close> of \<open>doPoint\<close>, and
  the test for a call of \<open>ctx.arcTo\<close>, which only \<open>arcGap\<close> makes.\<close>

definition lineTo :: "pixel \<Rightarrow> cmd" where
  "lineTo p = LineTo (at0 (Some p)) (at1 (Some p))"

definition moveTo :: "pixel \<Rightarrow> cmd" where
  "moveTo p = MoveTo (at0 (Some p)) (at1 (Some p))"

fun is_arcTo :: "cmd \<Rightarrow> bool" where
  "is_arcTo (ArcTo x1 y1 x2 y2 r) = True"
| "is_arcTo c = False"

text \<open>Three situations of the ring-local variables while \<open>doPoint\<close> walks along a ring:
  just after \<open>polygonStart\<close>; inside a run of visible points whose last point is \<open>q\<close>;
  and inside a run of invisible points that follows the visible point \<open>q\<close>.\<close>

definition ring_fresh :: "'a geoiteratorclip_scheme \<Rightarrow> bool" where
  "ring_fresh s = (\<not> forcePoint s \<and> firstVisiblePointInRing s = None \<and>
      lastVisiblePointBeforeGap s = None \<and> visiblePointCount s = Some 0 \<and>
      pointCount s = Some 0 \<and> previousPt s = None \<and> \<not> isGapAtStart s \<and> \<not> isGapAtEnd s)"

definition in_stretch :: "'a geoiteratorclip_scheme \<Rightarrow> pixel \<Rightarrow> bool" where
  "in_stretch s q = (\<not> forcePoint s \<and> firstVisiblePointInRing s \<noteq> None \<and>
      lastVisiblePointBeforeGap s = None \<and> truthy_count (visiblePointCount s) \<and>
      truthy_count (pointCount s) \<and> previousPt s = Some q \<and>
      \<not> isGapAtStart s \<and> \<not> isGapAtEnd s)"

definition in_gap :: "'a geoiteratorclip_scheme \<Rightarrow> pixel \<Rightarrow> bool" where
  "in_gap s q = (\<not> forcePoint s \<and> firstVisiblePointInRing s \<noteq> None \<and>
      lastVisiblePointBeforeGap s = Some q \<and> truthy_count (visiblePointCount s) \<and>
      truthy_count (pointCount s) \<and> previousPt s \<noteq> None \<and>
      \<not> isGapAtStart s \<and> \<not> isGapAtEnd s)"

text \<open>
  The direction of a coordinate after the three rotations of the orthographic block of
  \<open>project\<close>, as a vector: the first component points towards the viewer, the second to
  the right, the third upwards. \<open>unit_rotation\<close> says that the stored cosines and sines
  are those of two angles, as \<open>rotate\<close> sets them.
\<close>

definition rotated :: "projection \<Rightarrow> coordinate \<Rightarrow> real \<times> real \<times> real" where
  "rotated P c =
     (let lam = radians (fst c) + delta_lambda P;
          phi = radians (snd c);
          x = cos lam * cos phi;
          y = sin lam * cos phi;
          z = sin phi;
          kk = z * cos_delta_phi P + x * sin_delta_phi P
      in (x * cos_delta_phi P - z * sin_delta_phi P,
          y * cos_delta_gamma P - kk * sin_delta_gamma P,
          kk * cos_delta_gamma P + y * sin_delta_gamma P))"

definition unit_rotation :: "projection \<Rightarrow> bool" where
  "unit_rotation P =
     ((cos_delta_phi P)\<^sup>2 + (sin_delta_phi P)\<^sup>2 = 1 \<and>
      (cos_delta_gamma P)\<^sup>2 + (sin_delta_gamma P)\<^sup>2 = 1)"

text \<open>
  The geometry of the bridging arc. \<open>pixel_xy\<close> is the position of a pixel that has one;
  \<open>on_circle ctr r p\<close> is the point where the ray from the centre through \<open>p\<close> meets the
  circle of radius \<open>r\<close>; \<open>tangent_at ctr a e\<close> says that \<open>e\<close> lies on the tangent to the
  circle at its point \<open>a\<close>; two points are \<open>opposite\<close> when they lie on opposite rays from
  the centre. \<open>bridge_ok ctr r a d cmds\<close> says that \<open>cmds\<close> is a line-to to the point of the
  circle below \<open>a\<close> followed by an \<open>arcTo\<close> of radius \<open>r\<close> that ends at the point of the
  circle below \<open>d\<close> and whose control point lies on the tangents at both: the arc of the
  clip circle between the two points.
\<close>

definition pixel_xy :: "pixel \<Rightarrow> (real \<times> real) option" where
  "pixel_xy p = (case p of (Some x, Some y, v) \<Rightarrow> Some (x, y) | _ \<Rightarrow> None)"

definition dist_from :: "real \<times> real \<Rightarrow> real \<times> real \<Rightarrow> real" where
  "dist_from ctr p = sqrt ((fst p - fst ctr)\<^sup>2 + (snd p - snd ctr)\<^sup>2)"

definition on_circle :: "real \<times> real \<Rightarrow> real \<Rightarrow> real \<times> real \<Rightarrow> real \<times> real" where
  "on_circle ctr r p =
     (fst ctr + r * ((fst p - fst ctr) / dist_from ctr p),
      snd ctr + r * ((snd p - snd ctr) / dist_from ctr p))"

definition tangent_at :: "real \<times> real \<Rightarrow> real \<times> real \<Rightarrow> real \<times> real \<Rightarrow> bool" where
  "tangent_at ctr a e =
     ((fst e - fst a) * (fst a - fst ctr) + (snd e - snd a) * (snd a - snd ctr) = 0)"

definition opposite :: "real \<times> real \<Rightarrow> real \<times> real \<Rightarrow> real \<times> real \<Rightarrow> bool" where
  "opposite ctr p q =
     ((fst p - fst ctr) * (fst q - fst ctr) + (snd p - snd ctr) * (snd q - snd ctr) =
      - (dist_from ctr p * dist_from ctr q))"

fun bridge_ok :: "real \<times> real \<Rightarrow> real \<Rightarrow> real \<times> real \<Rightarrow> real \<times> real \<Rightarrow> cmd list \<Rightarrow> bool" where
  "bridge_ok ctr r a d [LineTo x1 y1, ArcTo ex ey x2 y2 rr] =
     (case (finite_val x1, finite_val y1, finite_val ex, finite_val ey, finite_val x2, finite_val y2) of
        (Some ax, Some ay, Some tx, Some ty, Some dx, Some dy) \<Rightarrow>
          (ax, ay) = on_circle ctr r a \<and> (dx, dy) = on_circle ctr r d \<and> rr = Fin r \<and>
          tangent_at ctr (ax, ay) (tx, ty) \<and> tangent_at ctr (dx, dy) (tx, ty)
      | _ \<Rightarrow> False)"
| "bridge_ok ctr r a d cmds = False"

text \<open>One pass over a geometry: the \<open>switch\<close> statement of \<open>iterateGeometry\<close>, entered
  with the three assignments of \<open>iterateGeometry\<close> made and \<open>this.pass\<close> at the given
  depth. No pass calls \<open>geometryEnd\<close>, so the prototype of nesting bound 0 serves.\<close>

definition clip_pass :: "geometry \<Rightarrow> int \<Rightarrow> geoiteratorclip \<Rightarrow> error + (jsval \<times> geoiteratorclip)" where
  "clip_pass g depth s =
     iterateGeometry_switch (GeoIteratorClip_prototype 0) g
       (s\<lparr>geometry := Some g, polygon := None, line := None, pass := depth\<rparr>)"

text \<open>The width of the map, \<open>this.projection.mx[1][0] - this.projection.mx[0][0]\<close>, and the
  value of \<open>pt[0]\<close> after the three assignments \<open>pt[0] += wd\<close>, \<open>pt[0] -= (2*wd)\<close>,
  \<open>pt[0] += wd\<close> of \<open>geometryEnd\<close>.\<close>

definition map_width :: "projection \<Rightarrow> real" where
  "map_width P = fl (fst (snd (mx P)) - fst (fst (mx P)))"

definition stitch_restored :: "real \<Rightarrow> real \<Rightarrow> real" where
  "stitch_restored p w = fl (fl (fl (p + w) - fl (2 * w)) + w)"

text \<open>\<open>drawPoint\<close> reads \<open>this.palette[this.paletteNdx]\<close> and throws when that entry does not
  exist. It is called for the coordinates of a \<open>Point\<close> or \<open>MultiPoint\<close>, and for every
  coordinate when \<open>forcePoint\<close> is set; \<open>can_draw\<close> and \<open>drawable\<close> say that no call of
  it can throw.\<close>

fun pointlike :: "geometry \<Rightarrow> bool" where
  "pointlike (Point c) = True"
| "pointlike (MultiPoint cs) = True"
| "pointlike g = False"

fun palette_has :: "palette_entry list \<Rightarrow> nat option \<Rightarrow> bool" where
  "palette_has pal None = False"
| "palette_has pal (Some n) = (n < length pal)"

definition can_draw :: "geometry \<Rightarrow> 'a geoiteratorclip_scheme \<Rightarrow> bool" where
  "can_draw g s =
     ((\<not> forcePoint s \<and> \<not> pointlike g) \<or> palette_has (palette s) (paletteNdx s))"

definition drawable :: "within_arg \<Rightarrow> 'a geoiteratorclip_scheme \<Rightarrow> bool" where
  "drawable w s =
     ((\<not> forcePoint s \<and> w \<noteq> WPoint) \<or> palette_has (palette s) (paletteNdx s))"

text \<open>What a pass leaves unchanged.\<close>

definition kept :: "'a geoiteratorclip_scheme \<Rightarrow> int \<times> projection \<times> bool \<times> palette_entry list \<times> nat option" where
  "kept s = (pass s, projection s, forcePoint s, palette s, paletteNdx s)"


section \<open>Properties of the rounding\<close>

lemma ulp_pos: "0 < ulp x"
  by (simp add: ulp_def)

lemma fl_0 [simp]: "fl 0 = 0"
  by (simp add: fl_def)

lemma powr_powi: "(2::real) powr real_of_int e = 2 powi e"
  by (rule powr_real_of_int') simp_all

lemma floor_log2_eq:
  assumes "2 powi e \<le> x" "x < 2 powi (e + 1)"
  shows "\<lfloor>log 2 x\<rfloor> = e"
proof -
  have "0 < (2::real) powi e" by simp
  with assms(1) have x: "0 < x" by linarith
  have "(2::real) powr (real_of_int e + 1) = 2 powi (e + 1)"
    using powr_powi[of "e + 1"] by simp
  then have "(2::real) powr real_of_int e \<le> x \<and> x < 2 powr (real_of_int e + 1)"
    using assms by (simp add: powr_powi)
  then show ?thesis using floor_log_eq_powr_iff[OF x, of 2 e] by simp
qed

lemma floor_log2_le:
  assumes "0 < x"
  shows "2 powi \<lfloor>log 2 x\<rfloor> \<le> x"
proof -
  have "(2::real) powr real_of_int \<lfloor>log 2 x\<rfloor> \<le> x"
    using floor_log_eq_powr_iff[OF assms, of 2 "\<lfloor>log 2 x\<rfloor>"] by simp
  then show ?thesis by (simp add: powr_powi)
qed

lemma binade_eq:
  assumes "2 powi e \<le> \<bar>x\<bar>" "\<bar>x\<bar> < 2 powi (e + 1)" "- 1022 \<le> e"
  shows "binade x = e"
  using floor_log2_eq[OF assms(1,2)] assms(3) by (simp add: binade_def)

lemma binade_ge: "- 1022 \<le> binade x"
  by (simp add: binade_def)

lemma binade_small:
  assumes "x \<noteq> 0" "\<bar>x\<bar> < 2 powi (- 1022)"
  shows "binade x = - 1022"
proof -
  have x: "0 < \<bar>x\<bar>" using assms(1) by simp
  have "\<lfloor>log 2 \<bar>x\<bar>\<rfloor> < - 1022"
  proof (rule ccontr)
    assume "\<not> \<lfloor>log 2 \<bar>x\<bar>\<rfloor> < - 1022"
    then have "(2::real) powi (- 1022) \<le> 2 powi \<lfloor>log 2 \<bar>x\<bar>\<rfloor>"
      by (intro power_int_increasing) simp_all
    also have "\<dots> \<le> \<bar>x\<bar>" using x by (rule floor_log2_le)
    finally show False using assms(2) by simp
  qed
  then show ?thesis by (simp add: binade_def)
qed

lemma round_even_int [simp]: "round_even (of_int m) = m"
  by (simp add: round_even_def)

lemma round_even_err: "\<bar>of_int (round_even t) - t\<bar> \<le> 1 / 2"
proof -
  have "of_int \<lfloor>t\<rfloor> \<le> t" "t < of_int \<lfloor>t\<rfloor> + 1" by linarith+
  then show ?thesis by (auto simp: round_even_def Let_def)
qed

lemma fl_exact:
  assumes "x / ulp x = of_int m"
  shows "fl x = x"
proof (cases "x = 0")
  case False
  have "ulp x * (x / ulp x) = x" using ulp_pos[of x] by simp
  then show ?thesis using False by (simp add: fl_def assms)
qed simp

lemma fl_err: "\<bar>fl x - x\<bar> \<le> ulp x / 2"
proof (cases "x = 0")
  case True
  then show ?thesis using ulp_pos[of x] by simp
next
  case False
  have x: "x = ulp x * (x / ulp x)" using ulp_pos[of x] by simp
  have "fl x - x = ulp x * (of_int (round_even (x / ulp x)) - x / ulp x)"
    using False ulp_pos[of x] by (simp add: fl_def algebra_simps)
  then have "\<bar>fl x - x\<bar> = ulp x * \<bar>of_int (round_even (x / ulp x)) - x / ulp x\<bar>"
    using ulp_pos[of x] by (simp add: abs_mult)
  also have "\<dots> \<le> ulp x * (1 / 2)"
    using round_even_err[of "x / ulp x"] ulp_pos[of x] by (intro mult_left_mono) simp_all
  finally show ?thesis by simp
qed


lemma round_even_small:
  assumes "\<bar>t\<bar> < 1 / 2"
  shows "round_even t = 0"
proof (cases "0 \<le> t")
  case True
  then have "\<lfloor>t\<rfloor> = 0" using assms by (intro floor_unique) auto
  then show ?thesis using assms True by (simp add: round_even_def)
next
  case False
  then have "\<lfloor>t\<rfloor> = - 1" using assms by (intro floor_unique) auto
  then show ?thesis using assms False by (simp add: round_even_def)
qed

lemma round_even_tie: "even f \<Longrightarrow> round_even (of_int f + 1 / 2) = f"
proof -
  have "\<lfloor>real_of_int f + 1 / 2\<rfloor> = f" by (intro floor_unique) auto
  then show "even f \<Longrightarrow> round_even (of_int f + 1 / 2) = f"
    by (simp add: round_even_def)
qed

lemma fl_small:
  assumes "\<bar>x\<bar> < 2 powi (- 1075)"
  shows "fl x = 0"
proof (cases "x = 0")
  case False
  have "(2::real) powi (- 1075) \<le> 2 powi (- 1022)" by (intro power_int_increasing) simp_all
  with assms have "\<bar>x\<bar> < 2 powi (- 1022)" by linarith
  from binade_small[OF False this] have u: "ulp x = 2 powi (- 1074)" by (simp add: ulp_def)
  have "(2::real) powi (- 1075) = 2 powi (- 1074) * (1 / 2)"
    using power_int_add[of "2::real" "- 1074" "- 1"] by simp
  with assms have "\<bar>x\<bar> < 2 powi (- 1074) * (1 / 2)" by simp
  then have "\<bar>x\<bar> / 2 powi (- 1074) < 1 / 2"
    by (subst pos_divide_less_eq) (simp_all add: mult.commute)
  then have "\<bar>x / ulp x\<bar> < 1 / 2" by (simp add: u)
  from round_even_small[OF this] show ?thesis by (simp add: fl_def)
qed simp

lemma ulp_le:
  assumes "x \<noteq> 0"
  shows "ulp x \<le> \<bar>x\<bar> * 2 powi (- 52) + 2 powi (- 1074)"
proof (cases "\<lfloor>log 2 \<bar>x\<bar>\<rfloor> \<le> - 1022")
  case True
  then have "ulp x = 2 powi (- 1074)" by (simp add: ulp_def binade_def max_def)
  then show ?thesis by simp
next
  case False
  then have b: "binade x = \<lfloor>log 2 \<bar>x\<bar>\<rfloor>" by (simp add: binade_def max_def)
  have "ulp x = 2 powi binade x * 2 powi (- 52)"
    unfolding ulp_def using power_int_add[of "2::real" "binade x" "- 52"] by simp
  also have "\<dots> \<le> \<bar>x\<bar> * 2 powi (- 52)"
    unfolding b using floor_log2_le[of "\<bar>x\<bar>"] assms by (intro mult_right_mono) simp_all
  finally show ?thesis by simp
qed

lemma fl_bound: "\<bar>fl x\<bar> \<le> 2 * \<bar>x\<bar> + 2 powi (- 1074)"
proof (cases "x = 0")
  case False
  have "\<bar>fl x\<bar> \<le> \<bar>x\<bar> + ulp x / 2" using fl_err[of x] by linarith
  also have "\<dots> \<le> \<bar>x\<bar> + (\<bar>x\<bar> * 2 powi (- 52) + 2 powi (- 1074)) / 2"
    using ulp_le[OF False] by simp
  also have "\<dots> \<le> \<bar>x\<bar> + (\<bar>x\<bar> * 1 + 2 powi (- 1074))"
  proof -
    have "(2::real) powi (- 52) \<le> 1" by (simp add: power_int_minus field_simps)
    then have "\<bar>x\<bar> * 2 powi (- 52) \<le> \<bar>x\<bar> * 1" by (intro mult_left_mono) simp_all
    moreover have "0 \<le> \<bar>x\<bar> * 2 powi (- 52) + 2 powi (- 1074)" by simp
    moreover have "A \<le> X \<Longrightarrow> 0 \<le> A + B \<Longrightarrow> X + (A + B) / 2 \<le> X + (X + B)"
      for A B X :: real by argo
    ultimately show ?thesis by simp
  qed
  finally show ?thesis by simp
qed simp

lemma fl_int:
  assumes "\<bar>m\<bar> < 2 ^ 53"
  shows "fl (of_int m) = of_int m"
proof (cases "m = 0")
  case False
  let ?x = "real_of_int m"
  let ?b = "\<lfloor>log 2 \<bar>?x\<bar>\<rfloor>"
  have x1: "1 \<le> \<bar>?x\<bar>" using False by (simp flip: of_int_abs)
  then have x0: "0 < \<bar>?x\<bar>" by linarith
  have "0 \<le> log 2 \<bar>?x\<bar>" using x1 by simp
  then have b0: "0 \<le> ?b" by simp
  then have bn: "binade ?x = ?b" by (simp add: binade_def)
  have "(2::real) powi ?b \<le> \<bar>?x\<bar>" using x0 by (rule floor_log2_le)
  also have "\<dots> < 2 powi 53" using assms by (simp flip: of_int_abs)
  finally have lt53: "(2::real) powi ?b < 2 powi 53" .
  have "?b < 53"
  proof (rule ccontr)
    assume "\<not> ?b < 53"
    then have "(2::real) powi 53 \<le> 2 powi ?b" by (intro power_int_increasing) simp_all
    with lt53 show False by simp
  qed
  then have b52: "?b \<le> 52" by simp
  have "?x / ulp ?x = ?x * 2 powi (52 - ?b)"
    unfolding ulp_def bn using power_int_minus[of "2::real" "?b - 52"] by (simp add: field_simps)
  also have "(2::real) powi (52 - ?b) = 2 ^ nat (52 - ?b)"
    using b52 by (simp add: power_int_def)
  also have "?x * 2 ^ nat (52 - ?b) = of_int (m * 2 ^ nat (52 - ?b))" by simp
  finally show ?thesis by (rule fl_exact)
qed simp

lemma fl_1 [simp]: "fl 1 = 1"
  using fl_int[of 1] by simp

lemma round_even_minus: "round_even (- t) = - round_even t"
proof (cases "t = of_int \<lfloor>t\<rfloor>")
  case True
  then obtain m where "t = of_int m" by blast
  then show ?thesis using round_even_int[of "- m"] by simp
next
  case False
  then have lt: "of_int \<lfloor>t\<rfloor> < t" "t < of_int \<lfloor>t\<rfloor> + 1" by linarith+
  have f: "\<lfloor>- t\<rfloor> = - \<lfloor>t\<rfloor> - 1"
  proof (rule floor_unique)
    show "of_int (- \<lfloor>t\<rfloor> - 1) \<le> - t"
      unfolding of_int_diff of_int_minus of_int_1 using lt(2) by linarith
    show "- t < of_int (- \<lfloor>t\<rfloor> - 1) + 1"
      unfolding of_int_diff of_int_minus of_int_1 using lt(1) by linarith
  qed
  show ?thesis
    unfolding round_even_def Let_def f using lt by auto
qed

lemma fl_minus: "fl (- x) = - fl x"
  by (simp add: fl_def ulp_def binade_def round_even_minus)

section \<open>Arithmetic on finite numbers\<close>

lemma jsub_Fin [simp]: "jsub (Fin x) (Fin y) = Fin (x - y)"
  by (simp add: jsub_def)

lemma jmul_Fin [simp]: "x \<noteq> 0 \<Longrightarrow> y \<noteq> 0 \<Longrightarrow> jmul (Fin x) (Fin y) = Fin (x * y)"
  by (simp add: jmul_def)

lemma jdiv_Fin [simp]: "x \<noteq> 0 \<Longrightarrow> y \<noteq> 0 \<Longrightarrow> jdiv (Fin x) (Fin y) = Fin (x / y)"
  by (simp add: jdiv_def)

lemma bindE_simps [simp]: "bindE (Inl e) f = Inl e" "bindE (Inr a) f = f a"
  by (simp_all add: bindE_def)

lemma radians_mono: "x < y \<Longrightarrow> radians x < radians y"
  unfolding radians_def using pi_gt_zero by (intro mult_strict_right_mono) auto

lemma radians_minus: "radians (- x) = - radians x"
  by (simp add: radians_def)

lemma radians_values: "radians 90 = pi / 2" "radians 180 = pi" "radians 360 = 2 * pi"
  by (simp_all add: radians_def)

lemma radians_abs_less_90:
  assumes "\<bar>x\<bar> < 90"
  shows "- (pi / 2) < radians x" "radians x < pi / 2"
proof -
  from assms have a: "x < 90" and b: "- 90 < x" by auto
  from radians_mono[OF a] show "radians x < pi / 2" by (simp add: radians_values)
  from radians_mono[OF b] show "- (pi / 2) < radians x"
    by (simp add: radians_values radians_minus)
qed

section \<open>The haversine distance\<close>

lemma fl_bound_powi:
  assumes "\<bar>x\<bar> \<le> 2 powi j" "- 1074 \<le> j"
  shows "\<bar>fl x\<bar> \<le> 2 powi (j + 2)"
proof -
  have "(2::real) powi (- 1074) \<le> 2 powi j" using assms(2) by (intro power_int_increasing) simp_all
  then have "\<bar>fl x\<bar> \<le> 2 * 2 powi j + 2 powi j" using fl_bound[of x] assms(1) by linarith
  also have "\<dots> \<le> 4 * 2 powi j" by simp
  also have "\<dots> = 2 powi (j + 2)" using power_int_add[of "2::real" j 2] by simp
  finally show ?thesis .
qed

lemma radian_factor_le_1: "\<bar>fl (Math_PI / 180)\<bar> \<le> 1"
proof -
  have "\<bar>Math_PI\<bar> \<le> 2 * pi + 2 powi (- 1074)"
    unfolding Math_PI_def using fl_bound[of pi] by simp
  moreover have "(2::real) powi (- 1074) \<le> 2 powi 0" by (intro power_int_increasing) simp_all
  ultimately have "\<bar>Math_PI\<bar> \<le> 9" using pi_less_4 by simp
  then have "\<bar>Math_PI / 180\<bar> \<le> 1 / 20" by simp
  moreover have "\<bar>fl (Math_PI / 180)\<bar> \<le> 2 * \<bar>Math_PI / 180\<bar> + 2 powi (- 1074)"
    by (rule fl_bound)
  moreover have "(2::real) powi (- 1074) \<le> 2 powi (- 1)" by (intro power_int_increasing) simp_all
  ultimately show ?thesis by (simp add: power_int_minus)
qed

lemma radians_fl_0 [simp]: "radians_fl 0 = 0"
  by (simp add: radians_fl_def)

lemma radians_fl_minus: "radians_fl (- x) = - radians_fl x"
  by (simp add: radians_fl_def fl_minus)

text \<open>Equal coordinates give the angle zero, and the two orders of the arguments give
  the same angle when the latitudes are equal or opposite: then the two cosines are the
  same double and the order of the two last multiplications does not matter.\<close>

lemma calcTheta_hav_same: "calcTheta_hav a a = 0"
  by (simp add: calcTheta_hav_def)

lemma calcTheta_of_hav0: "calcTheta_hav a b = 0 \<Longrightarrow> calcTheta a b = Some 0"
  by (simp add: calcTheta_def Math_atan2_def signed_def)

lemma half_sine_minus: "fl (sin (fl (fl (x - y) / 2))) = - fl (sin (fl (fl (y - x) / 2)))"
proof -
  have "fl (x - y) = - fl (y - x)" using fl_minus[of "y - x"] by simp
  then show ?thesis by (simp add: fl_minus)
qed

lemma calcTheta_hav_sym:
  assumes "snd a = snd b \<or> snd a = - snd b"
  shows "calcTheta_hav a b = calcTheta_hav b a"
proof -
  have c: "cos (radians_fl (snd a)) = cos (radians_fl (snd b))"
    using assms by (auto simp: radians_fl_minus)
  have s: "fl (sin (fl (fl (x - y) / 2))) * fl (sin (fl (fl (x - y) / 2))) =
           fl (sin (fl (fl (y - x) / 2))) * fl (sin (fl (fl (y - x) / 2)))" for x y :: real
    by (simp only: half_sine_minus[of x y] minus_mult_minus)
  show ?thesis
    unfolding calcTheta_hav_def Let_def c
    by (simp only: s[of "radians_fl (snd b)" "radians_fl (snd a)"]
        s[of "radians_fl (fst b)" "radians_fl (fst a)"])
qed

text \<open>Two different coordinates whose angle is zero: the square of the small sine
  underflows.\<close>

lemma tiny_square_vanishes:
  assumes "\<bar>x\<bar> \<le> 2 powi (- 600)"
  shows "fl (fl (sin (fl (fl (radians_fl x - 0) / 2))) * fl (sin (fl (fl (radians_fl x - 0) / 2)))) = 0"
proof -
  have "\<bar>x * fl (Math_PI / 180)\<bar> \<le> 2 powi (- 600) * 1"
    unfolding abs_mult using assms radian_factor_le_1 by (intro mult_mono) simp_all
  then have "\<bar>x * fl (Math_PI / 180)\<bar> \<le> 2 powi (- 600)" by simp
  from fl_bound_powi[OF this] have r: "\<bar>radians_fl x\<bar> \<le> 2 powi (- 598)"
    by (simp add: radians_fl_def)
  then have "\<bar>radians_fl x - 0\<bar> \<le> 2 powi (- 598)" by simp
  from fl_bound_powi[OF this] have d: "\<bar>fl (radians_fl x - 0)\<bar> \<le> 2 powi (- 596)" by simp
  have "\<bar>fl (radians_fl x - 0) / 2\<bar> \<le> 2 powi (- 596)" using d by simp
  from fl_bound_powi[OF this] have h: "\<bar>fl (fl (radians_fl x - 0) / 2)\<bar> \<le> 2 powi (- 594)" by simp
  define y where "y = fl (fl (radians_fl x - 0) / 2)"
  have "\<bar>sin y\<bar> \<le> \<bar>y\<bar>" by (rule abs_sin_x_le_abs_x)
  with h have "\<bar>sin y\<bar> \<le> 2 powi (- 594)" by (simp add: y_def)
  from fl_bound_powi[OF this] have s: "\<bar>fl (sin y)\<bar> \<le> 2 powi (- 592)" by simp
  have "\<bar>fl (sin y) * fl (sin y)\<bar> \<le> 2 powi (- 592) * 2 powi (- 592)"
    unfolding abs_mult using s by (intro mult_mono) simp_all
  also have "\<dots> = 2 powi (- 1184)" using power_int_add[of "2::real" "- 592" "- 592"] by simp
  also have "\<dots> < 2 powi (- 1075)" by (intro power_int_strict_increasing) simp_all
  finally have "fl (fl (sin y) * fl (sin y)) = 0" by (rule fl_small)
  then show ?thesis by (simp add: y_def)
qed




section \<open>The guarded arcsine\<close>

lemma asin_Fin:
  "asin (Fin x) =
     (if 1 < x then Fin (pi / 2) else if x < - 1 then Fin (- (pi / 2)) else Fin (arcsin x))"
  by (simp add: asin_def jgt_def halfpi_def)

lemma arcsin_range: "- 1 \<le> x \<Longrightarrow> x \<le> 1 \<Longrightarrow> - (pi / 2) \<le> arcsin x \<and> arcsin x \<le> pi / 2"
  using arcsin_bounded[of x] by simp

text \<open>
  Claim C9: for every real argument \<open>x\<close>, \<open>Projection.asin(x)\<close> returns \<open>pi/2\<close> when
  \<open>x > 1\<close>, \<open>-pi/2\<close> when \<open>x < -1\<close> and \<open>Math.asin(x)\<close> otherwise; its result is a number
  of the interval from \<open>-pi/2\<close> to \<open>pi/2\<close> and never \<open>NaN\<close>.
\<close>

theorem asin_clamped:
  "(1 < x \<longrightarrow> asin (Fin x) = Fin (pi / 2)) \<and>
   (x < - 1 \<longrightarrow> asin (Fin x) = Fin (- (pi / 2))) \<and>
   (- 1 \<le> x \<and> x \<le> 1 \<longrightarrow> asin (Fin x) = Math_asin (Fin x)) \<and>
   (\<exists>y. asin (Fin x) = Fin y \<and> - (pi / 2) \<le> y \<and> y \<le> pi / 2) \<and>
   asin (Fin x) \<noteq> NaN"
proof -
  have "\<exists>y. asin (Fin x) = Fin y \<and> - (pi / 2) \<le> y \<and> y \<le> pi / 2"
  proof (cases "1 < x")
    case True
    then show ?thesis
      using pi_ge_zero by (intro exI[of _ "pi / 2"]) (simp add: asin_Fin)
  next
    case False
    note a = this
    show ?thesis
    proof (cases "x < - 1")
      case True
      then show ?thesis
        using a pi_ge_zero by (intro exI[of _ "- (pi / 2)"]) (simp add: asin_Fin)
    next
      case False
      with a have "- 1 \<le> x" "x \<le> 1" by auto
      from arcsin_range[OF this] show ?thesis using a False by (simp add: asin_Fin)
    qed
  qed
  moreover have "- 1 \<le> x \<and> x \<le> 1 \<longrightarrow> asin (Fin x) = Math_asin (Fin x)"
    by (auto simp: asin_Fin)
  ultimately show ?thesis by (auto simp: asin_Fin)
qed

theorem asin_clamped_witness:
  "asin (Fin 2) = Fin (pi / 2) \<and> asin (Fin (- 2)) = Fin (- (pi / 2)) \<and>
   asin (Fin (1 / 2)) = Math_asin (Fin (1 / 2)) \<and> asin (Fin 2) \<noteq> NaN"
  using asin_clamped[of 2] asin_clamped[of "- 2"] asin_clamped[of "1 / 2"] by simp

section \<open>The distance from a point to a line segment\<close>

lemmas planar_defs = distancePointToLineSeg_def distancePointToLine_def pointInRect_def
  length_AB_def Math_pow2_def Math_min_def jgt_def intersection_def lineGivenTwoPoints_def
  lineGivenSlopeAndOnePoint_def slopePerpendicular_def jpt_def jsub_def jmul_def jdiv_def
  zero_of_def inf_of_def Let_def

text \<open>The example of claim C8: for the horizontal segment from \<open>(0,0)\<close> to \<open>(10,0)\<close> and
  the point \<open>(15,5)\<close> the result is the distance to the nearer end point.\<close>

lemma distancePointToLineSeg_example:
  "distancePointToLineSeg (jpt 15 5) (jpt 0 0) (jpt 10 0) = Fin (sqrt 50)"
  by (simp add: planar_defs)

lemma jlt_asym: "jlt a b \<Longrightarrow> \<not> jlt b a"
  by (cases a; cases b) auto

lemma pointInRect_degenerate:
  "fst A = fst B \<or> snd A = snd B \<Longrightarrow> \<not> pointInRect C A B"
  by (auto simp: pointInRect_def Let_def jgt_def dest: jlt_asym)

text \<open>For a vertical or horizontal segment, and for a segment that is a single point,
  the containment test fails whatever the intersection is, also when it is \<open>NaN\<close> or
  infinite: the result is the distance to the nearer end point.\<close>

lemma distancePointToLineSeg_degenerate:
  "fst A = fst B \<or> snd A = snd B \<Longrightarrow>
   distancePointToLineSeg E A B = Math_min (length_AB A E) (length_AB B E)"
  by (simp add: distancePointToLineSeg_def Let_def pointInRect_degenerate)

text \<open>
  Claim C8 says that \<open>distancePointToLineSeg(E, A, B)\<close> returns the perpendicular
  distance when the foot of the perpendicular lies strictly between \<open>A\<close> and \<open>B\<close>. The
  code decides this by \<open>pointInRect(D, A, B)\<close>, which holds only when \<open>A\<close> is the upper
  left and \<open>B\<close> the lower right corner. For \<open>A = (0,0)\<close>, \<open>B = (10,10)\<close>, \<open>E = (10,0)\<close> the
  foot \<open>D = (5,5)\<close> is the midpoint of the segment, the test fails, and the result is the
  end point distance \<open>10\<close> instead of the perpendicular distance \<open>100 / sqrt 200\<close>.
\<close>

theorem distancePointToLineSeg_foot_between:
  "intersection (jpt 0 0) (jpt 10 10) (jpt 10 0) = (Fin 5, Fin 5) \<and>
   \<not> pointInRect (Fin 5, Fin 5) (jpt 0 0) (jpt 10 10) \<and>
   distancePointToLineSeg (jpt 10 0) (jpt 0 0) (jpt 10 10) = Fin 10 \<and>
   distancePointToLine (jpt 10 0) (jpt 0 0) (jpt 10 10) = Fin (100 / sqrt 200) \<and>
   100 / sqrt 200 < (10::real)"
proof -
  have "sqrt 200 > 10" by (rule real_less_rsqrt) simp
  then have "10 * 10 < 10 * sqrt 200" by (intro mult_strict_left_mono) auto
  then have "100 < 10 * sqrt 200" by simp
  moreover have "0 < sqrt 200" by simp
  ultimately have "100 / sqrt 200 < (10::real)" by (simp add: pos_divide_less_eq)
  moreover have "intersection (jpt 0 0) (jpt 10 10) (jpt 10 0) = (Fin 5, Fin 5)"
    by (simp add: planar_defs)
  moreover have "\<not> pointInRect (Fin 5, Fin 5) (jpt 0 0) (jpt 10 10)"
    by (simp add: planar_defs)
  moreover have "distancePointToLineSeg (jpt 10 0) (jpt 0 0) (jpt 10 10) = Fin 10"
    by (simp add: planar_defs)
  moreover have "distancePointToLine (jpt 10 0) (jpt 0 0) (jpt 10 10) = Fin (100 / sqrt 200)"
    by (simp add: planar_defs)
  ultimately show ?thesis by blast
qed

text \<open>The same happens in the configuration of the claim's own example: above the
  middle of the horizontal segment the result is not the perpendicular distance 5.\<close>

lemma distancePointToLineSeg_horizontal:
  "distancePointToLineSeg (jpt 5 5) (jpt 0 0) (jpt 10 0) = Fin (sqrt 50)"
  by (simp add: planar_defs)

section \<open>Visibility on the cylindrical path\<close>

text \<open>
  Claim C10: under a mixer preset with \<open>cylindrical = true\<close> and \<open>orthographic = false\<close>
  the result of \<open>project\<close> is visible for every coordinate (it is the point of the
  cylindrical block); an invisible result needs the orthographic block; the rectangle
  extent is tested by \<open>invert\<close>, whose flag is \<open>isVisibleExtent\<close> of the pixel.
\<close>

theorem project_cylindrical_only_visible:
  "(\<not> orthographic (mixer P) \<longrightarrow> snd (snd (project P c))) \<and>
   (\<not> snd (snd (project P c)) \<longrightarrow> orthographic (mixer P)) \<and>
   (cylindrical (mixer P) \<and> \<not> orthographic (mixer P) \<longrightarrow>
      project P c =
        (Some (fst (project_cylindrical P c)), Some (snd (project_cylindrical P c)), True)) \<and>
   (cylindrical (mixer P) \<and> \<not> orthographic (mixer P) \<and> pxlPerDgr P \<noteq> 0 \<longrightarrow>
      (\<exists>lng lat. invert P (Some x, Some y, v) = Some (lng, lat, isVisibleExtent P x y)))"
  by (auto simp: project_def invert_def invert_cylindrical_def Let_def)

theorem project_cylindrical_only_visible_witness:
  "voyc_mixer 4 = Some (mixer_row False True False True False True) \<and>
   cylindrical (mixer (example_projection (mixer_row False True False True False True))) \<and>
   \<not> orthographic (mixer (example_projection (mixer_row False True False True False True))) \<and>
   pxlPerDgr (example_projection (mixer_row False True False True False True)) \<noteq> 0 \<and>
   snd (snd (project (example_projection (mixer_row False True False True False True)) (10, 20))) \<and>
   (\<exists>lng lat.
      invert (example_projection (mixer_row False True False True False True))
        (Some 190, Some 160, True) =
      Some (lng, lat,
        isVisibleExtent (example_projection (mixer_row False True False True False True)) 190 160))"
  using project_cylindrical_only_visible
    [of "example_projection (mixer_row False True False True False True)" "(10, 20)" 190 160 True]
  by (simp add: example_projection_def mixer_row_def voyc_mixer_def)

section \<open>The traversal of the base class\<close>

text \<open>
  Claim C3 says that the base \<open>GeoIterator\<close> with no hook overridden invokes \<open>doPoint\<close> on
  every coordinate. The \<open>collectionStart\<close> of the base class returns \<open>undefined\<close>, so the
  guard of \<open>iterateCollection\<close> fails: with that \<open>collectionStart\<close>, whatever the other
  hooks are, no geometry is visited and no other hook runs. The result is \<open>this.ret\<close>,
  and the only fields changed are \<open>ret\<close> and \<open>collection\<close>.
\<close>

theorem base_collectionStart_stops_traversal:
  "iterateCollection (h\<lparr>collectionStart := collectionStart GeoIterator_prototype\<rparr>) c add s =
     Inr (JFalse, s\<lparr>ret := JFalse, collection := Some c\<rparr>)"
  by (simp add: iterateCollection_def GeoIterator_prototype_def)

text \<open>The base class on a collection of one point, and the counting subclass, which
  inherits the defect, on the same collection: it counts no point.\<close>

lemma base_visits_nothing:
  "iterateCollection GeoIterator_prototype \<lparr>name = ''c'', geometries = [Point (1, 2)]\<rparr> ()
     GeoIterator =
   Inr (JFalse, GeoIterator\<lparr>collection := Some \<lparr>name = ''c'', geometries = [Point (1, 2)]\<rparr>\<rparr>)"
  by (simp add: iterateCollection_def GeoIterator_prototype_def GeoIterator_def)

lemma count_counts_nothing:
  "iterateCollection GeoIteratorCount_prototype \<lparr>name = ''c'', geometries = [Point (1, 2)]\<rparr> ()
     (geoiterator.extend GeoIterator
        \<lparr>points = 7, lines = 7, polygons = 7, geometry_count = 7\<rparr>) =
   Inr (JFalse,
        geoiterator.extend
          (GeoIterator\<lparr>collection := Some \<lparr>name = ''c'', geometries = [Point (1, 2)]\<rparr>\<rparr>)
          \<lparr>points = 0, lines = 0, polygons = 0, geometry_count = 0\<rparr>)"
  by (simp add: iterateCollection_def GeoIteratorCount_prototype_def GeoIterator_def
      geoiterator.extend_def)

section \<open>Abort and skip in the traversal\<close>

lemma whileBoo_falsy: "\<not> truthy b \<Longrightarrow> whileBoo f xs i b s = Inr (b, s)"
  by (cases xs) simp_all

lemma whileBoo_append:
  "whileBoo f (pre @ post) i b s =
     (case whileBoo f pre i b s of
        Inl e \<Rightarrow> Inl e
      | Inr (b1, s1) \<Rightarrow> whileBoo f post (i + int (length pre)) b1 s1)"
proof (induction pre arbitrary: i b s)
  case Nil
  then show ?case by simp
next
  case (Cons x pre)
  have idx: "i + 1 + int (length pre) = i + int (length (x # pre))" by simp
  show ?case
  proof (cases "truthy b")
    case False
    then show ?thesis by (simp add: whileBoo_falsy)
  next
    case True
    show ?thesis
    proof (cases "f x (i + 1) s")
      case (Inl e)
      with True show ?thesis by simp
    next
      case (Inr r)
      obtain b' s' where r: "r = (b', s')" by (cases r)
      have "whileBoo f ((x # pre) @ post) i b s = whileBoo f (pre @ post) (i + 1) b' s'"
        using True Inr r by simp
      also have "\<dots> = (case whileBoo f pre (i + 1) b' s' of
                          Inl e \<Rightarrow> Inl e
                        | Inr (b1, s1) \<Rightarrow> whileBoo f post (i + 1 + int (length pre)) b1 s1)"
        by (rule Cons.IH)
      also have "whileBoo f pre (i + 1) b' s' = whileBoo f (x # pre) i b s"
        using True Inr r by simp
      finally show ?thesis unfolding idx .
    qed
  qed
qed

lemma whileBoo_stop:
  assumes "whileBoo f pre i JTrue s = Inr (JTrue, s1)"
    and "f x (i + int (length pre) + 1) s1 = Inr (b, s2)" and "\<not> truthy b"
  shows "whileBoo f (pre @ x # post) i JTrue s = Inr (b, s2)"
  using assms by (simp add: whileBoo_append whileBoo_falsy)

lemma whileBoo_continue:
  assumes "whileBoo f pre i JTrue s = Inr (JTrue, s1)"
    and "f x (i + int (length pre) + 1) s1 = Inr (JTrue, s2)"
  shows "whileBoo f (pre @ x # post) i JTrue s = whileBoo f post (i + int (length pre) + 1) JTrue s2"
  using assms by (simp add: whileBoo_append)


text \<open>
  By a slip \<open>iterateLine\<close> declares its result inside the \<open>if\<close>, so when \<open>lineStart\<close>
  returns the skip signal the result is \<open>undefined\<close>, which ends every enclosing loop.
  The line is skipped and so is the geometry after it, unlike in \<open>iteratePolygon\<close>.
\<close>

lemma lineStart_skip_ends_traversal:
  "(case iterateCollection (probe_methods JTrue JTrue JZero (\<lambda>c. JTrue))
           \<lparr>name = ''c'', geometries = [LineString [(0, 0), (1, 0)], Point (5, 5)]\<rparr> () probe0 of
      Inl e \<Rightarrow> False
    | Inr (r, s) \<Rightarrow> seen s = [] \<and> geometry s = Some (LineString [(0, 0), (1, 0)]))"
  by (simp add: iterateCollection_def iterateGeometry_def iterateGeometry_switch_def
      iterateLine_def probe_methods_def probe0_def geoiterator.extend_def GeoIterator_def)

text \<open>The engine passes a falsy result upwards, level by level.\<close>

lemma doPoint_false_ends_line:
  assumes l1: "lineStart h (pre @ x # post) (s\<lparr>line := Some (pre @ x # post)\<rparr>) = Inr (JTrue, s3)"
    and p1: "whileBoo (\<lambda>c i. doPoint h c WLine i) pre (- 1) JTrue s3 = Inr (JTrue, s4)"
    and p2: "doPoint h x WLine (int (length pre)) s4 = Inr (b, s5)" and nb: "\<not> truthy b"
    and e1: "lineEnd h (pre @ x # post) s5 = Inr s6"
  shows "iterateLine h (pre @ x # post) s = Inr (b, s6)"
proof -
  have "doPoint h x WLine (- 1 + int (length pre) + 1) s4 = Inr (b, s5)" using p2 by simp
  from whileBoo_stop[where f="\<lambda>c i. doPoint h c WLine i", OF p1 this nb]
  have "whileBoo (\<lambda>c i. doPoint h c WLine i) (pre @ x # post) (- 1) JTrue s3 = Inr (b, s5)" .
  then show ?thesis using l1 e1 by (simp add: iterateLine_def)
qed

lemma falsy_geometry_ends_collection:
  assumes cs: "collectionStart h c add (s\<lparr>ret := JFalse, collection := Some c\<rparr>) = Inr (JTrue, s0)"
    and gs: "geometries c = gpre @ g # gpost"
    and g1: "whileBoo (\<lambda>g i. iterateGeometry h g) gpre (- 1) JTrue s0 = Inr (JTrue, s1)"
    and g2: "iterateGeometry h g s1 = Inr (b, s7)" and nb: "\<not> truthy b"
    and e3: "collectionEnd h c s7 = Inr s8"
  shows "iterateCollection h c add s = Inr (ret s8, s8)"
proof -
  from whileBoo_stop[where f="\<lambda>g i. iterateGeometry h g", OF g1 g2 nb]
  have "whileBoo (\<lambda>g i. iterateGeometry h g) (geometries c) (- 1) JTrue s0 = Inr (b, s7)"
    using gs by simp
  then show ?thesis using cs e3 by (simp add: iterateCollection_def)
qed

lemma doPoint_falsy_ends_ring:
  assumes l1: "polygonStart h (pre @ x # post) (s\<lparr>polygon := Some (Rings (pre @ x # post) others)\<rparr>) =
      Inr (JTrue, s3)"
    and p1: "whileBoo (\<lambda>c i. doPoint h c WPoly i) pre (- 1) JTrue s3 = Inr (JTrue, s4)"
    and p2: "doPoint h x WPoly (int (length pre)) s4 = Inr (b, s5)" and nb: "\<not> truthy b"
    and e1: "polygonEnd h (pre @ x # post) s5 = Inr s6"
  shows "iteratePolygon h (Rings (pre @ x # post) others) s = Inr (b, s6)"
proof -
  have "doPoint h x WPoly (- 1 + int (length pre) + 1) s4 = Inr (b, s5)" using p2 by simp
  from whileBoo_stop[where f="\<lambda>c i. doPoint h c WPoly i", OF p1 this nb]
  have "whileBoo (\<lambda>c i. doPoint h c WPoly i) (pre @ x # post) (- 1) JTrue s3 = Inr (b, s5)" .
  then show ?thesis using l1 e1 by (simp add: iteratePolygon_def)
qed

lemma falsy_point_ends_multipoint:
  assumes p1: "whileBoo (\<lambda>c i. doPoint h c WPoint i) pre (- 1) JTrue s = Inr (JTrue, s1)"
    and p2: "doPoint h x WPoint (int (length pre)) s1 = Inr (b, s2)" and nb: "\<not> truthy b"
  shows "iterateGeometry_switch h (MultiPoint (pre @ x # post)) s = Inr (b, s2)"
proof -
  have "doPoint h x WPoint (- 1 + int (length pre) + 1) s1 = Inr (b, s2)" using p2 by simp
  from whileBoo_stop[where f="\<lambda>c i. doPoint h c WPoint i", OF p1 this nb]
  show ?thesis by (simp add: iterateGeometry_switch_def)
qed

lemma falsy_line_ends_multiline:
  assumes p1: "whileBoo (\<lambda>l i. iterateLine h l) pre (- 1) JTrue s = Inr (JTrue, s1)"
    and p2: "iterateLine h x s1 = Inr (b, s2)" and nb: "\<not> truthy b"
  shows "iterateGeometry_switch h (MultiLineString (pre @ x # post)) s = Inr (b, s2)"
  using whileBoo_stop[where f="\<lambda>l i. iterateLine h l", OF p1 p2 nb]
  by (simp add: iterateGeometry_switch_def)

lemma falsy_polygon_ends_multipolygon:
  assumes p1: "whileBoo (\<lambda>p i. iteratePolygon h p) pre (- 1) JTrue s = Inr (JTrue, s1)"
    and p2: "iteratePolygon h x s1 = Inr (b, s2)" and nb: "\<not> truthy b"
  shows "iterateGeometry_switch h (MultiPolygon (pre @ x # post)) s = Inr (b, s2)"
  using whileBoo_stop[where f="\<lambda>p i. iteratePolygon h p", OF p1 p2 nb]
  by (simp add: iterateGeometry_switch_def)

lemma switch_result_is_geometry_result:
  assumes "geometryStart h g (s\<lparr>geometry := Some g, polygon := None, line := None\<rparr>) = Inr (JTrue, s2)"
    and "iterateGeometry_switch h g s2 = Inr (b, s3)"
    and "geometryEnd h g s3 = Inr s4"
  shows "iterateGeometry h g s = Inr (b, s4)"
  using assms by (simp add: iterateGeometry_def)

lemma lineStart_falsy_undefined:
  assumes "lineStart h l (s\<lparr>line := Some l\<rparr>) = Inr (st, s2)" and "\<not> truthy st"
  shows "iterateLine h l s = bindE (lineEnd h l s2) (\<lambda>s4. Inr (JUndefined, s4))"
  using assms by (simp add: iterateLine_def)

text \<open>
  Claim C2, as stated, fails in three places. A \<open>false\<close> from \<open>polygonStart\<close> does not end
  the traversal: \<open>iteratePolygon\<close> sets its result to \<open>true\<close> before it asks
  \<open>polygonStart\<close>, so only the coordinates of the ring are skipped and the point of the
  geometry after it is visited. The skip signal from \<open>lineStart\<close> and the skip signal from
  \<open>doPoint\<close> do end the traversal: both are falsy values that the enclosing loops see
  as their flag, so the geometry after the line is not visited.
\<close>

lemma polygonStart_false_continues:
  "(case iterateCollection (probe_methods JTrue JFalse JTrue (\<lambda>c. JTrue))
           \<lparr>name = ''c'',
            geometries = [Polygon (Rings [(0, 0), (1, 0), (0, 0)] []), Point (5, 5)]\<rparr> () probe0 of
      Inl e \<Rightarrow> False
    | Inr (r, s) \<Rightarrow> seen s = [(5, 5)] \<and> geometry s = Some (Point (5, 5)))"
  by (simp add: iterateCollection_def iterateGeometry_def iterateGeometry_switch_def
      iteratePolygon_def probe_methods_def probe0_def geoiterator.extend_def GeoIterator_def)

lemma doPoint_skip_ends_traversal:
  "(case iterateCollection (probe_methods JTrue JTrue JTrue (\<lambda>c. if c = (1, 1) then JZero else JTrue))
           probe_line () probe0 of
      Inl e \<Rightarrow> False
    | Inr (r, s) \<Rightarrow> seen s = [(0, 0), (1, 1)] \<and> geometry s = Some (LineString [(0, 0), (1, 1), (2, 2)]))"
  by (simp add: iterateCollection_def iterateGeometry_def iterateGeometry_switch_def
      iterateLine_def probe_methods_def probe0_def probe_line_def geoiterator.extend_def
      GeoIterator_def)



text \<open>A falsy value from \<open>doPoint\<close> in a line ends the collection.\<close>

lemma doPoint_falsy_ends_collection:
  assumes cs: "collectionStart h c add (s\<lparr>ret := JFalse, collection := Some c\<rparr>) = Inr (JTrue, s0)"
    and gs: "geometries c = gpre @ LineString (pre @ x # post) # gpost"
    and g1: "whileBoo (\<lambda>g i. iterateGeometry h g) gpre (- 1) JTrue s0 = Inr (JTrue, s1)"
    and g2: "geometryStart h (LineString (pre @ x # post))
      (s1\<lparr>geometry := Some (LineString (pre @ x # post)), polygon := None, line := None\<rparr>) =
      Inr (JTrue, s2)"
    and l1: "lineStart h (pre @ x # post) (s2\<lparr>line := Some (pre @ x # post)\<rparr>) = Inr (JTrue, s3)"
    and p1: "whileBoo (\<lambda>c i. doPoint h c WLine i) pre (- 1) JTrue s3 = Inr (JTrue, s4)"
    and p2: "doPoint h x WLine (int (length pre)) s4 = Inr (b, s5)" and nb: "\<not> truthy b"
    and e1: "lineEnd h (pre @ x # post) s5 = Inr s6"
    and e2: "geometryEnd h (LineString (pre @ x # post)) s6 = Inr s7"
    and e3: "collectionEnd h c s7 = Inr s8"
  shows "iterateCollection h c add s = Inr (ret s8, s8)"
proof -
  have "iterateLine h (pre @ x # post) s2 = Inr (b, s6)"
    using l1 p1 p2 nb e1 by (rule doPoint_false_ends_line)
  then have "iterateGeometry_switch h (LineString (pre @ x # post)) s2 = Inr (b, s6)"
    by (simp add: iterateGeometry_switch_def)
  with g2 have "iterateGeometry h (LineString (pre @ x # post)) s1 = Inr (b, s7)"
    using e2 by (rule switch_result_is_geometry_result)
  with cs gs g1 show ?thesis using nb e3 by (rule falsy_geometry_ends_collection)
qed

lemma geometryStart_skip_continues:
  assumes "geometryStart h g (u\<lparr>geometry := Some g, polygon := None, line := None\<rparr>) = Inr (JZero, u2)"
  shows "iterateGeometry h g u = Inr (JTrue, u2) \<and>
        whileBoo (\<lambda>g i. iterateGeometry h g) (g # gs) j JTrue u =
        whileBoo (\<lambda>g i. iterateGeometry h g) gs (j + 1) JTrue u2"
proof -
  have z: "iterateGeometry h g u = Inr (JTrue, u2)" using assms by (simp add: iterateGeometry_def)
  then show ?thesis by simp
qed

lemma geometryStart_false_aborts:
  assumes "geometryStart h g (u\<lparr>geometry := Some g, polygon := None, line := None\<rparr>) = Inr (JFalse, u2)"
  shows "iterateGeometry h g u = Inr (JFalse, u2)"
  using assms by (simp add: iterateGeometry_def)

lemma polygonStart_falsy_skips:
  assumes "polygonStart h r (v\<lparr>polygon := Some (Rings r others)\<rparr>) = Inr (st, v2)" "\<not> truthy st"
  shows "iteratePolygon h (Rings r others) v = bindE (polygonEnd h r v2) (\<lambda>v4. Inr (JTrue, v4))"
  using assms by (simp add: iteratePolygon_def)




section \<open>Gaps in a clipped ring\<close>

lemma truthy_incr: "truthy_count x \<Longrightarrow> truthy_count (incr x)"
  by (cases x) auto

lemma step_fresh_visible:
  assumes "ring_fresh s" "visible_at (projection s) c" "w \<noteq> WPoint"
  shows "\<exists>s'. clip_doPoint c w i s = Inr (JTrue, s') \<and> in_stretch s' (project (projection s) c) \<and>
           projection s' = projection s \<and>
           calls (ctx s') = calls (ctx s) @ [moveTo (project (projection s) c)]"
  using assms
  by (auto simp add: clip_doPoint_def ring_fresh_def in_stretch_def visible_at_def Let_def emit_def moveTo_def simp del: split_paired_Ex)

lemma step_stretch_visible:
  assumes "in_stretch s q" "visible_at (projection s) c" "w \<noteq> WPoint"
  shows "\<exists>s'. clip_doPoint c w i s = Inr (JTrue, s') \<and> in_stretch s' (project (projection s) c) \<and>
           projection s' = projection s \<and>
           calls (ctx s') = calls (ctx s) @ [lineTo (project (projection s) c)]"
  using assms
  by (auto simp add: clip_doPoint_def in_stretch_def visible_at_def Let_def emit_def lineTo_def truthy_incr simp del: split_paired_Ex)

lemma step_stretch_invisible:
  assumes "in_stretch s q" "\<not> visible_at (projection s) c"
  shows "\<exists>s'. clip_doPoint c w i s = Inr (JTrue, s') \<and> in_gap s' q \<and>
           projection s' = projection s \<and> calls (ctx s') = calls (ctx s)"
  using assms
  by (auto simp add: clip_doPoint_def in_stretch_def in_gap_def visible_at_def Let_def emit_def truthy_incr simp del: split_paired_Ex)

lemma step_gap_invisible:
  assumes "in_gap s q" "\<not> visible_at (projection s) c"
  shows "\<exists>s'. clip_doPoint c w i s = Inr (JTrue, s') \<and> in_gap s' q \<and>
           projection s' = projection s \<and> calls (ctx s') = calls (ctx s)"
  using assms
  by (auto simp add: clip_doPoint_def in_gap_def visible_at_def Let_def emit_def truthy_incr simp del: split_paired_Ex)

lemma step_gap_visible_poly:
  assumes "in_gap s q" "visible_at (projection s) c"
  shows "\<exists>s'. clip_doPoint c WPoly i s = Inr (JTrue, s') \<and> in_stretch s' (project (projection s) c) \<and>
           projection s' = projection s \<and>
           calls (ctx s') = calls (ctx s) @
             arcGap (Some q) (Some (project (projection s) c)) (pt (projection s)) (k (projection s)) @
             [lineTo (project (projection s) c)]"
  using assms
  by (auto simp add: clip_doPoint_def in_gap_def in_stretch_def visible_at_def Let_def emit_def lineTo_def truthy_incr simp del: split_paired_Ex)

lemma step_gap_visible_line:
  assumes "in_gap s q" "visible_at (projection s) c"
  shows "\<exists>s'. clip_doPoint c WLine i s = Inr (JTrue, s') \<and> in_stretch s' (project (projection s) c) \<and>
           projection s' = projection s \<and>
           calls (ctx s') = calls (ctx s) @ [moveTo (project (projection s) c)]"
  using assms
  by (auto simp add: clip_doPoint_def in_gap_def in_stretch_def visible_at_def Let_def emit_def moveTo_def truthy_incr simp del: split_paired_Ex)

lemma whileBoo_index:
  assumes "\<And>x i j s. f x i s = f x j s"
  shows "whileBoo f xs i b s = whileBoo f xs j b s"
proof (induction xs arbitrary: i j b s)
  case Nil
  then show ?case by simp
next
  case (Cons x xs)
  have "f x (i + 1) s = f x (j + 1) s" by (rule assms)
  then show ?case using Cons.IH[of "i + 1" _ _ "j + 1"]
    by (auto split: sum.splits)
qed

lemma clip_doPoint_index: "clip_doPoint c w i s = clip_doPoint c w j s"
  unfolding clip_doPoint_def drawPoint_def by (rule refl)

lemma clip_loop_index:
  "whileBoo (\<lambda>c i. clip_doPoint c w i) cs i b s = whileBoo (\<lambda>c i. clip_doPoint c w i) cs 0 b s"
  by (rule whileBoo_index) (rule clip_doPoint_index)

lemma clip_loop_Cons:
  "clip_doPoint c w 0 s = Inr (JTrue, s1) \<Longrightarrow>
   whileBoo (\<lambda>c i. clip_doPoint c w i) (c # cs) i JTrue s =
   whileBoo (\<lambda>c i. clip_doPoint c w i) cs 0 JTrue s1"
  using clip_doPoint_index[of c w "i + 1" s 0] clip_loop_index[of w cs "i + 1" JTrue s1]
  by simp

lemma clip_loop_append:
  assumes "whileBoo (\<lambda>c i. clip_doPoint c w i) xs 0 JTrue s = Inr (JTrue, s1)"
  shows "whileBoo (\<lambda>c i. clip_doPoint c w i) (xs @ ys) i JTrue s =
         whileBoo (\<lambda>c i. clip_doPoint c w i) ys 0 JTrue s1"
proof -
  have "whileBoo (\<lambda>c i. clip_doPoint c w i) (xs @ ys) i JTrue s =
        whileBoo (\<lambda>c i. clip_doPoint c w i) (xs @ ys) 0 JTrue s" by (rule clip_loop_index)
  also have "\<dots> = whileBoo (\<lambda>c i. clip_doPoint c w i) ys (0 + int (length xs)) JTrue s1"
    using assms by (simp add: whileBoo_append)
  also have "\<dots> = whileBoo (\<lambda>c i. clip_doPoint c w i) ys 0 JTrue s1" by (rule clip_loop_index)
  finally show ?thesis .
qed

lemma run_visible:
  assumes "in_stretch s q" "list_all (visible_at (projection s)) cs" "w \<noteq> WPoint"
  shows "\<exists>s'. whileBoo (\<lambda>c i. clip_doPoint c w i) cs i JTrue s = Inr (JTrue, s') \<and>
           in_stretch s' (last (q # map (project (projection s)) cs)) \<and>
           projection s' = projection s \<and>
           calls (ctx s') = calls (ctx s) @ map (\<lambda>c. lineTo (project (projection s) c)) cs"
  using assms
proof (induction cs arbitrary: s q i)
  case Nil
  then show ?case by simp
next
  case (Cons c cs)
  from Cons.prems have vc: "visible_at (projection s) c"
    and vcs: "list_all (visible_at (projection s)) cs" by auto
  from step_stretch_visible[OF Cons.prems(1) vc Cons.prems(3), of 0]
  obtain s1 where s1: "clip_doPoint c w 0 s = Inr (JTrue, s1)"
    and st1: "in_stretch s1 (project (projection s) c)"
    and p1: "projection s1 = projection s"
    and c1: "calls (ctx s1) = calls (ctx s) @ [lineTo (project (projection s) c)]" by blast
  from vcs p1 have "list_all (visible_at (projection s1)) cs" by simp
  from Cons.IH[OF st1 this Cons.prems(3), of 0]
  obtain s' where a: "whileBoo (\<lambda>c i. clip_doPoint c w i) cs 0 JTrue s1 = Inr (JTrue, s')"
    and b: "in_stretch s' (last (project (projection s) c # map (project (projection s1)) cs))"
    and c: "projection s' = projection s1"
    and d: "calls (ctx s') = calls (ctx s1) @ map (\<lambda>c. lineTo (project (projection s1) c)) cs"
    by blast
  have "whileBoo (\<lambda>c i. clip_doPoint c w i) (c # cs) i JTrue s = Inr (JTrue, s')"
    using clip_loop_Cons[OF s1] a by simp
  moreover have "in_stretch s' (last (q # map (project (projection s)) (c # cs)))"
    using b p1 by simp
  moreover have "projection s' = projection s" using c p1 by simp
  moreover have "calls (ctx s') = calls (ctx s) @ map (\<lambda>c. lineTo (project (projection s) c)) (c # cs)"
    using d c1 p1 by simp
  ultimately show ?case by blast
qed

lemma run_invisible:
  assumes "in_gap s q" "list_all (\<lambda>c. \<not> visible_at (projection s) c) cs"
  shows "\<exists>s'. whileBoo (\<lambda>c i. clip_doPoint c w i) cs i JTrue s = Inr (JTrue, s') \<and>
           in_gap s' q \<and> projection s' = projection s \<and> calls (ctx s') = calls (ctx s)"
  using assms
proof (induction cs arbitrary: s i)
  case Nil
  then show ?case by simp
next
  case (Cons c cs)
  from Cons.prems have vc: "\<not> visible_at (projection s) c"
    and vcs: "list_all (\<lambda>c. \<not> visible_at (projection s) c) cs" by auto
  from step_gap_invisible[OF Cons.prems(1) vc, of w 0]
  obtain s1 where s1: "clip_doPoint c w 0 s = Inr (JTrue, s1)"
    and st1: "in_gap s1 q" and p1: "projection s1 = projection s"
    and c1: "calls (ctx s1) = calls (ctx s)" by blast
  from vcs p1 have "list_all (\<lambda>c. \<not> visible_at (projection s1) c) cs" by simp
  from Cons.IH[OF st1 this, of 0]
  obtain s' where a: "whileBoo (\<lambda>c i. clip_doPoint c w i) cs 0 JTrue s1 = Inr (JTrue, s')"
    and b: "in_gap s' q" and c: "projection s' = projection s1"
    and d: "calls (ctx s') = calls (ctx s1)" by blast
  have "whileBoo (\<lambda>c i. clip_doPoint c w i) (c # cs) i JTrue s = Inr (JTrue, s')"
    using clip_loop_Cons[OF s1] a by simp
  then show ?case using b c d p1 c1 by auto
qed

lemma one_gap_run:
  assumes fr: "ring_fresh s" and w: "w \<noteq> WPoint"
    and v1: "list_all (visible_at (projection s)) (a # vis1)"
    and iv: "list_all (\<lambda>c. \<not> visible_at (projection s) c) (b # hid)"
    and v2: "list_all (visible_at (projection s)) (d # vis2)"
  shows "\<exists>s' q. whileBoo (\<lambda>c i. clip_doPoint c w i) (a # vis1 @ b # hid @ d # vis2) i JTrue s =
             Inr (JTrue, s') \<and> in_stretch s' q \<and> projection s' = projection s \<and>
           calls (ctx s') = calls (ctx s) @
             moveTo (project (projection s) a) # map (\<lambda>c. lineTo (project (projection s) c)) vis1 @
             (if w = WPoly
              then arcGap (Some (last (map (project (projection s)) (a # vis1))))
                     (Some (project (projection s) d)) (pt (projection s)) (k (projection s)) @
                   [lineTo (project (projection s) d)]
              else [moveTo (project (projection s) d)]) @
             map (\<lambda>c. lineTo (project (projection s) c)) vis2"
proof -
  let ?P = "projection s"
  let ?f = "\<lambda>c i. clip_doPoint c w i"
  from v1 have va: "visible_at ?P a" and vv1: "list_all (visible_at ?P) vis1" by auto
  from iv have vb: "\<not> visible_at ?P b" and vhid: "list_all (\<lambda>c. \<not> visible_at ?P c) hid" by auto
  from v2 have vd: "visible_at ?P d" and vv2: "list_all (visible_at ?P) vis2" by auto
  from step_fresh_visible[OF fr va w, of 0]
  obtain s1 where s1: "?f a 0 s = Inr (JTrue, s1)"
    and st1: "in_stretch s1 (project ?P a)" and p1: "projection s1 = ?P"
    and c1: "calls (ctx s1) = calls (ctx s) @ [moveTo (project ?P a)]" by blast
  from run_visible[OF st1 _ w, of vis1 0] vv1 p1
  obtain s2 where s2: "whileBoo ?f vis1 0 JTrue s1 = Inr (JTrue, s2)"
    and st2: "in_stretch s2 (last (project ?P a # map (project ?P) vis1))"
    and p2: "projection s2 = ?P"
    and c2: "calls (ctx s2) = calls (ctx s1) @ map (\<lambda>c. lineTo (project ?P c)) vis1" by auto
  let ?q = "last (project ?P a # map (project ?P) vis1)"
  from step_stretch_invisible[OF st2, of b w 0] vb p2
  obtain s3 where s3: "?f b 0 s2 = Inr (JTrue, s3)"
    and st3: "in_gap s3 ?q" and p3: "projection s3 = ?P"
    and c3: "calls (ctx s3) = calls (ctx s2)" by auto
  from run_invisible[OF st3, of hid w 0] vhid p3
  obtain s4 where s4: "whileBoo ?f hid 0 JTrue s3 = Inr (JTrue, s4)"
    and st4: "in_gap s4 ?q" and p4: "projection s4 = ?P"
    and c4: "calls (ctx s4) = calls (ctx s3)" by auto
  let ?gapcalls = "(if w = WPoly
              then arcGap (Some ?q) (Some (project ?P d)) (pt ?P) (k ?P) @ [lineTo (project ?P d)]
              else [moveTo (project ?P d)])"
  have "\<exists>s5. ?f d 0 s4 = Inr (JTrue, s5) \<and> in_stretch s5 (project ?P d) \<and>
           projection s5 = ?P \<and> calls (ctx s5) = calls (ctx s4) @ ?gapcalls"
  proof (cases w)
    case WPoint
    with w show ?thesis by simp
  next
    case WPoly
    with step_gap_visible_poly[OF st4, of d 0] vd p4 show ?thesis by auto
  next
    case WLine
    with step_gap_visible_line[OF st4, of d 0] vd p4 show ?thesis by auto
  qed
  then obtain s5 where s5: "?f d 0 s4 = Inr (JTrue, s5)"
    and st5: "in_stretch s5 (project ?P d)" and p5: "projection s5 = ?P"
    and c5: "calls (ctx s5) = calls (ctx s4) @ ?gapcalls" by blast
  from run_visible[OF st5 _ w, of vis2 0] vv2 p5
  obtain s6 where s6: "whileBoo ?f vis2 0 JTrue s5 = Inr (JTrue, s6)"
    and st6: "in_stretch s6 (last (project ?P d # map (project ?P) vis2))"
    and p6: "projection s6 = ?P"
    and c6: "calls (ctx s6) = calls (ctx s5) @ map (\<lambda>c. lineTo (project ?P c)) vis2" by auto
  have e5: "whileBoo ?f (d # vis2) 0 JTrue s4 = Inr (JTrue, s6)"
    using clip_loop_Cons[OF s5, of vis2 0] s6 by simp
  have e3: "whileBoo ?f (b # hid) 0 JTrue s2 = Inr (JTrue, s4)"
    using clip_loop_Cons[OF s3, of hid 0] s4 by simp
  have e35: "whileBoo ?f ((b # hid) @ d # vis2) 0 JTrue s2 = Inr (JTrue, s6)"
    using clip_loop_append[OF e3, of "d # vis2" 0] e5 by simp
  have e2: "whileBoo ?f (vis1 @ (b # hid) @ d # vis2) 0 JTrue s1 = Inr (JTrue, s6)"
    using clip_loop_append[OF s2, of "(b # hid) @ d # vis2" 0] e35 by simp
  have e1: "whileBoo ?f (a # vis1 @ b # hid @ d # vis2) i JTrue s = Inr (JTrue, s6)"
    using clip_loop_Cons[OF s1, of "vis1 @ b # hid @ d # vis2" i] e2 by simp
  have cc: "calls (ctx s6) = calls (ctx s) @
             moveTo (project ?P a) # map (\<lambda>c. lineTo (project ?P c)) vis1 @ ?gapcalls @
             map (\<lambda>c. lineTo (project ?P c)) vis2"
    using c1 c2 c3 c4 c5 c6 by simp
  have q: "last (map (project ?P) (a # vis1)) = ?q" by simp
  show ?thesis
    apply (rule exI[of _ s6])
    apply (rule exI[of _ "last (project ?P d # map (project ?P) vis2)"])
    using e1 st6 p6 cc q by simp
qed

lemma clip_proto_fields [simp]:
  "doPoint (GeoIteratorClip_prototype n) = clip_doPoint"
  "polygonStart (GeoIteratorClip_prototype n) = clip_polygonStart"
  "polygonEnd (GeoIteratorClip_prototype n) = clip_polygonEnd"
  "lineStart (GeoIteratorClip_prototype n) = clip_lineStart"
  "lineEnd (GeoIteratorClip_prototype n) = (\<lambda>r s. Inr s)"
  "geometryStart (GeoIteratorClip_prototype n) = clip_geometryStart"
  "collectionStart (GeoIteratorClip_prototype n) = clip_collectionStart"
  "collectionEnd (GeoIteratorClip_prototype n) = clip_collectionEnd"
  by (cases n; simp add: clip_methods_def GeoIterator_prototype_def)+

lemma clip_proto_geometryEnd:
  "geometryEnd (GeoIteratorClip_prototype 0) = clip_geometryEnd (\<lambda>g s. Inl NestingBound)"
  "geometryEnd (GeoIteratorClip_prototype (Suc n)) =
     clip_geometryEnd (iterateGeometry (GeoIteratorClip_prototype n))"
  by (simp_all add: clip_methods_def)

lemma polygonStart_fresh:
  assumes "\<not> forcePoint s"
  shows "\<exists>s2. clip_polygonStart r s = Inr (JTrue, s2) \<and> ring_fresh s2 \<and>
           projection s2 = projection s \<and> ctx s2 = ctx s"
  using assms by (simp add: clip_polygonStart_def ring_fresh_def)

lemma polygonEnd_in_stretch: "in_stretch s q \<Longrightarrow> clip_polygonEnd r s = Inr s"
  by (simp add: clip_polygonEnd_def in_stretch_def)

lemma filter_arcTo_lineTo [simp]: "filter is_arcTo (map (\<lambda>c. lineTo (f c)) cs) = []"
  by (induction cs) (simp_all add: lineTo_def)

lemma filter_arcTo_arcGap [simp]: "length (filter is_arcTo (arcGap a d ctr r)) = 1"
  by (simp add: arcGap_def Let_def)

text \<open>
  A ring or line with one gap inside: a run of visible coordinates \<open>a # vis1\<close>, a run of
  invisible coordinates \<open>b # hid\<close>, and a run of visible coordinates \<open>d # vis2\<close>. As a
  ring it gets the calls of one \<open>arcGap\<close> where the gap closes; as a line it gets a
  move-to there.
\<close>

lemma one_gap_in_ring_and_line:
  assumes fp: "\<not> forcePoint s"
    and v1: "list_all (visible_at (projection s)) (a # vis1)"
    and iv: "list_all (\<lambda>c. \<not> visible_at (projection s) c) (b # hid)"
    and v2: "list_all (visible_at (projection s)) (d # vis2)"
  shows "(\<exists>s'. iteratePolygon (GeoIteratorClip_prototype n)
                 (Rings (a # vis1 @ b # hid @ d # vis2) others) s = Inr (JTrue, s') \<and>
              calls (ctx s') = calls (ctx s) @
                moveTo (project (projection s) a) #
                map (\<lambda>c. lineTo (project (projection s) c)) vis1 @
                arcGap (Some (last (map (project (projection s)) (a # vis1))))
                  (Some (project (projection s) d)) (pt (projection s)) (k (projection s)) @
                lineTo (project (projection s) d) #
                map (\<lambda>c. lineTo (project (projection s) c)) vis2 \<and>
              length (filter is_arcTo (drop (length (calls (ctx s))) (calls (ctx s')))) = 1) \<and>
         (\<exists>s'. iterateLine (GeoIteratorClip_prototype n) (a # vis1 @ b # hid @ d # vis2) s =
                 Inr (JTrue, s') \<and>
              calls (ctx s') = calls (ctx s) @
                moveTo (project (projection s) a) #
                map (\<lambda>c. lineTo (project (projection s) c)) vis1 @
                moveTo (project (projection s) d) #
                map (\<lambda>c. lineTo (project (projection s) c)) vis2 \<and>
              filter is_arcTo (drop (length (calls (ctx s))) (calls (ctx s'))) = [])"
proof (rule conjI)
  let ?ring = "a # vis1 @ b # hid @ d # vis2"
  let ?s1 = "s\<lparr>polygon := Some (Rings ?ring others)\<rparr>"
  have fp1: "\<not> forcePoint ?s1" using fp by simp
  from polygonStart_fresh[OF fp1, of ?ring]
  obtain s2 where s2: "clip_polygonStart ?ring ?s1 = Inr (JTrue, s2)" and fr: "ring_fresh s2"
    and p2: "projection s2 = projection s" and c2: "ctx s2 = ctx s" by auto
  from one_gap_run[OF fr, of WPoly a vis1 b hid d vis2 "- 1"] v1 iv v2 p2
  obtain s3 q where s3: "whileBoo (\<lambda>c i. clip_doPoint c WPoly i) ?ring (- 1) JTrue s2 = Inr (JTrue, s3)"
    and st3: "in_stretch s3 q"
    and c3: "calls (ctx s3) = calls (ctx s2) @
                moveTo (project (projection s) a) #
                map (\<lambda>c. lineTo (project (projection s) c)) vis1 @
                (arcGap (Some (last (map (project (projection s)) (a # vis1))))
                  (Some (project (projection s) d)) (pt (projection s)) (k (projection s)) @
                [lineTo (project (projection s) d)]) @
                map (\<lambda>c. lineTo (project (projection s) c)) vis2"
    by auto
  have "iteratePolygon (GeoIteratorClip_prototype n) (Rings ?ring others) s = Inr (JTrue, s3)"
    using s2 s3 polygonEnd_in_stretch[OF st3] by (simp add: iteratePolygon_def)
  moreover have "length (filter is_arcTo (drop (length (calls (ctx s))) (calls (ctx s3)))) = 1"
    using c3 c2 by (simp add: moveTo_def lineTo_def)
  ultimately show "\<exists>s'. iteratePolygon (GeoIteratorClip_prototype n) (Rings ?ring others) s =
                 Inr (JTrue, s') \<and>
              calls (ctx s') = calls (ctx s) @
                moveTo (project (projection s) a) #
                map (\<lambda>c. lineTo (project (projection s) c)) vis1 @
                arcGap (Some (last (map (project (projection s)) (a # vis1))))
                  (Some (project (projection s) d)) (pt (projection s)) (k (projection s)) @
                lineTo (project (projection s) d) #
                map (\<lambda>c. lineTo (project (projection s) c)) vis2 \<and>
              length (filter is_arcTo (drop (length (calls (ctx s))) (calls (ctx s')))) = 1"
    using c3 c2 by (intro exI[of _ s3]) simp
next
  let ?ring = "a # vis1 @ b # hid @ d # vis2"
  let ?s1 = "s\<lparr>line := Some ?ring\<rparr>"
  have fp1: "\<not> forcePoint ?s1" using fp by simp
  from polygonStart_fresh[OF fp1, of ?ring]
  obtain s2 where s2: "clip_polygonStart ?ring ?s1 = Inr (JTrue, s2)" and fr: "ring_fresh s2"
    and p2: "projection s2 = projection s" and c2: "ctx s2 = ctx s" by auto
  from one_gap_run[OF fr, of WLine a vis1 b hid d vis2 "- 1"] v1 iv v2 p2
  obtain s3 q where s3: "whileBoo (\<lambda>c i. clip_doPoint c WLine i) ?ring (- 1) JTrue s2 = Inr (JTrue, s3)"
    and st3: "in_stretch s3 q"
    and c3: "calls (ctx s3) = calls (ctx s2) @
                moveTo (project (projection s) a) #
                map (\<lambda>c. lineTo (project (projection s) c)) vis1 @
                [moveTo (project (projection s) d)] @
                map (\<lambda>c. lineTo (project (projection s) c)) vis2"
    by auto
  have "iterateLine (GeoIteratorClip_prototype n) ?ring s = Inr (JTrue, s3)"
    using s2 s3 by (simp add: iterateLine_def clip_lineStart_def)
  moreover have "filter is_arcTo (drop (length (calls (ctx s))) (calls (ctx s3))) = []"
    using c3 c2 by (simp add: moveTo_def lineTo_def)
  ultimately show "\<exists>s'. iterateLine (GeoIteratorClip_prototype n) ?ring s = Inr (JTrue, s') \<and>
              calls (ctx s') = calls (ctx s) @
                moveTo (project (projection s) a) #
                map (\<lambda>c. lineTo (project (projection s) c)) vis1 @
                moveTo (project (projection s) d) #
                map (\<lambda>c. lineTo (project (projection s) c)) vis2 \<and>
              filter is_arcTo (drop (length (calls (ctx s))) (calls (ctx s'))) = []"
    using c3 c2 by (intro exI[of _ s3]) simp
qed

section \<open>The arc at the end of a ring\<close>

lemma step_poly_fields:
  assumes "\<not> forcePoint s" "visiblePointCount s = Some vn" "pointCount s = Some pn"
  shows "\<exists>s'. clip_doPoint c WPoly i s = Inr (JTrue, s') \<and>
     projection s' = projection s \<and> \<not> forcePoint s' \<and> isGapAtEnd s' = isGapAtEnd s \<and>
     visiblePointCount s' = Some (vn + length (visible_pixels (projection s) [c])) \<and>
     pointCount s' = Some (pn + 1) \<and>
     firstVisiblePointInRing s' =
       (case firstVisiblePointInRing s of Some p \<Rightarrow> Some p
        | None \<Rightarrow> (if visible_at (projection s) c then Some (project (projection s) c) else None)) \<and>
     lastVisiblePointInRing s' =
       (if visible_at (projection s) c then Some (project (projection s) c) else lastVisiblePointInRing s) \<and>
     previousPt s' =
       (if visible_at (projection s) c then Some (project (projection s) c) else previousPt s) \<and>
     isGapAtStart s' = (isGapAtStart s \<or> (pn = 0 \<and> \<not> visible_at (projection s) c))"
  using assms
  by (auto simp add: clip_doPoint_def visible_at_def visible_pixels_def Let_def emit_def
      simp del: split_paired_Ex split: option.splits)

lemma poly_loop_fields:
  assumes "\<not> forcePoint s" "visiblePointCount s = Some vn" "pointCount s = Some pn"
  shows "\<exists>s'. whileBoo (\<lambda>c i. clip_doPoint c WPoly i) cs i JTrue s = Inr (JTrue, s') \<and>
     projection s' = projection s \<and> \<not> forcePoint s' \<and> isGapAtEnd s' = isGapAtEnd s \<and>
     visiblePointCount s' = Some (vn + length (visible_pixels (projection s) cs)) \<and>
     pointCount s' = Some (pn + length cs) \<and>
     firstVisiblePointInRing s' =
       (case firstVisiblePointInRing s of Some p \<Rightarrow> Some p
        | None \<Rightarrow> (if visible_pixels (projection s) cs = [] then None
                    else Some (hd (visible_pixels (projection s) cs)))) \<and>
     lastVisiblePointInRing s' =
       (if visible_pixels (projection s) cs = [] then lastVisiblePointInRing s
        else Some (last (visible_pixels (projection s) cs))) \<and>
     previousPt s' =
       (if visible_pixels (projection s) cs = [] then previousPt s
        else Some (last (visible_pixels (projection s) cs))) \<and>
     isGapAtStart s' =
       (isGapAtStart s \<or> (pn = 0 \<and> cs \<noteq> [] \<and> \<not> visible_at (projection s) (hd cs)))"
  using assms
proof (induction cs arbitrary: s i vn pn)
  case Nil
  then show ?case by (simp add: visible_pixels_def split: option.splits)
next
  case (Cons c cs)
  let ?P = "projection s"
  from step_poly_fields[OF Cons.prems, of c 0]
  obtain s1 where s1: "clip_doPoint c WPoly 0 s = Inr (JTrue, s1)"
    and p1: "projection s1 = ?P" and f1: "\<not> forcePoint s1"
    and e1: "isGapAtEnd s1 = isGapAtEnd s"
    and v1: "visiblePointCount s1 = Some (vn + length (visible_pixels ?P [c]))"
    and n1: "pointCount s1 = Some (pn + 1)"
    and fv1: "firstVisiblePointInRing s1 =
       (case firstVisiblePointInRing s of Some p \<Rightarrow> Some p
        | None \<Rightarrow> (if visible_at ?P c then Some (project ?P c) else None))"
    and lv1: "lastVisiblePointInRing s1 =
       (if visible_at ?P c then Some (project ?P c) else lastVisiblePointInRing s)"
    and pv1: "previousPt s1 = (if visible_at ?P c then Some (project ?P c) else previousPt s)"
    and g1: "isGapAtStart s1 = (isGapAtStart s \<or> (pn = 0 \<and> \<not> visible_at ?P c))"
    by blast
  from Cons.IH[OF f1 v1 n1, of 0]
  obtain s' where a: "whileBoo (\<lambda>c i. clip_doPoint c WPoly i) cs 0 JTrue s1 = Inr (JTrue, s')"
    and p': "projection s' = projection s1" and f': "\<not> forcePoint s'"
    and e': "isGapAtEnd s' = isGapAtEnd s1"
    and v': "visiblePointCount s' =
        Some (vn + length (visible_pixels ?P [c]) + length (visible_pixels (projection s1) cs))"
    and n': "pointCount s' = Some (pn + 1 + length cs)"
    and fv': "firstVisiblePointInRing s' =
       (case firstVisiblePointInRing s1 of Some p \<Rightarrow> Some p
        | None \<Rightarrow> (if visible_pixels (projection s1) cs = [] then None
                    else Some (hd (visible_pixels (projection s1) cs))))"
    and lv': "lastVisiblePointInRing s' =
       (if visible_pixels (projection s1) cs = [] then lastVisiblePointInRing s1
        else Some (last (visible_pixels (projection s1) cs)))"
    and pv': "previousPt s' =
       (if visible_pixels (projection s1) cs = [] then previousPt s1
        else Some (last (visible_pixels (projection s1) cs)))"
    and g': "isGapAtStart s' =
       (isGapAtStart s1 \<or> (pn + 1 = 0 \<and> cs \<noteq> [] \<and> \<not> visible_at (projection s1) (hd cs)))"
    by blast
  have w: "whileBoo (\<lambda>c i. clip_doPoint c WPoly i) (c # cs) i JTrue s = Inr (JTrue, s')"
    using clip_loop_Cons[OF s1] a by simp
  have vp: "visible_pixels ?P (c # cs) = visible_pixels ?P [c] @ visible_pixels ?P cs"
    by (simp add: visible_pixels_def)
  have vc: "visible_pixels ?P [c] = (if visible_at ?P c then [project ?P c] else [])"
    by (simp add: visible_pixels_def)
  show ?case
    apply (rule exI[of _ s'])
    using w p' p1 f' e' e1 v' n' fv' fv1 lv' lv1 pv' pv1 g' g1
    by (auto simp add: vp vc split: option.splits)
qed

lemma polygonStart_reset:
  "\<exists>s2. clip_polygonStart r s = Inr (JTrue, s2) \<and> projection s2 = projection s \<and>
         forcePoint s2 = forcePoint s \<and> ctx s2 = ctx s \<and>
         visiblePointCount s2 = Some 0 \<and> pointCount s2 = Some 0 \<and>
         firstVisiblePointInRing s2 = None \<and> lastVisiblePointInRing s2 = None \<and>
         previousPt s2 = None \<and> \<not> isGapAtStart s2 \<and> \<not> isGapAtEnd s2"
  by (simp add: clip_polygonStart_def)

text \<open>
  The end of a ring in general. With \<open>forcePoint\<close> off, the traversal of a ring \<open>cs\<close>
  returns, and \<open>polygonEnd\<close> appends the calls of one \<open>arcGap\<close> from the last visible
  point of the ring to its first visible point, followed by a line-to to that first
  visible point, when the ring has a visible point and one of the two gap flags is set;
  otherwise it appends nothing. The gap-at-start flag is set when the first coordinate is
  invisible; the gap-at-end flag is set only when the ring has no visible point at all.
\<close>

lemma ring_end_arc:
  assumes fp: "\<not> forcePoint s"
  shows "\<exists>s2 s3 s4.
     clip_polygonStart cs (s\<lparr>polygon := Some (Rings cs others)\<rparr>) = Inr (JTrue, s2) \<and>
     whileBoo (\<lambda>c i. clip_doPoint c WPoly i) cs (- 1) JTrue s2 = Inr (JTrue, s3) \<and>
     clip_polygonEnd cs s3 = Inr s4 \<and>
     iteratePolygon (GeoIteratorClip_prototype n) (Rings cs others) s = Inr (JTrue, s4) \<and>
     isGapAtStart s4 = (cs \<noteq> [] \<and> \<not> visible_at (projection s) (hd cs)) \<and>
     isGapAtEnd s4 = (previousPt s3 = None) \<and>
     (previousPt s3 = None) = (visible_pixels (projection s) cs = []) \<and>
     calls (ctx s4) = calls (ctx s3) @
       (if visible_pixels (projection s) cs \<noteq> [] \<and> (isGapAtStart s4 \<or> isGapAtEnd s4)
        then arcGap (Some (last (visible_pixels (projection s) cs)))
               (Some (hd (visible_pixels (projection s) cs)))
               (pt (projection s)) (k (projection s)) @
             [lineTo (hd (visible_pixels (projection s) cs))]
        else [])"
proof -
  let ?P = "projection s"
  let ?vis = "visible_pixels ?P cs"
  from polygonStart_reset[of cs "s\<lparr>polygon := Some (Rings cs others)\<rparr>"]
  obtain s2 where s2: "clip_polygonStart cs (s\<lparr>polygon := Some (Rings cs others)\<rparr>) = Inr (JTrue, s2)"
    and p2: "projection s2 = ?P" and f2: "\<not> forcePoint s2"
    and v2: "visiblePointCount s2 = Some 0" and n2: "pointCount s2 = Some 0"
    and fv2: "firstVisiblePointInRing s2 = None" and lv2: "lastVisiblePointInRing s2 = None"
    and pv2: "previousPt s2 = None" and g2: "\<not> isGapAtStart s2" and e2: "\<not> isGapAtEnd s2"
    using fp by auto
  from poly_loop_fields[OF f2 v2 n2, of cs "- 1"]
  obtain s3 where s3: "whileBoo (\<lambda>c i. clip_doPoint c WPoly i) cs (- 1) JTrue s2 = Inr (JTrue, s3)"
    and p3': "projection s3 = projection s2" and e3': "isGapAtEnd s3 = isGapAtEnd s2"
    and v3': "visiblePointCount s3 = Some (0 + length (visible_pixels (projection s2) cs))"
    and fv3': "firstVisiblePointInRing s3 =
       (case firstVisiblePointInRing s2 of Some p \<Rightarrow> Some p
        | None \<Rightarrow> (if visible_pixels (projection s2) cs = [] then None
                    else Some (hd (visible_pixels (projection s2) cs))))"
    and lv3': "lastVisiblePointInRing s3 =
       (if visible_pixels (projection s2) cs = [] then lastVisiblePointInRing s2
        else Some (last (visible_pixels (projection s2) cs)))"
    and pv3': "previousPt s3 =
       (if visible_pixels (projection s2) cs = [] then previousPt s2
        else Some (last (visible_pixels (projection s2) cs)))"
    and g3': "isGapAtStart s3 =
       (isGapAtStart s2 \<or> ((0::nat) = 0 \<and> cs \<noteq> [] \<and> \<not> visible_at (projection s2) (hd cs)))"
    by blast
  have p3: "projection s3 = ?P" using p3' p2 by simp
  have e3: "\<not> isGapAtEnd s3" using e3' e2 by simp
  have v3: "visiblePointCount s3 = Some (length ?vis)" using v3' p2 by simp
  have fv3: "firstVisiblePointInRing s3 = (if ?vis = [] then None else Some (hd ?vis))"
    using fv3' fv2 p2 by simp
  have lv3: "lastVisiblePointInRing s3 = (if ?vis = [] then None else Some (last ?vis))"
    using lv3' lv2 p2 by simp
  have pv3: "previousPt s3 = (if ?vis = [] then None else Some (last ?vis))"
    using pv3' pv2 p2 by simp
  have g3: "isGapAtStart s3 = (cs \<noteq> [] \<and> \<not> visible_at ?P (hd cs))"
    using g3' g2 p2 by simp
  obtain s4 where s4: "clip_polygonEnd cs s3 = Inr s4"
    by (cases "clip_polygonEnd cs s3") (auto simp: clip_polygonEnd_def Let_def split: if_splits)
  have it: "iteratePolygon (GeoIteratorClip_prototype n) (Rings cs others) s = Inr (JTrue, s4)"
    using s2 s3 s4 by (simp add: iteratePolygon_def)
  have gs: "isGapAtStart s4 = (cs \<noteq> [] \<and> \<not> visible_at ?P (hd cs))"
    using s4 g3 by (auto simp: clip_polygonEnd_def Let_def emit_def split: if_splits)
  have ge: "isGapAtEnd s4 = (previousPt s3 = None)"
    using s4 e3 by (auto simp: clip_polygonEnd_def Let_def emit_def split: if_splits)
  have pn: "(previousPt s3 = None) = (?vis = [])" using pv3 by simp
  have cc: "calls (ctx s4) = calls (ctx s3) @
       (if ?vis \<noteq> [] \<and> (isGapAtStart s4 \<or> isGapAtEnd s4)
        then arcGap (Some (last ?vis)) (Some (hd ?vis)) (pt ?P) (k ?P) @ [lineTo (hd ?vis)]
        else [])"
  proof (cases "?vis = []")
    case True
    then show ?thesis using s4 v3 by (auto simp: clip_polygonEnd_def Let_def emit_def split: if_splits)
  next
    case False
    then show ?thesis using s4 v3 g3 e3 pv3 fv3 lv3 p3 gs ge
      by (auto simp: clip_polygonEnd_def Let_def emit_def lineTo_def split: if_splits)
  qed
  show ?thesis
    by (intro exI[of _ s2] exI[of _ s3] exI[of _ s4] conjI s2 s3 s4 it gs ge pn cc)
qed

section \<open>A ring on the globe\<close>

lemma project_globe_front: "project globe (0, 0) = (Some 180, Some 180, True)"
  by (simp add: globe_def example_projection_def mixer_row_def project_def project_orthographic_def
      project_rotate_def asin_def jgt_def isPointVisible_def clipAngle_def radians_def atan2_def Let_def)

lemma project_globe_back: "project globe (180, 0) = (None, None, False)"
  by (simp add: globe_def example_projection_def mixer_row_def project_def project_orthographic_def
      project_rotate_def asin_def jgt_def isPointVisible_def clipAngle_def radians_def atan2_def Let_def tau_def)

lemma globe_visible: "visible_at globe (0, 0)" "\<not> visible_at globe (180, 0)"
  by (simp_all add: visible_at_def project_globe_front project_globe_back)

section \<open>The orthographic projection as a rotation\<close>

lemma atan2_range: "- pi < atan2 y x \<and> atan2 y x \<le> pi"
proof -
  have a: "- (pi / 2) < arctan (y / x)" "arctan (y / x) < pi / 2"
    using arctan_lbound arctan_ubound by auto
  have z: "x < 0 \<Longrightarrow> 0 \<le> y \<Longrightarrow> arctan (y / x) \<le> 0"
    by (simp add: divide_nonneg_neg arctan_le_zero_iff)
  have p: "x < 0 \<Longrightarrow> y < 0 \<Longrightarrow> 0 < arctan (y / x)"
    by (simp add: divide_neg_neg arctan_less_zero_iff zero_less_arctan_iff)
  show ?thesis
    using a z p pi_gt_zero by (auto simp: atan2_def)
qed

lemma sqrt_sum_pos: "x \<noteq> 0 \<or> y \<noteq> 0 \<Longrightarrow> 0 < sqrt (x\<^sup>2 + y\<^sup>2)"
  by (auto simp: sum_power2_gt_zero_iff)

lemma arctan_polar:
  assumes "x \<noteq> 0"
  shows "cos (arctan (y / x)) = \<bar>x\<bar> / sqrt (x\<^sup>2 + y\<^sup>2)"
    and "sin (arctan (y / x)) = (y / x) * \<bar>x\<bar> / sqrt (x\<^sup>2 + y\<^sup>2)"
proof -
  have "1 + (y / x)\<^sup>2 = (x\<^sup>2 + y\<^sup>2) / x\<^sup>2"
    using assms by (simp add: field_simps power2_eq_square)
  then have s: "sqrt (1 + (y / x)\<^sup>2) = sqrt (x\<^sup>2 + y\<^sup>2) / \<bar>x\<bar>"
    by (simp add: real_sqrt_divide)
  show "cos (arctan (y / x)) = \<bar>x\<bar> / sqrt (x\<^sup>2 + y\<^sup>2)"
    by (simp add: cos_arctan s)
  show "sin (arctan (y / x)) = (y / x) * \<bar>x\<bar> / sqrt (x\<^sup>2 + y\<^sup>2)"
    by (simp add: sin_arctan s)
qed

lemma atan2_polar:
  assumes "x \<noteq> 0 \<or> y \<noteq> 0"
  shows "cos (atan2 y x) = x / sqrt (x\<^sup>2 + y\<^sup>2)"
    and "sin (atan2 y x) = y / sqrt (x\<^sup>2 + y\<^sup>2)"
proof -
  consider "0 < x" | "x < 0" | "x = 0" "0 < y" | "x = 0" "y < 0"
    using assms by fastforce
  then have "cos (atan2 y x) = x / sqrt (x\<^sup>2 + y\<^sup>2) \<and> sin (atan2 y x) = y / sqrt (x\<^sup>2 + y\<^sup>2)"
  proof cases
    case 1
    then show ?thesis using arctan_polar[of x y] by (simp add: atan2_def)
  next
    case 2
    then show ?thesis using arctan_polar[of x y]
      by (simp add: atan2_def)
  next
    case 3
    then show ?thesis by (simp add: atan2_def)
  next
    case 4
    then show ?thesis by (simp add: atan2_def)
  qed
  then show "cos (atan2 y x) = x / sqrt (x\<^sup>2 + y\<^sup>2)"
    and "sin (atan2 y x) = y / sqrt (x\<^sup>2 + y\<^sup>2)" by simp_all
qed



lemma atan2_scale:
  assumes "0 < c"
  shows "atan2 (c * y) (c * x) = atan2 y x"
  using assms by (simp add: atan2_def zero_less_mult_iff mult_less_0_iff zero_le_mult_iff)

lemma rotation_inverse:
  fixes x y z cp sp cg sg :: real
  assumes p: "cp\<^sup>2 + sp\<^sup>2 = 1" and g: "cg\<^sup>2 + sg\<^sup>2 = 1"
    and kk: "kk = z * cp + x * sp"
    and X: "X = x * cp - z * sp"
    and Y: "Y = y * cg - kk * sg"
    and Z: "Z = kk * cg + y * sg"
  shows "Z * cg - Y * sg = kk" "Y * cg + Z * sg = y" "X * cp + kk * sp = x" "kk * cp - X * sp = z"
    "X\<^sup>2 + Y\<^sup>2 + Z\<^sup>2 = x\<^sup>2 + y\<^sup>2 + z\<^sup>2"
proof -
  have "Z * cg - Y * sg = kk * (cg\<^sup>2 + sg\<^sup>2)"
    unfolding Y Z by (simp add: algebra_simps power2_eq_square)
  then show a: "Z * cg - Y * sg = kk" using g by simp
  have "Y * cg + Z * sg = y * (cg\<^sup>2 + sg\<^sup>2)"
    unfolding Y Z by (simp add: algebra_simps power2_eq_square)
  then show b: "Y * cg + Z * sg = y" using g by simp
  have "X * cp + kk * sp = x * (cp\<^sup>2 + sp\<^sup>2)"
    unfolding X kk by (simp add: algebra_simps power2_eq_square)
  then show c: "X * cp + kk * sp = x" using p by simp
  have "kk * cp - X * sp = z * (cp\<^sup>2 + sp\<^sup>2)"
    unfolding X kk by (simp add: algebra_simps power2_eq_square)
  then show d: "kk * cp - X * sp = z" using p by simp
  have "Y\<^sup>2 + Z\<^sup>2 = (y\<^sup>2 + kk\<^sup>2) * (cg\<^sup>2 + sg\<^sup>2)"
    unfolding Y Z by (simp add: algebra_simps power2_eq_square)
  moreover have "X\<^sup>2 + kk\<^sup>2 = (x\<^sup>2 + z\<^sup>2) * (cp\<^sup>2 + sp\<^sup>2)"
    unfolding X kk by (simp add: algebra_simps power2_eq_square)
  ultimately show "X\<^sup>2 + Y\<^sup>2 + Z\<^sup>2 = x\<^sup>2 + y\<^sup>2 + z\<^sup>2"
    using p g by simp
qed

text \<open>The step \<open>\<lambda> = (\<lambda> > \<pi>) ? \<lambda> - \<tau> : (\<lambda> < -\<pi>) ? \<lambda> + \<tau> : \<lambda>\<close>.\<close>

lemma constrain_periodic:
  "cos (if l > pi then l - tau else if l < - pi then l + tau else l) = cos l"
  "sin (if l > pi then l - tau else if l < - pi then l + tau else l) = sin l"
  by (simp_all add: tau_def cos_diff sin_diff cos_add sin_add)

lemma constrain_back:
  fixes j :: int
  assumes "- pi < l0" "l0 < pi" "v = l0 + 2 * pi * real_of_int j" "\<bar>v\<bar> < 3 * pi"
  shows "(if v > pi then v - tau else if v < - pi then v + tau else v) = l0"
proof -
  have "\<bar>2 * pi * real_of_int j\<bar> < 4 * pi"
    using assms by linarith
  then have "(2 * pi) * \<bar>real_of_int j\<bar> < (2 * pi) * 2"
    by (simp add: abs_mult)
  then have "\<bar>real_of_int j\<bar> < 2"
    using pi_gt_zero by (subst (asm) mult_less_cancel_left_pos) simp_all
  then have "j = - 1 \<or> j = 0 \<or> j = 1" by linarith
  then show ?thesis using assms pi_gt_zero by (auto simp: tau_def)
qed


lemma radians_degrees [simp]: "degrees (radians x) = x"
  by (simp add: degrees_def radians_def)

lemma project_rotate_rotated:
  "project_rotate P c = (atan2 (fst (snd (rotated P c))) (fst (rotated P c)), snd (snd (rotated P c)))"
  unfolding project_rotate_def rotated_def Let_def constrain_periodic by simp

lemma rotated_unit:
  assumes "unit_rotation P" and "rotated P c = (X, Y, Z)"
  shows "X\<^sup>2 + Y\<^sup>2 + Z\<^sup>2 = 1"
proof -
  define l1 where "l1 = radians (fst c) + delta_lambda P"
  define ph where "ph = radians (snd c)"
  define x where "x = cos l1 * cos ph"
  define y where "y = sin l1 * cos ph"
  define z where "z = sin ph"
  define kk where "kk = z * cos_delta_phi P + x * sin_delta_phi P"
  have p1: "(cos_delta_phi P)\<^sup>2 + (sin_delta_phi P)\<^sup>2 = 1"
    and g1: "(cos_delta_gamma P)\<^sup>2 + (sin_delta_gamma P)\<^sup>2 = 1"
    using assms(1) by (simp_all add: unit_rotation_def)
  have X: "X = x * cos_delta_phi P - z * sin_delta_phi P"
    and Y: "Y = y * cos_delta_gamma P - kk * sin_delta_gamma P"
    and Z: "Z = kk * cos_delta_gamma P + y * sin_delta_gamma P"
    using assms(2) by (simp_all add: rotated_def Let_def x_def y_def z_def kk_def l1_def ph_def)
  have "x\<^sup>2 + y\<^sup>2 = ((cos l1)\<^sup>2 + (sin l1)\<^sup>2) * (cos ph)\<^sup>2"
    by (simp only: x_def y_def power_mult_distrib distrib_right)
  then have unit: "x\<^sup>2 + y\<^sup>2 + z\<^sup>2 = 1" by (simp add: z_def)
  from rotation_inverse(5)[OF p1 g1 kk_def X Y Z] unit show ?thesis by simp
qed

text \<open>The orthographic block of \<open>project\<close> in terms of the rotated vector: the point is
  visible when the vector points towards the viewer by more than \<open>cr\<close>, and its pixel
  is the vector's second and third component, scaled and translated.\<close>

lemma project_orthographic_rotated:
  assumes u: "unit_rotation P" and r: "rotated P c = (X, Y, Z)" and cr: "0 \<le> cr P"
  shows "project_orthographic P c =
           (if cr P < X then (True, Some (Y * k P + delta_x P, delta_y P - Z * k P))
            else (False, None))"
proof -
  have XYZ: "X\<^sup>2 + Y\<^sup>2 + Z\<^sup>2 = 1" using u r by (rule rotated_unit)
  have pr: "project_rotate P c = (atan2 Y X, Z)"
    by (simp add: project_rotate_rotated r)
  have Zb: "- 1 \<le> Z" "Z \<le> 1"
  proof -
    have "Z\<^sup>2 \<le> 1" using XYZ by (smt (verit) zero_le_power2)
    then have "\<bar>Z\<bar> \<le> 1" by (simp add: abs_square_le_1)
    then show "- 1 \<le> Z" "Z \<le> 1" by auto
  qed
  define r where "r = sqrt (X\<^sup>2 + Y\<^sup>2)"
  have cZ: "cos (arcsin Z) = r"
  proof -
    have "1 - Z\<^sup>2 = X\<^sup>2 + Y\<^sup>2" using XYZ by simp
    then show ?thesis using Zb by (simp add: cos_arcsin r_def)
  qed
  have sZ: "sin (arcsin Z) = Z" using Zb by simp
  have asZ: "asin (Fin Z) = Fin (arcsin Z)" using Zb by (simp add: asin_Fin)
  have prod: "cos (atan2 Y X) * r = X \<and> sin (atan2 Y X) * r = Y"
  proof (cases "X \<noteq> 0 \<or> Y \<noteq> 0")
    case True
    have "0 < r" unfolding r_def using True by (rule sqrt_sum_pos)
    then show ?thesis using atan2_polar[OF True] by (simp add: r_def)
  next
    case False
    then show ?thesis by (simp add: r_def)
  qed
  show ?thesis
    using prod
    by (simp add: project_orthographic_def pr asZ cZ sZ isPointVisible_def Let_def mult.commute)
qed

lemma project_ortho_only:
  assumes "orthographic (mixer P)" "\<not> cylindrical (mixer P)"
    and u: "unit_rotation P" and r: "rotated P c = (X, Y, Z)" and cr: "0 \<le> cr P"
  shows "project P c =
           (if cr P < X then (Some (Y * k P + delta_x P), Some (delta_y P - Z * k P), True)
            else (None, None, False))"
  using assms(1,2) by (simp add: project_def project_orthographic_rotated[OF u r cr] Let_def)

lemma clipAngle_90 [simp]: "clipAngle 90 = 0"
  by (simp add: clipAngle_def radians_values)

lemma project_globe:
  "project globe (lng, lat) =
     (if 0 < cos (radians lng) * cos (radians lat)
      then (Some (sin (radians lng) * cos (radians lat) * (180 / pi) + 180),
            Some (180 - sin (radians lat) * (180 / pi)), True)
      else (None, None, False))"
proof -
  have m: "orthographic (mixer globe)" "\<not> cylindrical (mixer globe)"
    by (simp_all add: globe_def example_projection_def mixer_row_def)
  have u: "unit_rotation globe"
    by (simp add: unit_rotation_def globe_def example_projection_def)
  have r: "rotated globe (lng, lat) =
      (cos (radians lng) * cos (radians lat), sin (radians lng) * cos (radians lat), sin (radians lat))"
    by (simp add: rotated_def globe_def example_projection_def Let_def)
  have c: "0 \<le> cr globe" by (simp add: globe_def example_projection_def)
  show ?thesis
    unfolding project_ortho_only[OF m u r c]
    by (simp add: globe_def example_projection_def)
qed

lemma visible_at_globe:
  "visible_at globe (lng, lat) = (0 < cos (radians lng) * cos (radians lat))"
  by (simp add: visible_at_def project_globe)

lemma visible_at_globe_front:
  assumes "\<bar>lng\<bar> < 90" "\<bar>lat\<bar> < 90"
  shows "visible_at globe (lng, lat)"
  using radians_abs_less_90[OF assms(1)] radians_abs_less_90[OF assms(2)]
  by (simp add: visible_at_globe cos_gt_zero_pi)

lemma radians_120: "radians 120 = 2 * pi / 3"
  by (simp add: radians_def)

lemma invisible_at_globe_120: "\<not> visible_at globe (120, 0)"
  by (simp add: visible_at_globe radians_120 cos_120 radians_def)

section \<open>The bridging arc\<close>

lemma val_add: "finite_val a = Some x \<Longrightarrow> finite_val b = Some y \<Longrightarrow> finite_val (jadd a b) = Some (x + y)"
  by (cases a; cases b) auto

lemma val_mul: "finite_val a = Some x \<Longrightarrow> finite_val b = Some y \<Longrightarrow> finite_val (jmul a b) = Some (x * y)"
  by (cases a; cases b) (auto simp: jmul_def zero_of_def)

lemma val_div:
  "finite_val a = Some x \<Longrightarrow> finite_val b = Some y \<Longrightarrow> y \<noteq> 0 \<Longrightarrow> finite_val (jdiv a b) = Some (x / y)"
  by (cases a; cases b) (auto simp: jdiv_def zero_of_def)

lemma val_cos: "finite_val a = Some x \<Longrightarrow> Math_cos a = Fin (cos x)"
  by (cases a) auto

lemma val_sin: "finite_val a = Some x \<Longrightarrow> finite_val (Math_sin a) = Some (sin x)"
  by (cases a) auto

lemma val_atan: "finite_val a = Some x \<Longrightarrow> finite_val (Math_atan a) = Some (arctan x)"
  by (cases a) auto

text \<open>The angle that \<open>extendToCircumference\<close> computes for a point off the centre.\<close>

lemma extend_theta:
  assumes "x1 \<noteq> 0 \<or> y1 \<noteq> 0"
  shows "\<exists>th. finite_val (let tantheta = jdiv (Fin y1) (Fin x1); theta = Math_atan tantheta
                in if jlt (Fin x1) (Fin 0) then jadd theta (Fin pi) else theta) = Some th \<and>
              cos th = x1 / sqrt (x1\<^sup>2 + y1\<^sup>2) \<and> sin th = y1 / sqrt (x1\<^sup>2 + y1\<^sup>2)"
proof -
  consider "0 < x1" | "x1 < 0" | "x1 = 0" "0 < y1" | "x1 = 0" "y1 < 0"
    using assms by fastforce
  then show ?thesis
  proof cases
    case 1
    then have v: "finite_val (jdiv (Fin y1) (Fin x1)) = Some (y1 / x1)" by (simp add: val_div)
    show ?thesis using 1 val_atan[OF v] arctan_polar[of x1 y1] by simp
  next
    case 2
    then have v: "finite_val (jdiv (Fin y1) (Fin x1)) = Some (y1 / x1)" by (simp add: val_div)
    have "finite_val (jadd (Math_atan (jdiv (Fin y1) (Fin x1))) (Fin pi)) = Some (arctan (y1 / x1) + pi)"
      using val_atan[OF v] by (simp add: val_add)
    then show ?thesis using 2 arctan_polar[of x1 y1] by simp
  next
    case 3
    then show ?thesis by (intro exI[of _ "pi / 2"]) (simp add: jdiv_def inf_of_def)
  next
    case 4
    then show ?thesis by (intro exI[of _ "- (pi / 2)"]) (simp add: jdiv_def inf_of_def)
  qed
qed


lemma extendToCircumference_value:
  assumes "p \<noteq> ctr"
  shows "\<exists>jt jx jy th.
           extendToCircumference (Fin (fst p), Fin (snd p)) (Fin (fst ctr), Fin (snd ctr)) (Fin r) =
             (jt, (jx, jy)) \<and>
           finite_val jt = Some th \<and>
           cos th = (fst p - fst ctr) / dist_from ctr p \<and>
           sin th = (snd p - snd ctr) / dist_from ctr p \<and>
           finite_val jx = Some (fst (on_circle ctr r p)) \<and>
           finite_val jy = Some (snd (on_circle ctr r p))"
proof -
  define x1 where "x1 = fst p - fst ctr"
  define y1 where "y1 = snd p - snd ctr"
  have nz: "x1 \<noteq> 0 \<or> y1 \<noteq> 0" using assms by (auto simp: x1_def y1_def prod_eq_iff)
  define jt where "jt = (let tantheta = jdiv (Fin y1) (Fin x1); theta = Math_atan tantheta
                in if jlt (Fin x1) (Fin 0) then jadd theta (Fin pi) else theta)"
  from extend_theta[OF nz] obtain th where
    th: "finite_val jt = Some th" and c: "cos th = x1 / sqrt (x1\<^sup>2 + y1\<^sup>2)"
    and s: "sin th = y1 / sqrt (x1\<^sup>2 + y1\<^sup>2)"
    unfolding jt_def by blast
  define jx where "jx = jadd (jmul (Math_cos jt) (Fin r)) (Fin (fst ctr))"
  define jy where "jy = jadd (jmul (Math_sin jt) (Fin r)) (Fin (snd ctr))"
  have e: "extendToCircumference (Fin (fst p), Fin (snd p)) (Fin (fst ctr), Fin (snd ctr)) (Fin r) =
      (jt, (jx, jy))"
    by (simp add: extendToCircumference_def Let_def jt_def jx_def jy_def x1_def y1_def)
  have d: "dist_from ctr p = sqrt (x1\<^sup>2 + y1\<^sup>2)" by (simp add: dist_from_def x1_def y1_def)
  have vx: "finite_val jx = Some (fst (on_circle ctr r p))"
    unfolding jx_def using val_add[OF val_mul[of "Math_cos jt" "cos th" "Fin r" r], of "Fin (fst ctr)" "fst ctr"]
    by (simp add: val_cos[OF th] on_circle_def d c x1_def mult.commute)
  have vy: "finite_val jy = Some (snd (on_circle ctr r p))"
    unfolding jy_def using val_add[OF val_mul[OF val_sin[OF th], of "Fin r" r], of "Fin (snd ctr)" "snd ctr"]
    by (simp add: on_circle_def d s y1_def mult.commute)
  from e th c s vx vy show ?thesis unfolding d x1_def y1_def by blast
qed

lemma findTangent_value:
  assumes tb: "finite_val jb = Some thb" and tc: "finite_val jc = Some thc"
    and nz: "cos ((thc - thb) / 2) \<noteq> 0"
  shows "\<exists>jx jy. findTangent (jb, pb) (jc, pc) (Fin (fst ctr), Fin (snd ctr)) (Fin r) = (jx, jy) \<and>
           finite_val jx = Some (fst ctr + r / cos ((thc - thb) / 2) * cos (thb + (thc - thb) / 2)) \<and>
           finite_val jy = Some (snd ctr + r / cos ((thc - thb) / 2) * sin (thb + (thc - thb) / 2))"
proof -
  have neg: "finite_val (jneg jb) = Some (- thb)" using tb by (cases jb) (auto split: if_splits)
  have dt: "finite_val (jsub jc jb) = Some (thc - thb)"
    unfolding jsub_def using val_add[OF tc neg] by simp
  have h: "finite_val (jdiv (jsub jc jb) (Fin 2)) = Some ((thc - thb) / 2)"
    using val_div[OF dt, of "Fin 2" 2] by simp
  have t3: "finite_val (jadd jb (jdiv (jsub jc jb) (Fin 2))) = Some (thb + (thc - thb) / 2)"
    using val_add[OF tb h] .
  have r3: "finite_val (jdiv (Fin r) (Math_cos (jdiv (jsub jc jb) (Fin 2)))) =
      Some (r / cos ((thc - thb) / 2))"
    using val_div[of "Fin r" r "Fin (cos ((thc - thb) / 2))"] nz by (simp add: val_cos[OF h])
  have x: "finite_val (jadd (Fin (fst ctr)) (jmul (jdiv (Fin r) (Math_cos (jdiv (jsub jc jb) (Fin 2))))
        (Math_cos (jadd jb (jdiv (jsub jc jb) (Fin 2)))))) =
      Some (fst ctr + r / cos ((thc - thb) / 2) * cos (thb + (thc - thb) / 2))"
    using val_add[OF _ val_mul[OF r3, of "Math_cos (jadd jb (jdiv (jsub jc jb) (Fin 2)))"
        "cos (thb + (thc - thb) / 2)"], of "Fin (fst ctr)" "fst ctr"]
    by (simp add: val_cos[OF t3])
  have y: "finite_val (jadd (Fin (snd ctr)) (jmul (jdiv (Fin r) (Math_cos (jdiv (jsub jc jb) (Fin 2))))
        (Math_sin (jadd jb (jdiv (jsub jc jb) (Fin 2)))))) =
      Some (snd ctr + r / cos ((thc - thb) / 2) * sin (thb + (thc - thb) / 2))"
    using val_add[OF _ val_mul[OF r3 val_sin[OF t3]], of "Fin (snd ctr)" "snd ctr"]
    by simp
  show ?thesis using x y by (simp add: findTangent_def Let_def)
qed


lemma cos_sin_shift:
  fixes t h :: real
  shows "cos t * cos (t + h) + sin t * sin (t + h) = cos h"
  using sin_cos_squared_add3[of t] unfolding cos_add sin_add by algebra

lemma tangent_point:
  fixes r t h :: real
  assumes "cos h \<noteq> 0"
  shows "(r / cos h * cos (t + h) - r * cos t) * (r * cos t) +
         (r / cos h * sin (t + h) - r * sin t) * (r * sin t) = 0"
proof -
  define q where "q = r / cos h"
  define c' where "c' = cos (t + h)"
  define s' where "s' = sin (t + h)"
  have q: "q * cos h = r" using assms by (simp add: q_def)
  have i: "cos t * c' + sin t * s' = cos h" unfolding c'_def s'_def by (rule cos_sin_shift)
  have "(q * c' - r * cos t) * (r * cos t) + (q * s' - r * sin t) * (r * sin t) =
        r * (q * (cos t * c' + sin t * s')) - r * r * (cos t * cos t + sin t * sin t)"
    by (simp only: algebra_simps)
  also have "\<dots> = r * (q * cos h) - r * r * 1"
    by (simp only: i sin_cos_squared_add3)
  also have "\<dots> = 0" by (simp add: q)
  finally show ?thesis unfolding q_def c'_def s'_def .
qed

lemma arcGap_bridge:
  assumes a: "pixel_xy a = Some pa" and d: "pixel_xy d = Some pd"
    and na: "pa \<noteq> ctr" and nd: "pd \<noteq> ctr" and no: "\<not> opposite ctr pa pd"
  shows "bridge_ok ctr r pa pd (arcGap (Some a) (Some d) ctr r)"
proof -
  from a have a0: "at0 (Some a) = Fin (fst pa)" "at1 (Some a) = Fin (snd pa)"
    by (auto simp: pixel_xy_def split: prod.splits option.splits)
  from d have d0: "at0 (Some d) = Fin (fst pd)" "at1 (Some d) = Fin (snd pd)"
    by (auto simp: pixel_xy_def split: prod.splits option.splits)
  from extendToCircumference_value[OF na, of r] obtain jtb jax jay thb where
    eb: "extendToCircumference (Fin (fst pa), Fin (snd pa)) (Fin (fst ctr), Fin (snd ctr)) (Fin r) =
      (jtb, (jax, jay))"
    and tb: "finite_val jtb = Some thb"
    and cb: "cos thb = (fst pa - fst ctr) / dist_from ctr pa"
    and sb: "sin thb = (snd pa - snd ctr) / dist_from ctr pa"
    and vax: "finite_val jax = Some (fst (on_circle ctr r pa))"
    and vay: "finite_val jay = Some (snd (on_circle ctr r pa))" by blast
  from extendToCircumference_value[OF nd, of r] obtain jtc jdx jdy thc where
    ec: "extendToCircumference (Fin (fst pd), Fin (snd pd)) (Fin (fst ctr), Fin (snd ctr)) (Fin r) =
      (jtc, (jdx, jdy))"
    and tc: "finite_val jtc = Some thc"
    and cc: "cos thc = (fst pd - fst ctr) / dist_from ctr pd"
    and sc: "sin thc = (snd pd - snd ctr) / dist_from ctr pd"
    and vdx: "finite_val jdx = Some (fst (on_circle ctr r pd))"
    and vdy: "finite_val jdy = Some (snd (on_circle ctr r pd))" by blast
  define h where "h = (thc - thb) / 2"
  have da: "0 < dist_from ctr pa" unfolding dist_from_def
    using na by (intro sqrt_sum_pos) (auto simp: prod_eq_iff)
  have dd: "0 < dist_from ctr pd" unfolding dist_from_def
    using nd by (intro sqrt_sum_pos) (auto simp: prod_eq_iff)
  have hz: "cos h \<noteq> 0"
  proof
    assume z: "cos h = 0"
    have "thc - thb = 2 * h" unfolding h_def by argo
    then have "cos (thc - thb) = cos (2 * h)" by simp
    also have "\<dots> = - 1" using z by (simp add: cos_double_cos)
    finally have "cos thc * cos thb + sin thc * sin thb = - 1" by (simp add: cos_diff)
    then have "((fst pa - fst ctr) * (fst pd - fst ctr) + (snd pa - snd ctr) * (snd pd - snd ctr)) /
        (dist_from ctr pa * dist_from ctr pd) = - 1"
      by (simp add: cb sb cc sc add_divide_distrib mult.commute)
    then have "opposite ctr pa pd" using da dd by (simp add: opposite_def field_simps)
    with no show False by simp
  qed
  from findTangent_value[OF tb tc, of "(jax, jay)" "(jdx, jdy)" ctr r] hz obtain jex jey where
    ft: "findTangent (jtb, (jax, jay)) (jtc, (jdx, jdy)) (Fin (fst ctr), Fin (snd ctr)) (Fin r) = (jex, jey)"
    and vex: "finite_val jex = Some (fst ctr + r / cos h * cos (thb + h))"
    and vey: "finite_val jey = Some (snd ctr + r / cos h * sin (thb + h))"
    unfolding h_def by blast
  have ag: "arcGap (Some a) (Some d) ctr r = [LineTo jax jay, ArcTo jex jey jdx jdy (Fin r)]"
    by (simp add: arcGap_def a0 d0 eb ec ft Let_def)
  have A: "on_circle ctr r pa = (fst ctr + r * cos thb, snd ctr + r * sin thb)"
    by (simp add: on_circle_def cb sb)
  have D: "on_circle ctr r pd = (fst ctr + r * cos thc, snd ctr + r * sin thc)"
    by (simp add: on_circle_def cc sc)
  have ta: "tangent_at ctr (on_circle ctr r pa) (fst ctr + r / cos h * cos (thb + h),
      snd ctr + r / cos h * sin (thb + h))"
    using tangent_point[OF hz, of r thb] by (simp add: tangent_at_def A)
  have thc: "thb + h = thc + (- h)" unfolding h_def by argo
  have hz': "cos (- h) \<noteq> 0" using hz by simp
  have td: "tangent_at ctr (on_circle ctr r pd) (fst ctr + r / cos h * cos (thb + h),
      snd ctr + r / cos h * sin (thb + h))"
    unfolding thc using tangent_point[OF hz', of r thc] by (simp add: tangent_at_def D)
  show ?thesis
    unfolding ag using ta td
    by (simp add: vax vay vdx vdy vex vey)
qed

text \<open>
  Claim C4. Let a ring or line consist of a run of visible coordinates \<open>a # vis1\<close>, then a
  run of invisible coordinates \<open>b # hid\<close>, then a run of visible coordinates \<open>d # vis2\<close>,
  and let \<open>forcePoint\<close> be off. Let the last visible point before the gap and the first
  after it have the positions \<open>pa\<close> and \<open>pd\<close>, neither of them the centre of the clip
  circle and the two not opposite. Traversed as a polygon ring, the sink receives a
  move-to for \<open>a\<close>, a line-to for each coordinate of \<open>vis1\<close>, then the bridge: a line-to to
  the point of the circle below \<open>pa\<close> and one \<open>arcTo\<close> along the circle to the point of the
  circle below \<open>pd\<close>; then a line-to for \<open>d\<close> and a line-to for each coordinate of
  \<open>vis2\<close>. Exactly one of these calls is an \<open>arcTo\<close>. Traversed as a line, the sink
  receives no \<open>arcTo\<close>, and \<open>d\<close> is emitted with a move-to.
\<close>

theorem gap_bridged_by_arc:
  assumes fp: "\<not> forcePoint s"
    and v1: "list_all (visible_at (projection s)) (a # vis1)"
    and iv: "list_all (\<lambda>c. \<not> visible_at (projection s) c) (b # hid)"
    and v2: "list_all (visible_at (projection s)) (d # vis2)"
    and pa: "pixel_xy (project (projection s) (last (a # vis1))) = Some pa"
    and pd: "pixel_xy (project (projection s) d) = Some pd"
    and na: "pa \<noteq> pt (projection s)" and nd: "pd \<noteq> pt (projection s)"
    and no: "\<not> opposite (pt (projection s)) pa pd"
  shows "(\<exists>s' bridge.
            iteratePolygon (GeoIteratorClip_prototype n)
                 (Rings (a # vis1 @ b # hid @ d # vis2) others) s = Inr (JTrue, s') \<and>
            calls (ctx s') = calls (ctx s) @
                moveTo (project (projection s) a) #
                map (\<lambda>c. lineTo (project (projection s) c)) vis1 @
                bridge @
                lineTo (project (projection s) d) #
                map (\<lambda>c. lineTo (project (projection s) c)) vis2 \<and>
            bridge_ok (pt (projection s)) (k (projection s)) pa pd bridge \<and>
            length (filter is_arcTo (drop (length (calls (ctx s))) (calls (ctx s')))) = 1) \<and>
         (\<exists>s'. iterateLine (GeoIteratorClip_prototype n) (a # vis1 @ b # hid @ d # vis2) s =
                 Inr (JTrue, s') \<and>
              calls (ctx s') = calls (ctx s) @
                moveTo (project (projection s) a) #
                map (\<lambda>c. lineTo (project (projection s) c)) vis1 @
                moveTo (project (projection s) d) #
                map (\<lambda>c. lineTo (project (projection s) c)) vis2 \<and>
              filter is_arcTo (drop (length (calls (ctx s))) (calls (ctx s'))) = [])"
proof -
  let ?P = "projection s"
  let ?bridge = "arcGap (Some (last (map (project ?P) (a # vis1)))) (Some (project ?P d))
      (pt ?P) (k ?P)"
  have l: "last (map (project ?P) (a # vis1)) = project ?P (last (a # vis1))"
    by (rule last_map) simp
  have b: "bridge_ok (pt ?P) (k ?P) pa pd ?bridge"
    unfolding l using pa pd na nd no by (rule arcGap_bridge)
  from one_gap_in_ring_and_line[OF fp v1 iv v2, of n others]
  obtain s1 s2 where
    r1: "iteratePolygon (GeoIteratorClip_prototype n)
                 (Rings (a # vis1 @ b # hid @ d # vis2) others) s = Inr (JTrue, s1)"
    and c1: "calls (ctx s1) = calls (ctx s) @
                moveTo (project ?P a) # map (\<lambda>c. lineTo (project ?P c)) vis1 @
                ?bridge @ lineTo (project ?P d) # map (\<lambda>c. lineTo (project ?P c)) vis2"
    and n1: "length (filter is_arcTo (drop (length (calls (ctx s))) (calls (ctx s1)))) = 1"
    and r2: "iterateLine (GeoIteratorClip_prototype n) (a # vis1 @ b # hid @ d # vis2) s =
                 Inr (JTrue, s2)"
    and c2: "calls (ctx s2) = calls (ctx s) @
                moveTo (project ?P a) # map (\<lambda>c. lineTo (project ?P c)) vis1 @
                moveTo (project ?P d) # map (\<lambda>c. lineTo (project ?P c)) vis2"
    and n2: "filter is_arcTo (drop (length (calls (ctx s))) (calls (ctx s2))) = []"
    by blast
  from r1 c1 b n1 r2 c2 n2 show ?thesis by blast
qed

lemma radians_30: "radians 30 = pi / 6"
  by (simp add: radians_def)

lemma project_globe_30_0: "project globe (30, 0) = (Some (90 / pi + 180), Some 180, True)"
  by (simp add: project_globe radians_30 sin_30 cos_30 radians_def)

lemma project_globe_0_30: "project globe (0, 30) = (Some 180, Some (180 - 90 / pi), True)"
  by (simp add: project_globe radians_30 sin_30 cos_30 radians_def)

theorem gap_bridged_by_arc_witness:
  "\<not> forcePoint (example_clip globe) \<and>
   list_all (visible_at (projection (example_clip globe))) [(30, 0)] \<and>
   list_all (\<lambda>c. \<not> visible_at (projection (example_clip globe)) c) [(180, 0)] \<and>
   list_all (visible_at (projection (example_clip globe))) [(0, 30)] \<and>
   pixel_xy (project (projection (example_clip globe)) (30, 0)) = Some (90 / pi + 180, 180) \<and>
   pixel_xy (project (projection (example_clip globe)) (0, 30)) = Some (180, 180 - 90 / pi) \<and>
   pt (projection (example_clip globe)) = (180, 180) \<and>
   \<not> opposite (180, 180) (90 / pi + 180, 180) (180, 180 - 90 / pi) \<and>
   (\<exists>s' bridge.
      iteratePolygon (GeoIteratorClip_prototype 0) (Rings [(30, 0), (180, 0), (0, 30)] [])
        (example_clip globe) = Inr (JTrue, s') \<and>
      calls (ctx s') =
        moveTo (Some (90 / pi + 180), Some 180, True) # bridge @
        [lineTo (Some 180, Some (180 - 90 / pi), True)] \<and>
      bridge_ok (180, 180) (180 / pi) (90 / pi + 180, 180) (180, 180 - 90 / pi) bridge)"
proof -
  have p: "projection (example_clip globe) = globe" by (simp add: example_clip_def)
  have c: "calls (ctx (example_clip globe)) = []" by (simp add: example_clip_def)
  have g: "pt globe = (180, 180)" "k globe = 180 / pi"
    by (simp_all add: globe_def example_projection_def)
  have h1: "\<not> forcePoint (example_clip globe)" by (simp add: example_clip_def)
  have h2: "list_all (visible_at (projection (example_clip globe))) ((30, 0) # [])"
    by (simp add: p visible_at_globe_front)
  have h3: "list_all (\<lambda>c. \<not> visible_at (projection (example_clip globe)) c) ((180, 0) # [])"
    by (simp add: p globe_visible)
  have h4: "list_all (visible_at (projection (example_clip globe))) ((0, 30) # [])"
    by (simp add: p visible_at_globe_front)
  have h5: "pixel_xy (project (projection (example_clip globe)) (last ((30, 0) # []))) =
      Some (90 / pi + 180, 180)"
    by (simp add: p project_globe_30_0 pixel_xy_def)
  have h6: "pixel_xy (project (projection (example_clip globe)) (0, 30)) = Some (180, 180 - 90 / pi)"
    by (simp add: p project_globe_0_30 pixel_xy_def)
  have h7: "(90 / pi + 180, 180) \<noteq> pt (projection (example_clip globe))"
    by (simp add: p g)
  have h8: "(180, 180 - 90 / pi) \<noteq> pt (projection (example_clip globe))"
    by (simp add: p g)
  have o: "\<not> opposite (180, 180) (90 / pi + 180, 180) (180, 180 - 90 / pi)"
    by (simp add: opposite_def dist_from_def)
  have h9: "\<not> opposite (pt (projection (example_clip globe))) (90 / pi + 180, 180) (180, 180 - 90 / pi)"
    using o by (simp add: p g)
  from gap_bridged_by_arc[OF h1 h2 h3 h4 h5 h6 h7 h8 h9, of 0 "[]", THEN conjunct1]
  obtain s' bridge where
    r: "iteratePolygon (GeoIteratorClip_prototype 0) (Rings [(30, 0), (180, 0), (0, 30)] [])
        (example_clip globe) = Inr (JTrue, s')"
    and cc: "calls (ctx s') = calls (ctx (example_clip globe)) @
        moveTo (project (projection (example_clip globe)) (30, 0)) #
        map (\<lambda>c. lineTo (project (projection (example_clip globe)) c)) [] @ bridge @
        lineTo (project (projection (example_clip globe)) (0, 30)) #
        map (\<lambda>c. lineTo (project (projection (example_clip globe)) c)) []"
    and b: "bridge_ok (pt (projection (example_clip globe))) (k (projection (example_clip globe)))
        (90 / pi + 180, 180) (180, 180 - 90 / pi) bridge"
    by auto
  have cc': "calls (ctx s') =
        moveTo (Some (90 / pi + 180), Some 180, True) # bridge @
        [lineTo (Some 180, Some (180 - 90 / pi), True)]"
    using cc by (simp add: c p project_globe_30_0 project_globe_0_30)
  have b': "bridge_ok (180, 180) (180 / pi) (90 / pi + 180, 180) (180, 180 - 90 / pi) bridge"
    using b by (simp add: p g)
  from r cc' b' have "\<exists>s' bridge.
      iteratePolygon (GeoIteratorClip_prototype 0) (Rings [(30, 0), (180, 0), (0, 30)] [])
        (example_clip globe) = Inr (JTrue, s') \<and>
      calls (ctx s') =
        moveTo (Some (90 / pi + 180), Some 180, True) # bridge @
        [lineTo (Some 180, Some (180 - 90 / pi), True)] \<and>
      bridge_ok (180, 180) (180 / pi) (90 / pi + 180, 180) (180, 180 - 90 / pi) bridge"
    by blast
  moreover have "pixel_xy (project (projection (example_clip globe)) (30, 0)) = Some (90 / pi + 180, 180)"
    using h5 by simp
  moreover have "pt (projection (example_clip globe)) = (180, 180)" by (simp add: p g)
  ultimately show ?thesis using h1 h2 h3 h4 h6 o by simp
qed

section \<open>A ring that ends in a gap\<close>

lemma polygonEnd_in_gap: "in_gap s q \<Longrightarrow> clip_polygonEnd r s = Inr s"
  by (auto simp: in_gap_def clip_polygonEnd_def Let_def)



section \<open>The passes of the cylindrical stitch\<close>

lemma clip_switch_level:
  "iterateGeometry_switch (GeoIteratorClip_prototype n) g s =
   iterateGeometry_switch (GeoIteratorClip_prototype 0) g s"
proof -
  have p: "iteratePolygon (GeoIteratorClip_prototype n) = iteratePolygon (GeoIteratorClip_prototype 0)"
    unfolding fun_eq_iff iteratePolygon_def clip_proto_fields by (intro allI refl)
  have l: "iterateLine (GeoIteratorClip_prototype n) = iterateLine (GeoIteratorClip_prototype 0)"
    unfolding fun_eq_iff iterateLine_def clip_proto_fields by (intro allI refl)
  show ?thesis
    unfolding iterateGeometry_switch_def p l clip_proto_fields by (rule refl)
qed

lemma whileBoo_kept:
  assumes step: "\<And>x i s b s'. f x i s = Inr (b, s') \<Longrightarrow> obs s' = obs s"
    and run: "whileBoo f xs i b0 s = Inr (b, s')"
  shows "obs s' = obs s"
  using run
proof (induction xs arbitrary: i b0 s)
  case Nil
  then show ?case by simp
next
  case (Cons x xs)
  show ?case
  proof (cases "truthy b0")
    case False
    with Cons.prems show ?thesis by simp
  next
    case True
    show ?thesis
    proof (cases "f x (i + 1) s")
      case (Inl e)
      with True Cons.prems show ?thesis by simp
    next
      case (Inr r)
      obtain b1 s1 where r: "r = (b1, s1)" by (cases r)
      from Inr r have "obs s1 = obs s" by (auto dest: step)
      moreover from True Inr r Cons.prems have "whileBoo f xs (i + 1) b1 s1 = Inr (b, s')" by simp
      then have "obs s' = obs s1" by (rule Cons.IH)
      ultimately show ?thesis by simp
    qed
  qed
qed

lemma whileBoo_never:
  assumes "\<And>x i s. f x i s \<noteq> Inl e"
  shows "whileBoo f xs i b s \<noteq> Inl e"
proof (induction xs arbitrary: i b s)
  case Nil
  then show ?case by simp
next
  case (Cons x xs)
  show ?case using assms[of x "i + 1" s] Cons.IH
    by (auto split: sum.splits)
qed

lemma whileBoo_total:
  assumes step: "\<And>x i s. I s \<Longrightarrow> \<exists>s'. f x i s = Inr (JTrue, s') \<and> I s'"
    and "I s"
  shows "\<exists>s'. whileBoo f xs i JTrue s = Inr (JTrue, s') \<and> I s'"
  using assms(2)
proof (induction xs arbitrary: i s)
  case Nil
  then show ?case by simp
next
  case (Cons x xs)
  from step[OF Cons.prems, of x "i + 1"] obtain s1 where
    a: "f x (i + 1) s = Inr (JTrue, s1)" and b: "I s1" by blast
  from Cons.IH[OF b, of "i + 1"] a show ?case by simp
qed

lemma drawPoint_kept: "drawPoint p w i s = Inr s' \<Longrightarrow> kept s' = kept s"
  by (auto simp: drawPoint_def kept_def emit_def Let_def split: option.splits if_splits)

lemma clip_doPoint_kept:
  assumes "clip_doPoint c w i s = Inr (b, s')"
  shows "kept s' = kept s"
  using assms
  by (auto simp: clip_doPoint_def kept_def Let_def emit_def drawPoint_def bindE_def
      split: if_splits option.splits sum.splits)

lemma clip_polygonStart_kept: "clip_polygonStart r s = Inr (b, s') \<Longrightarrow> kept s' = kept s"
  by (auto simp: clip_polygonStart_def kept_def)

lemma clip_polygonEnd_kept: "clip_polygonEnd r s = Inr s' \<Longrightarrow> kept s' = kept s"
  by (auto simp: clip_polygonEnd_def kept_def emit_def Let_def split: if_splits)

lemma clip_iteratePolygon_kept:
  assumes "iteratePolygon (GeoIteratorClip_prototype n) pg s = Inr (b, s')"
  shows "kept s' = kept s"
proof -
  obtain r others where pg: "pg = Rings r others" by (cases pg)
  let ?s1 = "s\<lparr>polygon := Some pg\<rparr>"
  have k1: "kept ?s1 = kept s" by (simp add: kept_def)
  have st: "clip_polygonStart r ?s1 = Inr (JTrue, snd (projr (clip_polygonStart r ?s1)))"
    by (simp add: clip_polygonStart_def)
  define s2 where "s2 = snd (projr (clip_polygonStart r ?s1))"
  have s2: "clip_polygonStart r ?s1 = Inr (JTrue, s2)" using st by (simp add: s2_def)
  have k2: "kept s2 = kept ?s1" using s2 by (rule clip_polygonStart_kept)
  from assms obtain b3 s3 where
    l: "whileBoo (\<lambda>c i. clip_doPoint c WPoly i) r (- 1) JTrue s2 = Inr (b3, s3)"
    and e: "clip_polygonEnd r s3 = Inr s'"
    using s2 unfolding iteratePolygon_def pg clip_proto_fields
    by (auto simp: bindE_def split: sum.splits)
  have k3: "kept s3 = kept s2"
    using l by (rule whileBoo_kept[rotated]) (rule clip_doPoint_kept)
  have k4: "kept s' = kept s3" using e by (rule clip_polygonEnd_kept)
  from k1 k2 k3 k4 show ?thesis by simp
qed

lemma clip_iterateLine_kept:
  assumes "iterateLine (GeoIteratorClip_prototype n) r s = Inr (b, s')"
  shows "kept s' = kept s"
proof -
  let ?s1 = "s\<lparr>line := Some r\<rparr>"
  have k1: "kept ?s1 = kept s" by (simp add: kept_def)
  define s2 where "s2 = snd (projr (clip_lineStart r ?s1))"
  have s2: "clip_lineStart r ?s1 = Inr (JTrue, s2)"
    by (simp add: s2_def clip_lineStart_def clip_polygonStart_def)
  have k2: "kept s2 = kept ?s1"
    using s2 by (auto simp: clip_lineStart_def clip_polygonStart_def kept_def)
  from assms obtain b3 where
    l: "whileBoo (\<lambda>c i. clip_doPoint c WLine i) r (- 1) JTrue s2 = Inr (b3, s')"
    using s2 unfolding iterateLine_def clip_proto_fields
    by (auto simp: bindE_def split: sum.splits)
  have k3: "kept s' = kept s2"
    using l by (rule whileBoo_kept[rotated]) (rule clip_doPoint_kept)
  from k1 k2 k3 show ?thesis by simp
qed

lemma clip_switch_kept:
  assumes "iterateGeometry_switch (GeoIteratorClip_prototype n) g s = Inr (b, s')"
  shows "kept s' = kept s"
proof (cases g)
  case (Point c)
  with assms show ?thesis
    unfolding iterateGeometry_switch_def clip_proto_fields by (auto dest: clip_doPoint_kept)
next
  case (MultiPoint cs)
  with assms have "whileBoo (\<lambda>c i. clip_doPoint c WPoint i) cs (- 1) JTrue s = Inr (b, s')"
    unfolding iterateGeometry_switch_def clip_proto_fields by simp
  then show ?thesis by (rule whileBoo_kept[rotated]) (rule clip_doPoint_kept)
next
  case (LineString l)
  with assms show ?thesis
    unfolding iterateGeometry_switch_def by (auto dest: clip_iterateLine_kept)
next
  case (MultiLineString ls)
  with assms have "whileBoo (\<lambda>l i. iterateLine (GeoIteratorClip_prototype n) l) ls (- 1) JTrue s = Inr (b, s')"
    unfolding iterateGeometry_switch_def by simp
  then show ?thesis by (rule whileBoo_kept[rotated]) (rule clip_iterateLine_kept)
next
  case (Polygon p)
  with assms show ?thesis
    unfolding iterateGeometry_switch_def by (auto dest: clip_iteratePolygon_kept)
next
  case (MultiPolygon ps)
  with assms have "whileBoo (\<lambda>p i. iteratePolygon (GeoIteratorClip_prototype n) p) ps (- 1) JTrue s = Inr (b, s')"
    unfolding iterateGeometry_switch_def by simp
  then show ?thesis by (rule whileBoo_kept[rotated]) (rule clip_iteratePolygon_kept)
qed

lemma clip_pass_kept:
  assumes "clip_pass g d s = Inr (b, s')"
  shows "pass s' = d" "projection s' = projection s" "forcePoint s' = forcePoint s"
    "palette s' = palette s" "paletteNdx s' = paletteNdx s"
  using clip_switch_kept[OF assms[unfolded clip_pass_def]] by (simp_all add: kept_def)

text \<open>The only exception of a pass is the \<open>TypeError\<close> of \<open>drawPoint\<close>.\<close>

lemma clip_doPoint_never: "clip_doPoint c w i s \<noteq> Inl NestingBound"
  by (auto simp: clip_doPoint_def Let_def drawPoint_def bindE_def
      split: if_splits option.splits sum.splits)

lemma clip_iteratePolygon_never: "iteratePolygon (GeoIteratorClip_prototype n) pg s \<noteq> Inl NestingBound"
proof -
  obtain r others where pg: "pg = Rings r others" by (cases pg)
  have l: "whileBoo (\<lambda>c i. clip_doPoint c WPoly i) r (- 1) JTrue t \<noteq> Inl NestingBound" for t
    by (rule whileBoo_never) (rule clip_doPoint_never)
  show ?thesis
    unfolding iteratePolygon_def pg clip_proto_fields
    using l
    by (auto simp: bindE_def clip_polygonStart_def clip_polygonEnd_def Let_def split: sum.splits if_splits)
qed

lemma clip_iterateLine_never: "iterateLine (GeoIteratorClip_prototype n) r s \<noteq> Inl NestingBound"
proof -
  have l: "whileBoo (\<lambda>c i. clip_doPoint c WLine i) r (- 1) JTrue t \<noteq> Inl NestingBound" for t
    by (rule whileBoo_never) (rule clip_doPoint_never)
  show ?thesis
    unfolding iterateLine_def clip_proto_fields
    using l
    by (auto simp: bindE_def clip_lineStart_def clip_polygonStart_def Let_def split: sum.splits if_splits)
qed

lemma clip_pass_never: "clip_pass g d s \<noteq> Inl NestingBound"
  unfolding clip_pass_def iterateGeometry_switch_def
  by (cases g)
     (auto simp del: GeoIteratorClip_prototype.simps
        intro!: whileBoo_never clip_iteratePolygon_never clip_iterateLine_never
        simp: clip_proto_fields clip_doPoint_never)

lemma drawable_kept: "kept s' = kept s \<Longrightarrow> drawable w s \<Longrightarrow> drawable w s'"
  by (simp add: kept_def drawable_def)

lemma drawPoint_total:
  "palette_has (palette s) (paletteNdx s) \<Longrightarrow> \<exists>s'. drawPoint p w i s = Inr s'"
  by (cases "paletteNdx s") (simp_all add: drawPoint_def Let_def)

lemma draw_step_total:
  assumes "drawable w s1"
  shows "\<exists>s'. bindE (if w = WPoint \<or> forcePoint s1 then drawPoint p w i s1
                     else if t then Inr a else Inr b) (\<lambda>s2. Inr (JTrue, f s2)) = Inr (JTrue, s')"
proof (cases "w = WPoint \<or> forcePoint s1")
  case True
  with assms have "palette_has (palette s1) (paletteNdx s1)" by (auto simp: drawable_def)
  from drawPoint_total[OF this, of p w i] True show ?thesis by auto
next
  case False
  then show ?thesis by simp
qed

lemma clip_doPoint_total:
  assumes "drawable w s"
  shows "\<exists>s'. clip_doPoint c w i s = Inr (JTrue, s') \<and> drawable w s'"
proof -
  have "\<exists>s'. clip_doPoint c w i s = Inr (JTrue, s')"
  proof (cases "snd (snd (project (projection s) c))")
    case False
    then show ?thesis by (simp add: clip_doPoint_def Let_def)
  next
    case True
    show ?thesis
      unfolding clip_doPoint_def Let_def if_P[OF True]
      by (rule draw_step_total) (use assms in \<open>auto simp add: drawable_def emit_def\<close>)
  qed
  then obtain s' where a: "clip_doPoint c w i s = Inr (JTrue, s')" by blast
  from clip_doPoint_kept[OF a] assms have "drawable w s'" by (rule drawable_kept)
  with a show ?thesis by blast
qed

lemma clip_loop_total:
  assumes "drawable w s"
  shows "\<exists>s'. whileBoo (\<lambda>c i. clip_doPoint c w i) cs i JTrue s = Inr (JTrue, s') \<and> drawable w s'"
proof (rule whileBoo_total[where I = "drawable w"])
  show "drawable w s" by (rule assms)
  show "\<exists>s'. clip_doPoint x w i s = Inr (JTrue, s') \<and> drawable w s'" if "drawable w s" for x i s
    using that by (rule clip_doPoint_total)
qed

lemma clip_iteratePolygon_total:
  assumes "drawable WPoly s"
  shows "\<exists>s'. iteratePolygon (GeoIteratorClip_prototype n) pg s = Inr (JTrue, s') \<and> drawable WPoly s'"
proof -
  obtain r others where pg: "pg = Rings r others" by (cases pg)
  let ?s1 = "s\<lparr>polygon := Some pg\<rparr>"
  define s2 where "s2 = snd (projr (clip_polygonStart r ?s1))"
  have s2: "clip_polygonStart r ?s1 = Inr (JTrue, s2)"
    by (simp add: s2_def clip_polygonStart_def)
  have "kept s2 = kept s" using clip_polygonStart_kept[OF s2] by (simp add: kept_def)
  from this assms have d2: "drawable WPoly s2" by (rule drawable_kept)
  from clip_loop_total[OF d2, of r "- 1"] obtain s3 where
    l: "whileBoo (\<lambda>c i. clip_doPoint c WPoly i) r (- 1) JTrue s2 = Inr (JTrue, s3)"
    and d3: "drawable WPoly s3" by blast
  obtain s4 where e: "clip_polygonEnd r s3 = Inr s4"
    by (cases "clip_polygonEnd r s3") (auto simp: clip_polygonEnd_def Let_def split: if_splits)
  from clip_polygonEnd_kept[OF e] d3 have d4: "drawable WPoly s4" by (rule drawable_kept)
  have "iteratePolygon (GeoIteratorClip_prototype n) pg s = Inr (JTrue, s4)"
    using s2 l e unfolding iteratePolygon_def pg clip_proto_fields by simp
  with d4 show ?thesis by blast
qed

lemma clip_iterateLine_total:
  assumes "drawable WLine s"
  shows "\<exists>s'. iterateLine (GeoIteratorClip_prototype n) r s = Inr (JTrue, s') \<and> drawable WLine s'"
proof -
  let ?s1 = "s\<lparr>line := Some r\<rparr>"
  define s2 where "s2 = snd (projr (clip_lineStart r ?s1))"
  have s2: "clip_lineStart r ?s1 = Inr (JTrue, s2)"
    by (simp add: s2_def clip_lineStart_def clip_polygonStart_def)
  have "kept s2 = kept ?s1"
    using s2 by (auto simp: clip_lineStart_def clip_polygonStart_def kept_def)
  moreover have "kept ?s1 = kept s" by (simp add: kept_def)
  ultimately have "kept s2 = kept s" by simp
  from this assms have d2: "drawable WLine s2" by (rule drawable_kept)
  from clip_loop_total[OF d2, of r "- 1"] obtain s3 where
    l: "whileBoo (\<lambda>c i. clip_doPoint c WLine i) r (- 1) JTrue s2 = Inr (JTrue, s3)"
    and d3: "drawable WLine s3" by blast
  have "iterateLine (GeoIteratorClip_prototype n) r s = Inr (JTrue, s3)"
    unfolding iterateLine_def clip_proto_fields using s2 l by simp
  with d3 show ?thesis by blast
qed

lemma can_draw_drawable:
  "can_draw g s \<Longrightarrow> drawable (if pointlike g then WPoint else WPoly) s"
  "can_draw g s \<Longrightarrow> \<not> pointlike g \<Longrightarrow> drawable WLine s"
  by (auto simp: can_draw_def drawable_def)

lemma clip_switch_total:
  assumes "can_draw g s"
  shows "\<exists>s'. iterateGeometry_switch (GeoIteratorClip_prototype n) g s = Inr (JTrue, s')"
proof (cases g)
  case (Point c)
  with can_draw_drawable(1)[OF assms] have "drawable WPoint s" by simp
  from clip_doPoint_total[OF this, of c "- 1"] Point show ?thesis
    unfolding iterateGeometry_switch_def clip_proto_fields by auto
next
  case (MultiPoint cs)
  with can_draw_drawable(1)[OF assms] have "drawable WPoint s" by simp
  from clip_loop_total[OF this, of cs "- 1"] MultiPoint show ?thesis
    unfolding iterateGeometry_switch_def clip_proto_fields by auto
next
  case (LineString l)
  with can_draw_drawable(2)[OF assms] have "drawable WLine s" by simp
  from clip_iterateLine_total[OF this, of n l] LineString show ?thesis
    unfolding iterateGeometry_switch_def by auto
next
  case (MultiLineString ls)
  with can_draw_drawable(2)[OF assms] have d: "drawable WLine s" by simp
  have "\<exists>s'. whileBoo (\<lambda>l i. iterateLine (GeoIteratorClip_prototype n) l) ls (- 1) JTrue s =
          Inr (JTrue, s') \<and> drawable WLine s'"
  proof (rule whileBoo_total[where I = "drawable WLine"])
    show "drawable WLine s" by (rule d)
    show "\<exists>s'. iterateLine (GeoIteratorClip_prototype n) x s = Inr (JTrue, s') \<and> drawable WLine s'"
      if "drawable WLine s" for x i s
      using that by (rule clip_iterateLine_total)
  qed
  with MultiLineString show ?thesis unfolding iterateGeometry_switch_def by auto
next
  case (Polygon p)
  with can_draw_drawable(1)[OF assms] have "drawable WPoly s" by simp
  from clip_iteratePolygon_total[OF this, of n p] Polygon show ?thesis
    unfolding iterateGeometry_switch_def by auto
next
  case (MultiPolygon ps)
  with can_draw_drawable(1)[OF assms] have d: "drawable WPoly s" by simp
  have "\<exists>s'. whileBoo (\<lambda>p i. iteratePolygon (GeoIteratorClip_prototype n) p) ps (- 1) JTrue s =
          Inr (JTrue, s') \<and> drawable WPoly s'"
  proof (rule whileBoo_total[where I = "drawable WPoly"])
    show "drawable WPoly s" by (rule d)
    show "\<exists>s'. iteratePolygon (GeoIteratorClip_prototype n) x s = Inr (JTrue, s') \<and> drawable WPoly s'"
      if "drawable WPoly s" for x i s
      using that by (rule clip_iteratePolygon_total)
  qed
  with MultiPolygon show ?thesis unfolding iterateGeometry_switch_def by auto
qed

lemma clip_pass_total:
  assumes "can_draw g s"
  shows "\<exists>s'. clip_pass g d s = Inr (JTrue, s') \<and> can_draw g s'"
proof -
  have "can_draw g (s\<lparr>geometry := Some g, polygon := None, line := None, pass := d\<rparr>)"
    using assms by (simp add: can_draw_def)
  from clip_switch_total[OF this, of 0] obtain s' where a: "clip_pass g d s = Inr (JTrue, s')"
    by (auto simp: clip_pass_def)
  from clip_pass_kept[OF a] assms have "can_draw g s'" by (simp add: can_draw_def)
  with a show ?thesis by blast
qed

lemma can_draw_shift [simp]: "can_draw g (shift_pt0 d s) = can_draw g s"
  by (simp add: can_draw_def shift_pt0_def)

lemma clip_geometryEnd_nostitch:
  "pass t \<noteq> 1 \<Longrightarrow> clip_geometryEnd again g t = Inr (t\<lparr>pass := pass t - 1\<rparr>)"
  by (simp add: clip_geometryEnd_def)

lemma clip_pass_shift_pass [simp]:
  "clip_pass g d (shift_pt0 x (t\<lparr>pass := e\<rparr>)) = clip_pass g d (shift_pt0 x t)"
  by (simp add: clip_pass_def shift_pt0_def)

text \<open>A call of \<open>iterateGeometry\<close> at a pass depth other than zero makes one pass.\<close>

lemma nested_pass:
  assumes "pass s \<noteq> 0"
  shows "iterateGeometry (GeoIteratorClip_prototype n) g s =
           bindE (clip_pass g (pass s + 1) s) (\<lambda>(b, t). Inr (b, t\<lparr>pass := pass s\<rparr>))"
proof (cases "clip_pass g (pass s + 1) s")
  case (Inl e)
  then have "iterateGeometry_switch (GeoIteratorClip_prototype n) g
       (s\<lparr>geometry := Some g, polygon := None, line := None, pass := pass s + 1\<rparr>) = Inl e"
    by (simp add: clip_pass_def clip_switch_level[of n])
  then show ?thesis using Inl
    by (simp add: iterateGeometry_def clip_geometryStart_def del: GeoIteratorClip_prototype.simps)
next
  case (Inr r)
  obtain b t where r: "r = (b, t)" by (cases r)
  from Inr r have sw: "iterateGeometry_switch (GeoIteratorClip_prototype n) g
       (s\<lparr>geometry := Some g, polygon := None, line := None, pass := pass s + 1\<rparr>) = Inr (b, t)"
    by (simp add: clip_pass_def clip_switch_level[of n])
  from clip_pass_kept(1)[of g "pass s + 1" s b t] Inr r have pt: "pass t = pass s + 1" by simp
  with assms have "pass t \<noteq> 1" by simp
  then have "geometryEnd (GeoIteratorClip_prototype n) g t = Inr (t\<lparr>pass := pass t - 1\<rparr>)"
    by (cases n) (simp_all add: clip_proto_geometryEnd clip_geometryEnd_nostitch
        del: GeoIteratorClip_prototype.simps)
  then show ?thesis using Inr r sw pt
    by (simp add: iterateGeometry_def clip_geometryStart_def del: GeoIteratorClip_prototype.simps)
qed

lemma clip_first_pass:
  assumes "pass s = 0"
  shows "iterateGeometry (GeoIteratorClip_prototype n) g s =
           bindE (clip_pass g 1 s) (\<lambda>(b, t). bindE (geometryEnd (GeoIteratorClip_prototype n) g t)
              (\<lambda>u. Inr (b, u)))"
  using assms
  by (simp add: iterateGeometry_def clip_geometryStart_def clip_pass_def clip_switch_level[of n]
      del: GeoIteratorClip_prototype.simps)

lemma clip_geometryEnd_stitch:
  assumes "pass t = 1" "stitch (mixer (projection t))"
  shows "clip_geometryEnd (iterateGeometry (GeoIteratorClip_prototype n)) g t =
      bindE (clip_pass g 2 (shift_pt0 (map_width (projection t)) t)) (\<lambda>(b2, t2).
      bindE (clip_pass g 2 (shift_pt0 (- fl (2 * map_width (projection t))) t2)) (\<lambda>(b3, t3).
      Inr ((shift_pt0 (map_width (projection t)) t3)\<lparr>pass := 0\<rparr>)))"
proof -
  let ?w = "map_width (projection t)"
  let ?again = "iterateGeometry (GeoIteratorClip_prototype n)"
  have p1: "pass (shift_pt0 ?w t) = 1" using assms by (simp add: shift_pt0_def)
  have a1: "?again g (shift_pt0 ?w t) =
      bindE (clip_pass g 2 (shift_pt0 ?w t)) (\<lambda>(b, u). Inr (b, u\<lparr>pass := 1\<rparr>))"
    using nested_pass[of "shift_pt0 ?w t" n g] p1 by simp
  have a2: "?again g (shift_pt0 (- fl (2 * ?w)) (u\<lparr>pass := 1\<rparr>)) =
      bindE (clip_pass g 2 (shift_pt0 (- fl (2 * ?w)) u)) (\<lambda>(b, v). Inr (b, v\<lparr>pass := 1\<rparr>))" for u
    using nested_pass[of "shift_pt0 (- fl (2 * ?w)) (u\<lparr>pass := 1\<rparr>)" n g]
    by (simp add: shift_pt0_def clip_pass_def)
  have fin: "(shift_pt0 ?w (v\<lparr>pass := 1\<rparr>))\<lparr>pass := pass (shift_pt0 ?w (v\<lparr>pass := 1\<rparr>)) - 1\<rparr> =
      (shift_pt0 ?w v)\<lparr>pass := 0\<rparr>" for v :: geoiteratorclip
    by (simp add: shift_pt0_def)
  show ?thesis
  proof (cases "clip_pass g 2 (shift_pt0 ?w t)")
    case (Inl e)
    then show ?thesis using assms a1
      by (simp add: clip_geometryEnd_def Let_def map_width_def)
  next
    case (Inr r2)
    obtain b2 t2 where r2: "r2 = (b2, t2)" by (cases r2)
    show ?thesis
    proof (cases "clip_pass g 2 (shift_pt0 (- fl (2 * ?w)) t2)")
      case (Inl e)
      then show ?thesis using assms a1 a2[of t2] Inr r2
        by (simp add: clip_geometryEnd_def Let_def map_width_def)
    next
      case (Inr r3)
      obtain b3 t3 where r3: "r3 = (b3, t3)" by (cases r3)
      from Inr r3 show ?thesis using assms a1 a2[of t2] \<open>clip_pass g 2 (shift_pt0 ?w t) = Inr r2\<close> r2 fin[of t3]
        by (simp add: clip_geometryEnd_def Let_def map_width_def)
    qed
  qed
qed

lemma stitch_unfold:
  assumes "pass s = 0" "stitch (mixer (projection s))"
  shows "iterateGeometry (GeoIteratorClip_prototype (Suc n)) g s =
      bindE (clip_pass g 1 s) (\<lambda>(b1, t1).
      bindE (clip_pass g 2 (shift_pt0 (map_width (projection s)) t1)) (\<lambda>(b2, t2).
      bindE (clip_pass g 2 (shift_pt0 (- fl (2 * map_width (projection s))) t2)) (\<lambda>(b3, t3).
      Inr (b1, (shift_pt0 (map_width (projection s)) t3)\<lparr>pass := 0\<rparr>))))"
proof (cases "clip_pass g 1 s")
  case (Inl e)
  then show ?thesis using clip_first_pass[OF assms(1), of "Suc n" g] by simp
next
  case (Inr r)
  obtain b1 t1 where r: "r = (b1, t1)" by (cases r)
  from clip_pass_kept[of g 1 s b1 t1] Inr r
  have k: "pass t1 = 1" "projection t1 = projection s" by simp_all
  with assms have st: "stitch (mixer (projection t1))" by simp
  have "geometryEnd (GeoIteratorClip_prototype (Suc n)) g t1 =
      bindE (clip_pass g 2 (shift_pt0 (map_width (projection s)) t1)) (\<lambda>(b2, t2).
      bindE (clip_pass g 2 (shift_pt0 (- fl (2 * map_width (projection s))) t2)) (\<lambda>(b3, t3).
      Inr ((shift_pt0 (map_width (projection s)) t3)\<lparr>pass := 0\<rparr>)))"
    using clip_geometryEnd_stitch[OF k(1) st, of n g] k(2)
    by (simp add: clip_proto_geometryEnd del: GeoIteratorClip_prototype.simps)
  then show ?thesis using clip_first_pass[OF assms(1), of "Suc n" g] Inr r
    by (simp add: bindE_def split: sum.splits prod.splits del: GeoIteratorClip_prototype.simps)
qed

text \<open>What the three passes leave behind.\<close>

lemma stitch_projections:
  assumes p1: "clip_pass g 1 s = Inr (b1, t1)"
    and p2: "clip_pass g 2 (shift_pt0 (map_width (projection s)) t1) = Inr (b2, t2)"
  shows "pt (projection (shift_pt0 (map_width (projection s)) t1)) =
           (fl (fst (pt (projection s)) + map_width (projection s)), snd (pt (projection s)))"
    and "pt (projection (shift_pt0 (- fl (2 * map_width (projection s))) t2)) =
           (fl (fl (fst (pt (projection s)) + map_width (projection s)) -
                fl (2 * map_width (projection s))), snd (pt (projection s)))"
    and "clip_pass g 2 (shift_pt0 (- fl (2 * map_width (projection s))) t2) = Inr (b3, t3) \<Longrightarrow>
         projection (shift_pt0 (map_width (projection s)) t3) =
           (projection s)\<lparr>pt := (stitch_restored (fst (pt (projection s))) (map_width (projection s)),
                                 snd (pt (projection s)))\<rparr>"
proof -
  note k1 = clip_pass_kept(2)[OF p1] and k2 = clip_pass_kept(2)[OF p2]
  show "pt (projection (shift_pt0 (map_width (projection s)) t1)) =
           (fl (fst (pt (projection s)) + map_width (projection s)), snd (pt (projection s)))"
    using k1 by (simp add: shift_pt0_def)
  show "pt (projection (shift_pt0 (- fl (2 * map_width (projection s))) t2)) =
           (fl (fl (fst (pt (projection s)) + map_width (projection s)) -
                fl (2 * map_width (projection s))), snd (pt (projection s)))"
    using k1 k2 by (simp add: shift_pt0_def)
  show "projection (shift_pt0 (map_width (projection s)) t3) =
           (projection s)\<lparr>pt := (stitch_restored (fst (pt (projection s))) (map_width (projection s)),
                                 snd (pt (projection s)))\<rparr>"
    if p3: "clip_pass g 2 (shift_pt0 (- fl (2 * map_width (projection s))) t2) = Inr (b3, t3)"
    using k1 k2 clip_pass_kept(2)[OF p3] by (simp add: shift_pt0_def stitch_restored_def)
qed

lemma stitch_returns:
  assumes "pass s = 0" and "stitch (mixer (projection s))"
  shows "iterateGeometry (GeoIteratorClip_prototype (Suc n)) g s \<noteq> Inl NestingBound"
    and "iterateGeometry (GeoIteratorClip_prototype (Suc n)) g s = Inr (b, s') \<Longrightarrow>
         projection s' =
           (projection s)\<lparr>pt := (stitch_restored (fst (pt (projection s))) (map_width (projection s)),
                                 snd (pt (projection s)))\<rparr> \<and> pass s' = 0"
    and "can_draw g s \<Longrightarrow>
         \<exists>s'. iterateGeometry (GeoIteratorClip_prototype (Suc n)) g s = Inr (JTrue, s')"
proof -
  let ?w = "map_width (projection s)"
  let ?it = "iterateGeometry (GeoIteratorClip_prototype (Suc n)) g s"
  note u = stitch_unfold[OF assms, of n g]
  show "?it \<noteq> Inl NestingBound"
    unfolding u using clip_pass_never
    by (auto simp: bindE_def split: sum.splits)
  show "projection s' =
           (projection s)\<lparr>pt := (stitch_restored (fst (pt (projection s))) ?w,
                                 snd (pt (projection s)))\<rparr> \<and> pass s' = 0"
    if r: "?it = Inr (b, s')"
  proof -
    from r[unfolded u] obtain b1 t1 b2 t2 b3 t3 where
      p1: "clip_pass g 1 s = Inr (b1, t1)" and
      p2: "clip_pass g 2 (shift_pt0 ?w t1) = Inr (b2, t2)" and
      p3: "clip_pass g 2 (shift_pt0 (- fl (2 * ?w)) t2) = Inr (b3, t3)" and
      s': "s' = (shift_pt0 ?w t3)\<lparr>pass := 0\<rparr>"
      by (auto simp: bindE_def split: sum.splits)
    from stitch_projections(3)[OF p1 p2 p3] s' show ?thesis by simp
  qed
  show "\<exists>s'. ?it = Inr (JTrue, s')" if c: "can_draw g s"
  proof -
    from clip_pass_total[OF c, of 1] obtain t1 where
      p1: "clip_pass g 1 s = Inr (JTrue, t1)" and c1: "can_draw g t1" by blast
    from c1 have "can_draw g (shift_pt0 ?w t1)" by simp
    from clip_pass_total[OF this, of 2] obtain t2 where
      p2: "clip_pass g 2 (shift_pt0 ?w t1) = Inr (JTrue, t2)" and c2: "can_draw g t2" by blast
    from c2 have "can_draw g (shift_pt0 (- fl (2 * ?w)) t2)" by simp
    from clip_pass_total[OF this, of 2] obtain t3 where
      p3: "clip_pass g 2 (shift_pt0 (- fl (2 * ?w)) t2) = Inr (JTrue, t3)" by blast
    show ?thesis unfolding u by (simp add: p1 p2 p3)
  qed
qed

text \<open>The three assignments restore \<open>pt[0]\<close> when no sum is rounded, for instance when
  \<open>pt[0]\<close> and the width are whole numbers of pixels.\<close>

lemma stitch_restored_int:
  fixes m n :: int
  assumes "\<bar>m\<bar> + 2 * \<bar>n\<bar> < 2 ^ 53"
  shows "stitch_restored (of_int m) (of_int n) = of_int m"
proof -
  have a: "fl (real_of_int m + real_of_int n) = of_int (m + n)"
    using fl_int[of "m + n"] assms by simp
  have b: "fl (2 * real_of_int n) = of_int (2 * n)"
    using fl_int[of "2 * n"] assms by simp
  have c: "fl (real_of_int (m + n) - real_of_int (2 * n)) = of_int (m - n)"
    using fl_int[of "m - n"] assms by simp
  have d: "fl (real_of_int (m - n) + real_of_int n) = of_int m"
    using fl_int[of m] assms by simp
  show ?thesis unfolding stitch_restored_def a b c d ..
qed

text \<open>The rounded sums of the three assignments \<open>+= wd\<close>, \<open>-= 2*wd\<close>, \<open>+= wd\<close> for
  \<open>pt[0] = 683\<close> and a map of width \<open>768 + 2^-43\<close>.\<close>

lemma fl_exact_in_binade:
  assumes "2 powi e \<le> \<bar>x\<bar>" "\<bar>x\<bar> < 2 powi (e + 1)" "- 1022 \<le> e"
    and "x * 2 powi (52 - e) = of_int m"
  shows "fl x = x"
proof -
  have "ulp x = 2 powi (e - 52)" by (simp add: ulp_def binade_eq[OF assms(1,2,3)])
  then have "x / ulp x = x * 2 powi (52 - e)"
    using power_int_minus[of "2::real" "e - 52"] by (simp add: field_simps)
  with assms(4) show ?thesis by (intro fl_exact[of x m]) simp
qed

lemma fl_tie_in_binade:
  assumes "2 powi e \<le> \<bar>x\<bar>" "\<bar>x\<bar> < 2 powi (e + 1)" "- 1022 \<le> e"
    and "x * 2 powi (52 - e) = of_int f + 1 / 2" and "even f"
  shows "fl x = of_int f * 2 powi (e - 52)"
proof -
  have u: "ulp x = 2 powi (e - 52)" by (simp add: ulp_def binade_eq[OF assms(1,2,3)])
  then have "x / ulp x = x * 2 powi (52 - e)"
    using power_int_minus[of "2::real" "e - 52"] by (simp add: field_simps)
  then have "round_even (x / ulp x) = f" using assms(4,5) by (simp add: round_even_tie)
  moreover have "0 < \<bar>x\<bar>" by (rule less_le_trans[OF _ assms(1)]) simp
  then have "x \<noteq> 0" by simp
  ultimately show ?thesis by (simp add: fl_def u)
qed

lemma drift_sums:
  "fl (768 + 2 powi (- 43)) = 768 + 2 powi (- 43)"
  "fl (683 + (768 + 2 powi (- 43))) = 1451"
  "fl (2 * (768 + 2 powi (- 43))) = 1536 + 2 powi (- 42)"
  "fl (1451 - (1536 + 2 powi (- 42))) = - 85 - 2 powi (- 42)"
  "fl (- 85 - 2 powi (- 42) + (768 + 2 powi (- 43))) = 683 - 2 powi (- 43)"
proof -
  show "fl (768 + 2 powi (- 43)) = 768 + 2 powi (- 43)"
    using fl_exact_in_binade[where e = 9 and x = "768 + 2 powi (- 43)"
        and m = "768 * 2 ^ 43 + 1"]
    by (simp add: power_int_minus field_simps)
  show "fl (683 + (768 + 2 powi (- 43))) = 1451"
    using fl_tie_in_binade[where e = 10 and x = "683 + (768 + 2 powi (- 43))"
        and f = "1451 * 2 ^ 42"]
    by (simp add: power_int_minus field_simps)
  show "fl (2 * (768 + 2 powi (- 43))) = 1536 + 2 powi (- 42)"
    using fl_exact_in_binade[where e = 10 and x = "2 * (768 + 2 powi (- 43))"
        and m = "1536 * 2 ^ 42 + 1"]
    by (simp add: power_int_minus field_simps)
  show "fl (1451 - (1536 + 2 powi (- 42))) = - 85 - 2 powi (- 42)"
    using fl_exact_in_binade[where e = 6 and x = "1451 - (1536 + 2 powi (- 42))"
        and m = "- (85 * 2 ^ 46 + 16)"]
    by (simp add: power_int_minus field_simps)
  show "fl (- 85 - 2 powi (- 42) + (768 + 2 powi (- 43))) = 683 - 2 powi (- 43)"
    using fl_exact_in_binade[where e = 9 and x = "- 85 - 2 powi (- 42) + (768 + 2 powi (- 43))"
        and m = "683 * 2 ^ 43 - 1"]
    by (simp add: power_int_minus field_simps)
qed

lemma drifting_restored: "stitch_restored 683 (768 + 2 powi (- 43)) = 683 - 2 powi (- 43)"
  unfolding stitch_restored_def drift_sums(2,3,4,5) ..

text \<open>
  Claim C6, as stated, says that \<open>pt[0]\<close> has its value on entry when the call returns.
  The three assignments \<open>+= wd\<close>, \<open>-= 2*wd\<close>, \<open>+= wd\<close> are three rounded sums. With
  \<open>pt[0] = 683\<close> and a map of width \<open>768.0000000000001\<close>, the double next above 768, the
  first sum rounds to 1451 and the call returns with \<open>pt[0] = 682.9999999999999\<close>, the
  double next below 683.
\<close>

theorem stitch_drift_counterexample:
  "pass (example_clip drifting) = 0 \<and> stitch (mixer (projection (example_clip drifting))) \<and>
   fst (pt (projection (example_clip drifting))) = 683 \<and>
   (\<exists>s'. iterateGeometry (GeoIteratorClip_prototype (Suc 0)) (LineString [(0, 0)])
            (example_clip drifting) = Inr (JTrue, s') \<and>
         fst (pt (projection s')) = 683 - 2 powi (- 43)) \<and>
   (683::real) - 2 powi (- 43) \<noteq> 683"
proof -
  have h1: "pass (example_clip drifting) = 0" by (simp add: example_clip_def)
  have p: "projection (example_clip drifting) = drifting" by (simp add: example_clip_def)
  have h2: "stitch (mixer (projection (example_clip drifting)))"
    unfolding p by (simp add: drifting_def stitched_def example_projection_def mixer_row_def)
  have h3: "can_draw (LineString [(0, 0)]) (example_clip drifting)"
    by (simp add: can_draw_def example_clip_def)
  have p0: "fst (pt drifting) = 683" by (simp add: drifting_def)
  have w: "map_width drifting = 768 + 2 powi (- 43)"
    using drift_sums(1) by (simp add: map_width_def drifting_def)
  from stitch_returns(3)[OF h1 h2 h3, of 0] obtain s' where
    r: "iterateGeometry (GeoIteratorClip_prototype (Suc 0)) (LineString [(0, 0)])
            (example_clip drifting) = Inr (JTrue, s')" by blast
  from stitch_returns(2)[OF h1 h2 r]
  have "projection s' = drifting\<lparr>pt := (683 - 2 powi (- 43), snd (pt drifting))\<rparr>"
    unfolding p p0 w drifting_restored by (rule conjunct1)
  then have "fst (pt (projection s')) = 683 - 2 powi (- 43)" by simp
  with r h1 h2 p p0 show ?thesis by (auto simp: power_int_minus)
qed

text \<open>
  Claim C6, amended. Under a mixer with \<open>stitch\<close> set, a call of \<open>iterateGeometry\<close>
  entered at pass depth 0 (so that \<open>geometryStart\<close> raises the depth to 1) makes exactly
  three passes over the geometry: one at depth 1, one at depth 2 with \<open>pt[0]\<close> the rounded
  sum of its value on entry and the width of the map, and one at depth 2 with \<open>pt[0]\<close>
  the rounded difference of that and twice the width. The two inner calls do not call
  \<open>iterateGeometry\<close> again, so a nesting bound of one suffices and the bound is never
  reached. When the call returns, the pass depth is 0 again and the projection is the
  one on entry except that \<open>pt[0]\<close> is the result of the three rounded sums; that result
  is the value on entry when \<open>pt[0]\<close> and the width are whole numbers (below \<open>2^53\<close> in
  the sum \<open>\<bar>pt[0]\<bar> + 2\<bar>wd\<bar>\<close>). The call does return, with \<open>true\<close>, when no call of
  \<open>drawPoint\<close> can throw.
\<close>

theorem stitch_three_passes:
  assumes "pass s = 0" and "stitch (mixer (projection s))"
  shows "iterateGeometry (GeoIteratorClip_prototype (Suc n)) g s =
      bindE (clip_pass g 1 s) (\<lambda>(b1, t1).
      bindE (clip_pass g 2 (shift_pt0 (map_width (projection s)) t1)) (\<lambda>(b2, t2).
      bindE (clip_pass g 2 (shift_pt0 (- fl (2 * map_width (projection s))) t2)) (\<lambda>(b3, t3).
      Inr (b1, (shift_pt0 (map_width (projection s)) t3)\<lparr>pass := 0\<rparr>)))) \<and>
    (\<forall>b1 t1 b2 t2.
       clip_pass g 1 s = Inr (b1, t1) \<and>
       clip_pass g 2 (shift_pt0 (map_width (projection s)) t1) = Inr (b2, t2) \<longrightarrow>
       pt (projection (shift_pt0 (map_width (projection s)) t1)) =
         (fl (fst (pt (projection s)) + map_width (projection s)), snd (pt (projection s))) \<and>
       pt (projection (shift_pt0 (- fl (2 * map_width (projection s))) t2)) =
         (fl (fl (fst (pt (projection s)) + map_width (projection s)) -
              fl (2 * map_width (projection s))), snd (pt (projection s)))) \<and>
    iterateGeometry (GeoIteratorClip_prototype (Suc n)) g s \<noteq> Inl NestingBound \<and>
    (\<forall>b s'. iterateGeometry (GeoIteratorClip_prototype (Suc n)) g s = Inr (b, s') \<longrightarrow>
       projection s' =
         (projection s)\<lparr>pt := (stitch_restored (fst (pt (projection s))) (map_width (projection s)),
                               snd (pt (projection s)))\<rparr> \<and>
       pass s' = 0 \<and>
       ((\<exists>m n :: int. fst (pt (projection s)) = of_int m \<and> map_width (projection s) = of_int n \<and>
                       \<bar>m\<bar> + 2 * \<bar>n\<bar> < 2 ^ 53) \<longrightarrow>
        projection s' = projection s)) \<and>
    (can_draw g s \<longrightarrow>
       (\<exists>s'. iterateGeometry (GeoIteratorClip_prototype (Suc n)) g s = Inr (JTrue, s')))"
proof -
  let ?w = "map_width (projection s)"
  let ?it = "iterateGeometry (GeoIteratorClip_prototype (Suc n)) g s"
  note u = stitch_unfold[OF assms, of n g]
  have restore: "projection s' =
         (projection s)\<lparr>pt := (stitch_restored (fst (pt (projection s))) ?w,
                               snd (pt (projection s)))\<rparr> \<and>
       pass s' = 0 \<and>
       ((\<exists>m n :: int. fst (pt (projection s)) = of_int m \<and> ?w = of_int n \<and>
                       \<bar>m\<bar> + 2 * \<bar>n\<bar> < 2 ^ 53) \<longrightarrow>
        projection s' = projection s)" if r: "?it = Inr (b, s')" for b s'
  proof -
    note a = stitch_returns(2)[OF assms r]
    have "projection s' = projection s"
      if "\<exists>m n :: int. fst (pt (projection s)) = of_int m \<and> ?w = of_int n \<and>
                       \<bar>m\<bar> + 2 * \<bar>n\<bar> < 2 ^ 53"
    proof -
      from that obtain m n :: int where mn: "fst (pt (projection s)) = of_int m" "?w = of_int n"
        "\<bar>m\<bar> + 2 * \<bar>n\<bar> < 2 ^ 53" by blast
      have "stitch_restored (fst (pt (projection s))) ?w = fst (pt (projection s))"
        unfolding mn(1,2) using mn(3) by (rule stitch_restored_int)
      with a show ?thesis by simp
    qed
    with a show ?thesis by blast
  qed
  show ?thesis
  proof (intro conjI allI impI)
    show "?it =
      bindE (clip_pass g 1 s) (\<lambda>(b1, t1).
      bindE (clip_pass g 2 (shift_pt0 ?w t1)) (\<lambda>(b2, t2).
      bindE (clip_pass g 2 (shift_pt0 (- fl (2 * ?w)) t2)) (\<lambda>(b3, t3).
      Inr (b1, (shift_pt0 ?w t3)\<lparr>pass := 0\<rparr>))))" by (rule u)
    show "?it \<noteq> Inl NestingBound" by (rule stitch_returns(1)[OF assms])
    show "\<exists>s'. ?it = Inr (JTrue, s')" if "can_draw g s"
      using that by (rule stitch_returns(3)[OF assms])
  next
    fix b1 t1 b2 t2
    assume a: "clip_pass g 1 s = Inr (b1, t1) \<and> clip_pass g 2 (shift_pt0 ?w t1) = Inr (b2, t2)"
    show "pt (projection (shift_pt0 ?w t1)) =
         (fl (fst (pt (projection s)) + ?w), snd (pt (projection s)))"
      using a stitch_projections(1) by blast
    show "pt (projection (shift_pt0 (- fl (2 * ?w)) t2)) =
         (fl (fl (fst (pt (projection s)) + ?w) - fl (2 * ?w)), snd (pt (projection s)))"
      using a stitch_projections(2) by blast
  next
    fix b s'
    assume r: "?it = Inr (b, s')"
    show "projection s' =
         (projection s)\<lparr>pt := (stitch_restored (fst (pt (projection s))) ?w,
                               snd (pt (projection s)))\<rparr>"
      using restore[OF r] by blast
    show "pass s' = 0" using restore[OF r] by blast
    show "projection s' = projection s"
      if "\<exists>m n :: int. fst (pt (projection s)) = of_int m \<and> ?w = of_int n \<and>
                       \<bar>m\<bar> + 2 * \<bar>n\<bar> < 2 ^ 53"
      using restore[OF r] that by blast
  qed
qed

theorem stitch_three_passes_witness:
  "pass (example_clip stitched) = 0 \<and> stitch (mixer (projection (example_clip stitched))) \<and>
   can_draw (LineString [(0, 0)]) (example_clip stitched) \<and>
   fst (pt (projection (example_clip stitched))) = of_int 180 \<and>
   map_width (projection (example_clip stitched)) = of_int 360 \<and>
   (\<exists>s'. iterateGeometry (GeoIteratorClip_prototype (Suc 0)) (LineString [(0, 0)])
            (example_clip stitched) = Inr (JTrue, s') \<and>
         projection s' = stitched \<and> pass s' = 0)"
proof -
  have h1: "pass (example_clip stitched) = 0" by (simp add: example_clip_def)
  have h2: "stitch (mixer (projection (example_clip stitched)))"
    by (simp add: example_clip_def stitched_def example_projection_def mixer_row_def)
  have h3: "can_draw (LineString [(0, 0)]) (example_clip stitched)"
    by (simp add: can_draw_def example_clip_def)
  have p: "projection (example_clip stitched) = stitched" by (simp add: example_clip_def)
  have p0: "fst (pt stitched) = of_int 180"
    by (simp add: stitched_def example_projection_def)
  have w: "map_width stitched = of_int 360"
    using fl_int[of 360] by (simp add: map_width_def stitched_def example_projection_def)
  have i: "\<exists>m n :: int. fst (pt stitched) = of_int m \<and> map_width stitched = of_int n \<and>
      \<bar>m\<bar> + 2 * \<bar>n\<bar> < 2 ^ 53"
    by (intro exI[of _ 180] exI[of _ 360]) (simp add: p0 w)
  from stitch_three_passes[OF h1 h2, of 0 "LineString [(0, 0)]"] h3 i
  have "(\<exists>s'. iterateGeometry (GeoIteratorClip_prototype (Suc 0)) (LineString [(0, 0)])
            (example_clip stitched) = Inr (JTrue, s') \<and>
         projection s' = stitched \<and> pass s' = 0)"
    unfolding p by blast
  with h1 h2 h3 p0 w show ?thesis unfolding p by blast
qed

section \<open>The round trip of project and invert\<close>

text \<open>
  In this section the numbers are the real ones: the statement that is proved is the
  exact law of which the code computes a rounded version.

  On the orthographic path \<open>project\<close> rotates the unit vector of the coordinate and
  \<open>invert\<close> rotates it back. The longitude comes back through the two wrap-arounds by a
  full turn, the latitude through the arcsine of its sine.
\<close>

lemma ortho_round_trip:
  assumes m: "orthographic (mixer P)" "\<not> cylindrical (mixer P)"
    and u: "unit_rotation P" and dl: "\<bar>delta_lambda P\<bar> < 2 * pi"
    and tr: "delta_x P = wd P / 2" "delta_y P = ht P / 2"
    and sc: "0 < k P" "0 \<le> cr P"
    and c: "- 180 < lng" "lng < 180" "- 90 < lat" "lat < 90"
    and vis: "snd (snd (project P (lng, lat)))"
  shows "invert P (project P (lng, lat)) = Some (lng, lat, True)"
proof -
  define l0 where "l0 = radians lng"
  define ph where "ph = radians lat"
  have l0: "- pi < l0" "l0 < pi"
    using radians_mono[OF c(1)] radians_mono[OF c(2)]
    by (simp_all add: l0_def radians_minus radians_values)
  have ph: "- (pi / 2) < ph" "ph < pi / 2"
    using radians_mono[OF c(3)] radians_mono[OF c(4)]
    by (simp_all add: ph_def radians_minus radians_values)
  have cph: "0 < cos ph" using ph by (simp add: cos_gt_zero_pi)
  define l1 where "l1 = l0 + delta_lambda P"
  define x where "x = cos l1 * cos ph"
  define y where "y = sin l1 * cos ph"
  define z where "z = sin ph"
  define kk where "kk = z * cos_delta_phi P + x * sin_delta_phi P"
  define X where "X = x * cos_delta_phi P - z * sin_delta_phi P"
  define Y where "Y = y * cos_delta_gamma P - kk * sin_delta_gamma P"
  define Z where "Z = kk * cos_delta_gamma P + y * sin_delta_gamma P"
  have p1: "(cos_delta_phi P)\<^sup>2 + (sin_delta_phi P)\<^sup>2 = 1"
    and g1: "(cos_delta_gamma P)\<^sup>2 + (sin_delta_gamma P)\<^sup>2 = 1"
    using u by (simp_all add: unit_rotation_def)
  note ri = rotation_inverse[OF p1 g1 kk_def X_def Y_def Z_def]
  have r: "rotated P (lng, lat) = (X, Y, Z)"
    by (simp add: rotated_def Let_def X_def Y_def Z_def kk_def x_def y_def z_def l1_def l0_def ph_def)
  have XYZ: "X\<^sup>2 + Y\<^sup>2 + Z\<^sup>2 = 1" using u r by (rule rotated_unit)
  note po = project_ortho_only[OF m u r sc(2)]
  have Xcr: "cr P < X" using vis unfolding po by (simp split: if_splits)
  then have Xpos: "0 < X" using sc(2) by simp
  have proj: "project P (lng, lat) = (Some (Y * k P + delta_x P), Some (delta_y P - Z * k P), True)"
    unfolding po using Xcr by simp
  have Zb: "- 1 \<le> Z" "Z \<le> 1"
  proof -
    have "Z\<^sup>2 \<le> 1" using XYZ by (smt (verit) zero_le_power2)
    then have "\<bar>Z\<bar> \<le> 1" by (simp add: abs_square_le_1)
    then show "- 1 \<le> Z" "Z \<le> 1" by auto
  qed
  define r where "r = sqrt (X\<^sup>2 + Y\<^sup>2)"
  have rpos: "0 < r" unfolding r_def using Xpos by (intro sqrt_sum_pos) simp
  have cZ: "cos (arcsin Z) = r"
  proof -
    have "1 - Z\<^sup>2 = X\<^sup>2 + Y\<^sup>2" using XYZ by simp
    then show ?thesis using Zb by (simp add: cos_arcsin r_def)
  qed
  have sZ: "sin (arcsin Z) = Z" using Zb by simp
  have nz: "X \<noteq> 0 \<or> Y \<noteq> 0" using Xpos by simp
  have cl: "cos (atan2 Y X) * r = X" and sl: "sin (atan2 Y X) * r = Y"
    using atan2_polar[OF nz] rpos by (simp_all add: r_def)
  define rho where "rho = sqrt (Y * Y + Z * Z)"
  have rho2: "rho\<^sup>2 = 1 - X\<^sup>2"
    using XYZ by (simp add: rho_def power2_eq_square)
  have rho0: "0 \<le> rho" by (simp add: rho_def)
  have rho1: "rho \<le> 1"
  proof -
    have "rho\<^sup>2 \<le> 1\<^sup>2" using rho2 by simp
    then show ?thesis by (rule power2_le_imp_le) simp
  qed
  have asr: "asin (Fin rho) = Fin (arcsin rho)" using rho0 rho1 by (simp add: asin_Fin)
  have sr: "sin (arcsin rho) = rho" using rho0 rho1 by simp
  have cr: "cos (arcsin rho) = X"
  proof -
    have "cos (arcsin rho) = sqrt (1 - rho\<^sup>2)" using rho0 rho1 by (simp add: cos_arcsin)
    also have "\<dots> = X" using rho2 Xpos by simp
    finally show ?thesis .
  qed
  have li: "atan2 (Y * rho) (rho * X) = atan2 Y X"
  proof (cases "rho = 0")
    case True
    then have "Y * Y + Z * Z = 0" by (simp add: rho_def)
    then have "Y = 0" by (simp add: sum_squares_eq_zero_iff)
    with True Xpos show ?thesis by (simp add: atan2_def)
  next
    case False
    with rho0 have "0 < rho" by simp
    from atan2_scale[OF this, of Y X] show ?thesis by (simp add: mult.commute)
  qed
  have pa': "(if rho = 0 then rho else Z * rho / rho) = Z"
  proof (cases "rho = 0")
    case True
    then have "Y * Y + Z * Z = 0" by (simp add: rho_def)
    then have "Z = 0" by (simp add: sum_squares_eq_zero_iff)
    with True show ?thesis by simp
  next
    case False
    then show ?thesis by simp
  qed
  have masZ: "Math_asin (Fin Z) = Fin (arcsin Z)" using Zb by simp
  have xy: "x \<noteq> 0 \<or> y \<noteq> 0"
  proof (rule ccontr)
    assume "\<not> (x \<noteq> 0 \<or> y \<noteq> 0)"
    then have "cos l1 = 0" "sin l1 = 0" using cph by (simp_all add: x_def y_def)
    then show False using sin_cos_squared_add[of l1] by simp
  qed
  have sxy: "sqrt (x\<^sup>2 + y\<^sup>2) = cos ph"
  proof -
    have "x\<^sup>2 + y\<^sup>2 = ((cos l1)\<^sup>2 + (sin l1)\<^sup>2) * (cos ph)\<^sup>2"
      by (simp only: x_def y_def power_mult_distrib distrib_right)
    then show ?thesis using cph by simp
  qed
  have "cos (atan2 y x) = x / cos ph" "sin (atan2 y x) = y / cos ph"
    using atan2_polar[OF xy] by (simp_all only: sxy)
  then have "sin (atan2 y x) = sin l1 \<and> cos (atan2 y x) = cos l1"
    using cph by (simp add: x_def y_def)
  then obtain j :: int where j: "atan2 y x = l1 + 2 * pi * real_of_int j"
    using sin_cos_eq_iff[of "atan2 y x" l1] by blast
  have bck: "(if atan2 y x - delta_lambda P > pi then atan2 y x - delta_lambda P - tau
      else if atan2 y x - delta_lambda P < - pi then atan2 y x - delta_lambda P + tau
      else atan2 y x - delta_lambda P) = l0"
  proof (rule constrain_back[OF l0, of _ j])
    show "atan2 y x - delta_lambda P = l0 + 2 * pi * real_of_int j"
      using j by (simp add: l1_def)
    show "\<bar>atan2 y x - delta_lambda P\<bar> < 3 * pi"
      using atan2_range[of y x] dl by linarith
  qed
  have asz: "asin (Fin z) = Fin ph"
  proof -
    have n: "\<not> sin ph < - 1" "\<not> 1 < sin ph"
      using sin_ge_minus_one[of ph] sin_le_one[of ph] by linarith+
    have "asin (Fin (sin ph)) = Fin (arcsin (sin ph))"
      unfolding asin_Fin by (simp only: n if_False)
    also have "arcsin (sin ph) = ph" using ph by (intro arcsin_sin) simp_all
    finally show ?thesis by (simp add: z_def)
  qed
  have circle: "isPointInCircle P (Y * k P + delta_x P) (delta_y P - Z * k P)"
  proof -
    have "(Y * k P)\<^sup>2 + (Z * k P)\<^sup>2 = rho\<^sup>2 * (k P)\<^sup>2"
      by (simp add: rho_def power2_eq_square algebra_simps)
    also have "\<dots> \<le> 1 * (k P)\<^sup>2"
      using rho0 rho1 by (intro mult_right_mono) (simp_all add: power_le_one)
    finally show ?thesis by (simp add: isPointInCircle_def tr Let_def power2_eq_square)
  qed
  have inv1: "(Y * k P + delta_x P - delta_x P) / k P = Y" "(delta_y P - (delta_y P - Z * k P)) / k P = Z"
    using sc(1) by simp_all
  have k0: "k P \<noteq> 0" using sc(1) by simp
  have io: "invert_orthographic P (Y * k P + delta_x P) (delta_y P - Z * k P) =
      Some (degrees l0, degrees ph, True)"
    unfolding invert_orthographic_def Let_def inv1 if_not_P[OF k0]
    unfolding rho_def[symmetric] asr finite_val.simps option.case sr cr li pa' masZ cZ sZ cl sl
      ri(1) ri(2) ri(3) ri(4) asz bck
    using circle by simp
  show ?thesis
    unfolding proj using m io by (simp add: invert_def Let_def l0_def ph_def)
qed


text \<open>On the cylindrical path \<open>mercatorShrink\<close> undoes \<open>mercatorStretch\<close> between the
  poles.\<close>

lemma mercator_shrink_stretch:
  assumes "\<bar>u\<bar> < 90"
  shows "mercatorShrink (mercatorStretch u) = u"
proof -
  define a where "a = pi / 4 + radians u / 2"
  have r: "- (pi / 2) < radians u" "radians u < pi / 2"
    using radians_abs_less_90[OF assms] by simp_all
  have a: "0 < a" "a < pi / 2" using r by (simp_all add: a_def)
  have t: "0 < tan a" using a by (rule tan_gt_zero)
  have "radians (mercatorStretch u) = ln (tan a)"
    by (simp add: mercatorStretch_def Let_def a_def radians_def degrees_def)
  then have "mercatorShrink (mercatorStretch u) = degrees (2 * arctan (tan a) - pi / 2)"
    using t by (simp add: mercatorShrink_def Let_def)
  also have "arctan (tan a) = a" using a by (intro arctan_tan) simp_all
  also have "2 * a - pi / 2 = radians u" by (simp add: a_def)
  finally show ?thesis by simp
qed

lemma cylindrical_round_trip:
  assumes m: "cylindrical (mixer Q)" "\<not> orthographic (mixer Q)" "mercator (mixer Q)"
      "\<not> soupcan (mixer Q)"
    and mf: "mf Q = 1" and px: "pxlPerDgr Q \<noteq> 0"
    and la: "\<bar>lat\<bar> \<le> latClamp Q" "latClamp Q < 90" and lo: "\<bar>lng\<bar> \<le> 180"
  shows "invert Q (project Q (lng, lat)) =
           Some (lng, lat, isVisibleExtent Q (fst (project_cylindrical Q (lng, lat)))
                                             (snd (project_cylindrical Q (lng, lat))))"
proof -
  have cl: "clamp (- lat) (- latClamp Q) (latClamp Q) = - lat"
    using la by (auto simp: clamp_def min_def max_def)
  have pc: "project_cylindrical Q (lng, lat) =
      ((lng - fst (co Q)) * pxlPerDgr Q + fst (pt Q),
       (mercatorStretch (- lat) - snd (co Q)) * pxlPerDgr Q + snd (pt Q))"
    using m by (simp add: project_cylindrical_def Let_def cl mf)
  have pr: "project Q (lng, lat) =
      (Some ((lng - fst (co Q)) * pxlPerDgr Q + fst (pt Q)),
       Some ((mercatorStretch (- lat) - snd (co Q)) * pxlPerDgr Q + snd (pt Q)), True)"
    using m by (simp add: project_def Let_def pc)
  have ms: "mercatorShrink (mercatorStretch (- lat)) = - lat"
    using la by (intro mercator_shrink_stretch) simp
  have ic: "invert_cylindrical Q ((lng - fst (co Q)) * pxlPerDgr Q + fst (pt Q))
        ((mercatorStretch (- lat) - snd (co Q)) * pxlPerDgr Q + snd (pt Q)) =
      Some (lng, lat, isVisibleExtent Q ((lng - fst (co Q)) * pxlPerDgr Q + fst (pt Q))
        ((mercatorStretch (- lat) - snd (co Q)) * pxlPerDgr Q + snd (pt Q)))"
  proof -
    have n: "\<not> 180 < lng" "\<not> lng < - 180" using lo by simp_all
    show ?thesis using px by (simp add: invert_cylindrical_def Let_def ms n)
  qed
  show ?thesis unfolding pr pc using m ic by (simp add: invert_def Let_def)
qed

text \<open>A bound on \<open>pi\<close> for the example below.\<close>

lemma pi_ge_three: "3 \<le> pi"
proof -
  have "sin (pi / 6) \<le> pi / 6" by (rule sin_x_le_x) simp
  then show ?thesis by (simp add: sin_30)
qed




end
